(* ===== verification/Meowith_Prelude.thy ===== *)
theory Meowith_Prelude
  imports Main "HOL-Library.Word"
begin

unbundle bit_operations_syntax

section \<open>Shared vocabulary of the Meowith development\<close>

text \<open>
  The types, collections of rewrite rules and generic lemmas the component theories share.

  \<^item> Rust's fixed-width integers are words; arithmetic on them wraps, which is what the
    atomics (\<open>fetch_add\<close>, \<open>fetch_sub\<close>) do always and the plain operators do in a
    release build (the workspace sets no \<open>overflow-checks\<close>).
  \<^item> \<open>Result<T, E>\<close> is the datatype \<open>result\<close>; a panic, where one is reachable, is the
    value \<open>None\<close> of an \<open>option\<close> around it.
  \<^item> \<open>Uuid\<close> is the 128-bit value the crate stores; \<open>Uuid::new_v4\<close> is an argument of the
    operations that draw one.
  \<^item> \<open>HashMap<K, V>\<close> is a map \<open>'k \<rightharpoonup> 'v\<close>; where the code iterates over one, the
    unspecified iteration order is an argument.
  \<^item> \<open>msum\<close> is the sum of a measure over the values of a map: what the ledger's counters
    are meant to hold.
  \<^item> \<open>be_of_nat\<close> and \<open>nat_of_be\<close> are the big-endian byte strings of
    \<open>to_be_bytes\<close> and \<open>from_be_bytes\<close>; the locale \<open>be_codec\<close> is the contract of a
    fixed-width field and is interpreted for every integer width on the wire.
\<close>

subsection \<open>Types\<close>

type_synonym u8 = "8 word"
type_synonym u16 = "16 word"
type_synonym u32 = "32 word"
type_synonym u64 = "64 word"
type_synonym uuid = "128 word"
type_synonym i64 = int \<comment> \<open>always in the range of a two's complement 64-bit integer\<close>
type_synonym instant = nat \<comment> \<open>nanoseconds on the monotonic clock\<close>
type_synonym timestamp = int \<comment> \<open>milliseconds since the epoch, the resolution of a CQL timestamp\<close>

datatype ('a, 'e) result = Ok 'a | Err 'e

fun is_ok :: "('a, 'e) result \<Rightarrow> bool" where
  "is_ok (Ok _) = True"
| "is_ok (Err _) = False"

fun map_err :: "('e \<Rightarrow> 'f) \<Rightarrow> ('a, 'e) result \<Rightarrow> ('a, 'f) result" where
  "map_err f (Ok a) = Ok a"
| "map_err f (Err e) = Err (f e)"

fun and_then :: "('a, 'e) result \<Rightarrow> ('a \<Rightarrow> ('b, 'e) result) \<Rightarrow> ('b, 'e) result" where
  "and_then (Ok a) f = f a"
| "and_then (Err e) f = Err e"

lemma and_then_eq_Ok [simp]: "and_then r f = Ok b \<longleftrightarrow> (\<exists>a. r = Ok a \<and> f a = Ok b)"
  by (cases r) auto

lemma map_err_eq_Ok [simp]: "map_err f r = Ok a \<longleftrightarrow> r = Ok a"
  by (cases r) auto

lemma map_err_eq_Err: "map_err f r = Err e \<longleftrightarrow> (\<exists>e'. r = Err e' \<and> e = f e')"
  by (cases r) auto

lemma not_is_ok_iff: "\<not> is_ok r \<longleftrightarrow> (\<exists>e. r = Err e)"
  by (cases r) auto

subsection \<open>Machine integers\<close>

text \<open>Rust's \<open>u64::saturating_sub\<close>, \<open>x as i64\<close>, and wrapping \<open>i64\<close> arithmetic.\<close>

definition saturating_sub :: "'a::len word \<Rightarrow> 'a word \<Rightarrow> 'a word" where
  "saturating_sub a b = (if b \<le> a then a - b else 0)"

definition as_i64 :: "u64 \<Rightarrow> i64" where
  "as_i64 w = sint w"

definition as_u64 :: "i64 \<Rightarrow> u64" where
  "as_u64 i = word_of_int i"

definition wrap_i64 :: "int \<Rightarrow> i64" where
  "wrap_i64 i = sint (word_of_int i :: u64)"

definition i64_add :: "i64 \<Rightarrow> i64 \<Rightarrow> i64" where
  "i64_add a b = wrap_i64 (a + b)"

definition in_i64 :: "int \<Rightarrow> bool" where
  "in_i64 i \<longleftrightarrow> - (2 ^ 63) \<le> i \<and> i < 2 ^ 63"

lemma unat_of_nat_small: "n < 2 ^ LENGTH('a) \<Longrightarrow> unat (of_nat n :: 'a::len word) = n"
  by (simp add: unat_of_nat)

lemma unat_saturating_sub: "unat (saturating_sub a b) = unat a - unat b"
  by (auto simp: saturating_sub_def unat_sub word_le_nat_alt)

lemma saturating_sub_0 [simp]: "saturating_sub a 0 = a"
  by (simp add: saturating_sub_def)

lemma wrap_i64_id [simp]: "in_i64 i \<Longrightarrow> wrap_i64 i = i"
  by (simp add: wrap_i64_def in_i64_def sint_word_ariths signed_take_bit_int_eq_self
      sint_uint uint_word_of_int_eq signed_take_bit_take_bit)

lemma in_i64_wrap [simp]: "in_i64 (wrap_i64 i)"
  using sint_greater_eq [of "word_of_int i :: u64"] sint_less [of "word_of_int i :: u64"]
  by (simp add: wrap_i64_def in_i64_def)

lemma in_i64_as_i64 [simp]: "in_i64 (as_i64 w)"
  using sint_greater_eq [of w] sint_less [of w] by (simp add: as_i64_def in_i64_def)

lemma as_i64_small: "unat w < 2 ^ 63 \<Longrightarrow> as_i64 w = int (unat w)"
proof -
  assume "unat w < 2 ^ 63"
  then have "uint w < 2 ^ 63"
    unfolding uint_nat by (metis of_nat_less_iff of_nat_numeral of_nat_power)
  then have "signed_take_bit 63 (uint w) = uint w"
    by (intro signed_take_bit_int_eq_self) (simp_all add: order_trans [OF _ uint_ge_0])
  then have "sint w = uint w" unfolding sint_uint by simp
  then show ?thesis by (simp add: as_i64_def)
qed

lemma as_u64_as_i64 [simp]: "as_u64 (as_i64 w) = w"
  by (simp add: as_u64_def as_i64_def)

lemma as_i64_as_u64 [simp]: "in_i64 i \<Longrightarrow> as_i64 (as_u64 i) = i"
  using wrap_i64_id [of i] by (simp add: as_i64_def as_u64_def wrap_i64_def)

subsection \<open>Sums over maps\<close>

definition msum :: "('v \<Rightarrow> 'n::comm_monoid_add) \<Rightarrow> ('k \<rightharpoonup> 'v) \<Rightarrow> 'n" where
  "msum f m = (\<Sum>k\<in>dom m. f (the (m k)))"

lemma msum_empty [simp]: "msum f Map.empty = 0"
  by (simp add: msum_def)

lemma msum_insert:
  assumes "finite (dom m)" "m k = None"
  shows "msum f (m(k \<mapsto> v)) = f v + msum f m"
proof -
  have "(\<Sum>x\<in>dom m. f (the ((m(k \<mapsto> v)) x))) = (\<Sum>x\<in>dom m. f (the (m x)))"
    using assms by (intro sum.cong) auto
  with assms show ?thesis by (simp add: msum_def domIff)
qed

lemma msum_remove:
  assumes "finite (dom m)" "m k = Some v"
  shows "msum f m = f v + msum f (m(k := None))"
proof -
  have "m = (m(k := None))(k \<mapsto> v)" using assms by auto
  then show ?thesis using msum_insert [of "m(k := None)" k f v] assms by simp
qed

lemma msum_delete:
  fixes f :: "'v \<Rightarrow> 'n::ab_group_add"
  assumes "finite (dom m)" "m k = Some v"
  shows "msum f (m(k := None)) = msum f m - f v"
  using msum_remove [OF assms, of f] by simp

lemma msum_delete_None [simp]: "m k = None \<Longrightarrow> msum f (m(k := None)) = msum f m"
  by (metis fun_upd_triv)

lemma msum_update_same:
  assumes "finite (dom m)" "m k = Some v" "f v' = f v"
  shows "msum f (m(k \<mapsto> v')) = msum f m"
  using msum_insert [of "m(k := None)" k f v'] msum_remove [OF assms(1,2), of f] assms
  by simp

subsection \<open>Big-endian byte strings\<close>

fun be_of_nat :: "nat \<Rightarrow> nat \<Rightarrow> u8 list" where
  "be_of_nat 0 x = []"
| "be_of_nat (Suc n) x = be_of_nat n (x div 256) @ [word_of_nat (x mod 256)]"

definition nat_of_be :: "u8 list \<Rightarrow> nat" where
  "nat_of_be bs = foldl (\<lambda>acc b. acc * 256 + unat b) 0 bs"

lemma length_be_of_nat [simp]: "length (be_of_nat n x) = n"
  by (induction n arbitrary: x) auto

lemma nat_of_be_Nil [simp]: "nat_of_be [] = 0"
  by (simp add: nat_of_be_def)

lemma nat_of_be_snoc [simp]: "nat_of_be (bs @ [b]) = nat_of_be bs * 256 + unat b"
  by (simp add: nat_of_be_def)

lemma unat_word8_mod [simp]: "unat (word_of_nat (x mod 256) :: u8) = x mod 256"
  by (simp add: unat_of_nat)

lemma nat_of_be_of_nat: "x < 256 ^ n \<Longrightarrow> nat_of_be (be_of_nat n x) = x"
proof (induction n arbitrary: x)
  case (Suc n)
  from Suc.prems have "x div 256 < 256 ^ n" by (simp add: less_mult_imp_div_less mult.commute)
  from Suc.IH [OF this] show ?case by (simp add: div_mult_mod_eq)
qed simp

lemma nat_of_be_less: "nat_of_be bs < 256 ^ length bs"
proof (induction bs rule: rev_induct)
  case (snoc b bs)
  have "unat b < 256" using unsigned_less [of b, where ?'a = nat] by simp
  with snoc show ?case by simp
qed simp

lemma be_of_nat_of_be: "be_of_nat (length bs) (nat_of_be bs) = bs"
proof (induction bs rule: rev_induct)
  case (snoc b bs)
  have "unat b < 256" using unsigned_less [of b, where ?'a = nat] by simp
  with snoc show ?case by simp
qed simp

definition to_be_bytes :: "'a::len word \<Rightarrow> u8 list" where
  "to_be_bytes w = be_of_nat (LENGTH('a) div 8) (unat w)"

definition from_be_bytes :: "u8 list \<Rightarrow> 'a::len word" where
  "from_be_bytes bs = word_of_nat (nat_of_be bs)"

text \<open>The contract of a fixed-width field of a packet: it has a width, and reading the bytes it
  wrote gives the value back, wherever in a buffer they stand.\<close>

locale be_codec =
  fixes enc :: "'a \<Rightarrow> u8 list" and dec :: "u8 list \<Rightarrow> 'a" and width :: nat
  assumes length_enc: "length (enc x) = width"
    and dec_enc: "dec (enc x) = x"
begin

lemma dec_at: "length pre = n \<Longrightarrow> dec (take width (drop n (pre @ enc x @ post))) = x"
  by (simp add: length_enc dec_enc)

lemma enc_inj: "enc x = enc y \<Longrightarrow> x = y"
  by (metis dec_enc)

end

lemma from_to_be_bytes:
  assumes "LENGTH('a) mod 8 = 0"
  shows "from_be_bytes (to_be_bytes (w :: 'a::len word)) = w"
proof -
  from assms have "LENGTH('a) = 8 * (LENGTH('a) div 8)" by auto
  then have "(2::nat) ^ LENGTH('a) = 256 ^ (LENGTH('a) div 8)"
    using power_mult [of "2::nat" 8 "LENGTH('a) div 8"] by simp
  then have "unat w < 256 ^ (LENGTH('a) div 8)" using unsigned_less [of w, where ?'a = nat] by simp
  then show ?thesis by (simp add: from_be_bytes_def to_be_bytes_def nat_of_be_of_nat)
qed

lemma length_to_be_bytes [simp]: "length (to_be_bytes (w :: 'a::len word)) = LENGTH('a) div 8"
  by (simp add: to_be_bytes_def)

interpretation be_u8: be_codec "to_be_bytes :: u8 \<Rightarrow> _" from_be_bytes 1
  by unfold_locales (simp_all add: from_to_be_bytes)

interpretation be_u16: be_codec "to_be_bytes :: u16 \<Rightarrow> _" from_be_bytes 2
  by unfold_locales (simp_all add: from_to_be_bytes)

interpretation be_u32: be_codec "to_be_bytes :: u32 \<Rightarrow> _" from_be_bytes 4
  by unfold_locales (simp_all add: from_to_be_bytes)

interpretation be_u64: be_codec "to_be_bytes :: u64 \<Rightarrow> _" from_be_bytes 8
  by unfold_locales (simp_all add: from_to_be_bytes)

interpretation be_uuid: be_codec "to_be_bytes :: uuid \<Rightarrow> _" from_be_bytes 16
  by unfold_locales (simp_all add: from_to_be_bytes)

end
