(* ===== verification/Errors.thy ===== *)
theory Errors
  imports Meowith_Prelude
begin

section \<open>Error types and their conversions\<close>

text \<open>
  The error enums of \<open>commons/src/error\<close>, \<open>data/src/error\<close> and
  \<open>node/src/locking/error.rs\<close>, and the \<open>From\<close> impls the \<open>?\<close> operator applies.
  A boxed source error (\<open>Box<dyn Error>\<close>) is kept as the library that raised it,
  \<open>error_cause\<close>; messages for the log are dropped. \<open>status_code\<close> is the HTTP status a
  client of the node sees.
\<close>

datatype error_cause =
  StdIoError | SledError | DecodeError | OpensslError | RustlsError | DataAccessError

datatype MeowithIoError =
    IoNotFound
  | IoInternal "error_cause option"
  | InvalidDataDir
  | InsufficientDiskSpace
  | Paused

definition io_from_std_io :: MeowithIoError where
  "io_from_std_io = IoInternal (Some StdIoError)"

definition io_from_sled :: MeowithIoError where
  "io_from_sled = IoInternal (Some SledError)"

definition io_from_decode :: MeowithIoError where
  "io_from_decode = IoInternal (Some DecodeError)"

datatype MeowithDataError =
    QueryError
  | InternalFailure
  | LockingError
  | DataNotFound
  | UnknownFailure

datatype ProtocolError =
    ProtoShuttingDown
  | ProtoConnectionError
  | AuthenticationFailed
  | WriteError
  | InvalidFormat
  | SizeMismatch
  | ReadError
  | ProtoUuid
  | Ambiguous
  | ProtoCustom string

datatype MDSFTPError =
    ConnectionError
  | SSLError "error_cause option"
  | NoSuchNode
  | AddressResolutionError
  | ConnectionAuthenticationError
  | NoSuchChunkId
  | ReserveError u64
  | ReservationError
  | BadChunkRange
  | MaxChannels
  | Interrupted
  | ShuttingDown
  | RemoteError
  | NoPacketHandler
  | NoPool
  | MdsftpInternal

datatype FileLockError = LockTaken

datatype NodeClientError =
    InternalError
  | BadRequest
  | BadResourcePath
  | NotFound
  | EntityExists
  | NoSuchSession
  | BadAuth
  | InsufficientStorage string
  | NodeProtocolError string
  | NotEmpty
  | RangeUnsatisfiable

fun status_code :: "NodeClientError \<Rightarrow> nat" where
  "status_code InternalError = 500"
| "status_code BadRequest = 400"
| "status_code BadResourcePath = 400"
| "status_code BadAuth = 401"
| "status_code (InsufficientStorage _) = 418"
| "status_code NotFound = 404"
| "status_code NoSuchSession = 404"
| "status_code EntityExists = 400"
| "status_code NotEmpty = 400"
| "status_code RangeUnsatisfiable = 416"
| "status_code (NodeProtocolError _) = 400"

fun node_from_data :: "MeowithDataError \<Rightarrow> NodeClientError" where
  "node_from_data DataNotFound = NotFound"
| "node_from_data LockingError = BadRequest"
| "node_from_data _ = InternalError"

fun node_from_io :: "MeowithIoError \<Rightarrow> NodeClientError" where
  "node_from_io IoNotFound = NotFound"
| "node_from_io _ = InternalError"

fun node_from_mdsftp :: "MDSFTPError \<Rightarrow> NodeClientError" where
  "node_from_mdsftp (ReserveError _) = InsufficientStorage ''Failed reservation''"
| "node_from_mdsftp _ = InternalError"

fun mdsftp_from_protocol :: "ProtocolError \<Rightarrow> MDSFTPError" where
  "mdsftp_from_protocol ProtoShuttingDown = ShuttingDown"
| "mdsftp_from_protocol ProtoConnectionError = ConnectionError"
| "mdsftp_from_protocol AuthenticationFailed = ConnectionAuthenticationError"
| "mdsftp_from_protocol WriteError = ConnectionError"
| "mdsftp_from_protocol InvalidFormat = ConnectionError"
| "mdsftp_from_protocol SizeMismatch = ConnectionError"
| "mdsftp_from_protocol ReadError = ConnectionError"
| "mdsftp_from_protocol ProtoUuid = ConnectionError"
| "mdsftp_from_protocol Ambiguous = ConnectionError"
| "mdsftp_from_protocol (ProtoCustom _) = ConnectionError"

lemma node_from_io_not_found [simp]: "node_from_io e = NotFound \<longleftrightarrow> e = IoNotFound"
  by (cases e) auto

lemma node_from_data_not_found [simp]: "node_from_data e = NotFound \<longleftrightarrow> e = DataNotFound"
  by (cases e) auto

end
