(* ===== verification/Permissions.thy ===== *)
theory Permissions
  imports Errors
begin

section \<open>Permissions and allowances\<close>

text \<open>
  \<open>data/src/model/permission_model.rs\<close>, \<open>commons/src/permission\<close>,
  the allowances of \<open>node/src/public/service/mod.rs\<close> and of the dashboard's
  \<open>service/mod.rs\<close>, the token check \<open>BucketAccessor::has_permission\<close> of the node's
  middleware, and the dashboard's \<open>has_app_permission\<close>.

  \<open>PermissionList<T>\<close> is generic over a permission enum that can be turned into a bit and
  enumerated; these two trait methods are the arguments \<open>to_bit\<close> and \<open>iter\<close> of the
  definitions. The locale \<open>permission_enum\<close> is the contract of the trait bounds; its
  lemmas say that the \<open>u64\<close> form of a list denotes exactly the set of its permissions, and it
  is interpreted for the two enums of the code.
\<close>

unbundle bit_operations_syntax

datatype UserPermission =
  PRead | PWrite | POverwrite | PListDirectory | PListBucket | PRename | PDelete | PFetchBucketInfo

fun user_permission_i8 :: "UserPermission \<Rightarrow> nat" where
  "user_permission_i8 PRead = 1"
| "user_permission_i8 PWrite = 2"
| "user_permission_i8 POverwrite = 3"
| "user_permission_i8 PListDirectory = 4"
| "user_permission_i8 PListBucket = 5"
| "user_permission_i8 PRename = 6"
| "user_permission_i8 PDelete = 7"
| "user_permission_i8 PFetchBucketInfo = 8"

definition user_permission_bit :: "UserPermission \<Rightarrow> u64" where
  "user_permission_bit p = push_bit (user_permission_i8 p - 1) 1"

definition user_permission_iter :: "UserPermission list" where
  "user_permission_iter = [PRead, PWrite, POverwrite, PListDirectory, PListBucket, PRename,
     PDelete, PFetchBucketInfo]"

datatype AppPermission =
  CreateBucket | DeleteBucket | ListAllTokens | DeleteAllTokens | ManageRoles

fun app_permission_i8 :: "AppPermission \<Rightarrow> nat" where
  "app_permission_i8 CreateBucket = 1"
| "app_permission_i8 DeleteBucket = 2"
| "app_permission_i8 ListAllTokens = 3"
| "app_permission_i8 DeleteAllTokens = 4"
| "app_permission_i8 ManageRoles = 5"

definition app_permission_bit :: "AppPermission \<Rightarrow> u64" where
  "app_permission_bit p = push_bit (app_permission_i8 p - 1) 1"

definition app_permission_iter :: "AppPermission list" where
  "app_permission_iter = [CreateBucket, DeleteBucket, ListAllTokens, DeleteAllTokens, ManageRoles]"

datatype GlobalRole = RoleUser | RoleAdmin

fun global_role_i32 :: "GlobalRole \<Rightarrow> int" where
  "global_role_i32 RoleUser = 1"
| "global_role_i32 RoleAdmin = 2"

subsection \<open>Permission lists\<close>

definition check_permission :: "u64 \<Rightarrow> u64 \<Rightarrow> bool" where
  "check_permission allowance requested \<longleftrightarrow> (allowance AND requested) = requested"

definition permissions_to_u64 :: "('p \<Rightarrow> u64) \<Rightarrow> 'p list \<Rightarrow> u64" where
  "permissions_to_u64 to_bit perms = foldl (\<lambda>val perm. val OR to_bit perm) 0 perms"

definition permissions_from_u64 :: "('p \<Rightarrow> u64) \<Rightarrow> 'p list \<Rightarrow> u64 \<Rightarrow> 'p list" where
  "permissions_from_u64 to_bit iter value = [perm \<leftarrow> iter. value AND to_bit perm \<noteq> 0]"

abbreviation user_allowance :: "UserPermission list \<Rightarrow> u64" where
  "user_allowance \<equiv> permissions_to_u64 user_permission_bit"

abbreviation app_allowance :: "AppPermission list \<Rightarrow> u64" where
  "app_allowance \<equiv> permissions_to_u64 app_permission_bit"

definition DELETE_ALLOWANCE :: u64 where "DELETE_ALLOWANCE = user_allowance [PDelete, PWrite]"
definition RENAME_ALLOWANCE :: u64 where "RENAME_ALLOWANCE = user_allowance [PRename]"
definition UPLOAD_ALLOWANCE :: u64 where "UPLOAD_ALLOWANCE = user_allowance [PWrite]"
definition UPLOAD_OVERWRITE_ALLOWANCE :: u64 where
  "UPLOAD_OVERWRITE_ALLOWANCE = user_allowance [PWrite, PDelete, POverwrite]"
definition DOWNLOAD_ALLOWANCE :: u64 where "DOWNLOAD_ALLOWANCE = user_allowance [PRead]"
definition LIST_BUCKET_ALLOWANCE :: u64 where "LIST_BUCKET_ALLOWANCE = user_allowance [PListBucket]"
definition LIST_DIR_ALLOWANCE :: u64 where "LIST_DIR_ALLOWANCE = user_allowance [PListDirectory]"
definition CREATE_DIRECTORY_ALLOWANCE :: u64 where
  "CREATE_DIRECTORY_ALLOWANCE = user_allowance [PWrite]"
definition RENAME_DIRECTORY_ALLOWANCE :: u64 where
  "RENAME_DIRECTORY_ALLOWANCE = user_allowance [PWrite, PRename]"
definition FETCH_BUCKET_INFO_ALLOWANCE :: u64 where
  "FETCH_BUCKET_INFO_ALLOWANCE = user_allowance [PFetchBucketInfo]"

subsection \<open>Token permits\<close>

record AppTokenPermit =
  permit_bucket_id :: uuid
  permit_allowance :: u64

record BucketAccessor =
  permits :: "AppTokenPermit list"
  accessor_app_id :: uuid

definition has_permission ::
    "BucketAccessor \<Rightarrow> uuid \<Rightarrow> uuid \<Rightarrow> u64 \<Rightarrow> (unit, NodeClientError) result" where
  "has_permission self app_id bucket requested =
    (if accessor_app_id self \<noteq> app_id then Err BadAuth
     else case find (\<lambda>p. permit_bucket_id p = bucket) (permits self) of
       None \<Rightarrow> Err BadAuth
     | Some permit \<Rightarrow>
         if check_permission (permit_allowance permit) requested then Ok () else Err BadAuth)"

subsection \<open>Dashboard members and roles\<close>

datatype PermCheckScope = ScopeApplication | ScopeBuckets uuid

definition CREATE_BUCKET_ALLOWANCE :: u64 where
  "CREATE_BUCKET_ALLOWANCE = app_allowance [CreateBucket]"
definition DELETE_BUCKET_ALLOWANCE :: u64 where
  "DELETE_BUCKET_ALLOWANCE = app_allowance [DeleteBucket]"
definition ALTER_BUCKET_ALLOWANCE :: u64 where
  "ALTER_BUCKET_ALLOWANCE = app_allowance [CreateBucket, DeleteBucket]"
definition LIST_ALL_TOKEN_ALLOWANCE :: u64 where
  "LIST_ALL_TOKEN_ALLOWANCE = app_allowance [ListAllTokens]"
definition DELETE_ALL_TOKEN_ALLOWANCE :: u64 where
  "DELETE_ALL_TOKEN_ALLOWANCE = app_allowance [DeleteAllTokens, ListAllTokens]"
definition MANAGE_ROLES_ALLOWANCE :: u64 where
  "MANAGE_ROLES_ALLOWANCE = app_allowance [ManageRoles]"
definition NO_ALLOWANCE :: u64 where "NO_ALLOWANCE = 0"

type_synonym scope_permit = "uuid \<times> i64"

definition permit_grants :: "PermCheckScope \<Rightarrow> u64 \<Rightarrow> scope_permit \<Rightarrow> bool" where
  "permit_grants scope requested permit =
    (case scope of
       ScopeApplication \<Rightarrow>
         fst permit = 0 \<and> check_permission (as_u64 (snd permit)) requested
     | ScopeBuckets bucket_id \<Rightarrow>
         fst permit \<noteq> 0 \<and> bucket_id = fst permit
         \<and> check_permission (as_u64 (snd permit)) requested)"

text \<open>The two database reads are arguments: the member row (or the error of the query) with its
  optional role names, and the role table of the application, whose rows carry an optional scope
  set. The order in which a scope set is iterated does not matter, as it is only searched.\<close>

definition has_app_permission ::
    "uuid \<Rightarrow> int \<Rightarrow> uuid \<Rightarrow> u64 \<Rightarrow> PermCheckScope
      \<Rightarrow> (string list option, MeowithDataError) result
      \<Rightarrow> ((string \<times> scope_permit list option) list, MeowithDataError) result
      \<Rightarrow> (unit, NodeClientError) result" where
  "has_app_permission user_id global_role owner_id requested scope member role_rows =
    (if owner_id = user_id \<or> global_role = global_role_i32 RoleAdmin then Ok ()
     else and_then (map_err node_from_data member) (\<lambda>member_roles.
       and_then (map_err node_from_data role_rows) (\<lambda>rows.
         let roles = map_of (rev (map (\<lambda>(n, s). (n, case s of None \<Rightarrow> [] | Some x \<Rightarrow> x)) rows));
             names = (case member_roles of None \<Rightarrow> [] | Some x \<Rightarrow> x)
         in if \<exists>role \<in> set names. case roles role of None \<Rightarrow> False
               | Some ps \<Rightarrow> (\<exists>permit \<in> set ps. permit_grants scope requested permit)
            then Ok () else Err BadAuth)))"

subsection \<open>Lemmas\<close>

lemma check_permission_iff_bits:
  "check_permission a r \<longleftrightarrow> (\<forall>n. bit r n \<longrightarrow> bit a n)"
  unfolding check_permission_def bit_eq_iff bit_and_iff by (metis bit_imp_possible_bit)

lemma check_permission_refl [simp]: "check_permission a a"
  by (simp add: check_permission_def)

lemma check_permission_zero [simp]: "check_permission a 0"
  by (simp add: check_permission_def)

lemma check_permission_or:
  "check_permission a (r OR s) \<longleftrightarrow> check_permission a r \<and> check_permission a s"
  by (auto simp: check_permission_iff_bits bit_or_iff)

lemma check_permission_trans:
  "check_permission a b \<Longrightarrow> check_permission b c \<Longrightarrow> check_permission a c"
  by (simp add: check_permission_iff_bits)

lemma permissions_to_u64_snoc [simp]:
  "permissions_to_u64 b (ps @ [p]) = (permissions_to_u64 b ps OR b p)"
  by (simp add: permissions_to_u64_def)

lemma permissions_to_u64_Nil [simp]: "permissions_to_u64 b [] = 0"
  by (simp add: permissions_to_u64_def)

lemma bit_permissions_to_u64:
  "bit (permissions_to_u64 b ps) n \<longleftrightarrow> (\<exists>p\<in>set ps. bit (b p) n)"
  by (induction ps rule: rev_induct) (auto simp: bit_or_iff)

text \<open>The contract of \<open>PermissionListEntryBounds\<close>: the enumeration is complete and without
  repetition, and different entries have different single bits.\<close>

locale permission_enum =
  fixes perm_bit :: "'p \<Rightarrow> u64" and pos :: "'p \<Rightarrow> nat" and iter :: "'p list"
  assumes bit_pos: "bit (perm_bit p) n \<longleftrightarrow> n = pos p"
    and pos_inj: "pos p = pos q \<Longrightarrow> p = q"
    and iter_complete: "p \<in> set iter"
begin

lemma bit_list: "bit (permissions_to_u64 perm_bit ps) (pos p) \<longleftrightarrow> p \<in> set ps"
  using pos_inj by (auto simp: bit_permissions_to_u64 bit_pos)

lemma and_bit_nonzero: "(v AND perm_bit p) \<noteq> 0 \<longleftrightarrow> bit v (pos p)"
proof -
  have "(v AND perm_bit p) \<noteq> 0 \<longleftrightarrow> (\<exists>n. bit (v AND perm_bit p) n)"
    by (metis bit_0_eq bit_eqI bot_apply bot_bool_def)
  then show ?thesis by (auto simp: bit_and_iff bit_pos)
qed

lemma from_to:
  "permissions_from_u64 perm_bit iter (permissions_to_u64 perm_bit ps) = [p \<leftarrow> iter. p \<in> set ps]"
  by (simp add: permissions_from_u64_def and_bit_nonzero bit_list)

lemma to_from:
  assumes "\<And>n. bit v n \<Longrightarrow> \<exists>p. n = pos p"
  shows "permissions_to_u64 perm_bit (permissions_from_u64 perm_bit iter v) = v"
proof (rule bit_eqI)
  fix n
  show "bit (permissions_to_u64 perm_bit (permissions_from_u64 perm_bit iter v)) n = bit v n"
    using assms [of n] iter_complete
    by (auto simp: bit_permissions_to_u64 permissions_from_u64_def and_bit_nonzero bit_pos)
qed

lemma check_iff_subset:
  "check_permission (permissions_to_u64 perm_bit ps) (permissions_to_u64 perm_bit rs)
    \<longleftrightarrow> set rs \<subseteq> set ps"
proof
  assume "check_permission (permissions_to_u64 perm_bit ps) (permissions_to_u64 perm_bit rs)"
  then show "set rs \<subseteq> set ps" by (auto simp: check_permission_iff_bits simp flip: bit_list)
next
  assume "set rs \<subseteq> set ps"
  then show "check_permission (permissions_to_u64 perm_bit ps) (permissions_to_u64 perm_bit rs)"
    by (auto simp: check_permission_iff_bits bit_permissions_to_u64)
qed

lemma check_iff_holds:
  "check_permission v (permissions_to_u64 perm_bit rs)
    \<longleftrightarrow> set rs \<subseteq> set (permissions_from_u64 perm_bit iter v)"
proof -
  have "check_permission v (permissions_to_u64 perm_bit rs) \<longleftrightarrow> (\<forall>p\<in>set rs. bit v (pos p))"
    by (auto simp: check_permission_iff_bits bit_permissions_to_u64 bit_pos)
  then show ?thesis
    using iter_complete by (auto simp: permissions_from_u64_def and_bit_nonzero)
qed

end

lemma user_permission_i8_range: "1 \<le> user_permission_i8 p \<and> user_permission_i8 p \<le> 8"
  by (cases p) auto

lemma app_permission_i8_range: "1 \<le> app_permission_i8 p \<and> app_permission_i8 p \<le> 5"
  by (cases p) auto

interpretation user_perm: permission_enum user_permission_bit "\<lambda>p. user_permission_i8 p - 1"
    user_permission_iter
proof
  fix p q :: UserPermission and n
  show "bit (user_permission_bit p) n = (n = user_permission_i8 p - 1)"
    using user_permission_i8_range [of p]
    by (auto simp: user_permission_bit_def bit_exp_iff)
  show "user_permission_i8 p - 1 = user_permission_i8 q - 1 \<Longrightarrow> p = q"
    by (cases p; cases q) auto
  show "p \<in> set user_permission_iter" by (cases p) (auto simp: user_permission_iter_def)
qed

interpretation app_perm: permission_enum app_permission_bit "\<lambda>p. app_permission_i8 p - 1"
    app_permission_iter
proof
  fix p q :: AppPermission and n
  show "bit (app_permission_bit p) n = (n = app_permission_i8 p - 1)"
    using app_permission_i8_range [of p]
    by (auto simp: app_permission_bit_def bit_exp_iff)
  show "app_permission_i8 p - 1 = app_permission_i8 q - 1 \<Longrightarrow> p = q"
    by (cases p; cases q) auto
  show "p \<in> set app_permission_iter" by (cases p) (auto simp: app_permission_iter_def)
qed

subsection \<open>What the checks grant\<close>

lemma find_Some_split:
  "find P xs = Some x \<longleftrightarrow> (\<exists>pre post. xs = pre @ x # post \<and> P x \<and> (\<forall>y\<in>set pre. \<not> P y))"
proof
  assume "find P xs = Some x"
  then obtain i where i: "i < length xs" "P (xs ! i)" "x = xs ! i" "\<forall>j<i. \<not> P (xs ! j)"
    by (auto simp: find_Some_iff)
  then have "xs = take i xs @ x # drop (Suc i) xs" by (simp add: id_take_nth_drop)
  moreover have "\<forall>y\<in>set (take i xs). \<not> P y" using i by (auto simp: in_set_conv_nth)
  ultimately show "\<exists>pre post. xs = pre @ x # post \<and> P x \<and> (\<forall>y\<in>set pre. \<not> P y)"
    using i by blast
next
  assume "\<exists>pre post. xs = pre @ x # post \<and> P x \<and> (\<forall>y\<in>set pre. \<not> P y)"
  then obtain pre post where xs: "xs = pre @ x # post" "P x" "\<forall>y\<in>set pre. \<not> P y" by blast
  from xs(3) have "find P (pre @ x # post) = Some x" using xs(2) by (induction pre) auto
  with xs(1) show "find P xs = Some x" by simp
qed

text \<open>C31. A token grants exactly the permissions it lists. A request for the permissions \<open>rs\<close> on a
  bucket succeeds if and only if the token was issued for that application and the first permit it
  holds for that bucket contains every one of them; every other request is answered
  \<open>BadAuth\<close>.\<close>

theorem token_access_exact:
  "has_permission a app_id bucket (user_allowance rs) =
     (if accessor_app_id a = app_id
         \<and> (\<exists>pre p post. permits a = pre @ p # post \<and> permit_bucket_id p = bucket
              \<and> bucket \<notin> permit_bucket_id ` set pre
              \<and> set rs \<subseteq> set (permissions_from_u64 user_permission_bit user_permission_iter
                                   (permit_allowance p)))
      then Ok () else Err BadAuth)"
proof -
  let ?holds = "\<lambda>p. set rs \<subseteq> set (permissions_from_u64 user_permission_bit user_permission_iter
                                   (permit_allowance p))"
  have first: "(\<exists>pre p post. permits a = pre @ p # post \<and> permit_bucket_id p = bucket
           \<and> bucket \<notin> permit_bucket_id ` set pre \<and> ?holds p)
    \<longleftrightarrow> (\<exists>p. find (\<lambda>p. permit_bucket_id p = bucket) (permits a) = Some p \<and> ?holds p)"
  proof -
    have "bucket \<notin> permit_bucket_id ` set pre \<longleftrightarrow> (\<forall>y\<in>set pre. permit_bucket_id y \<noteq> bucket)" for pre
      by auto
    then show ?thesis unfolding find_Some_split by blast
  qed
  show ?thesis
    unfolding first
    by (cases "find (\<lambda>p. permit_bucket_id p = bucket) (permits a)")
      (simp_all add: has_permission_def user_perm.check_iff_holds)
qed

text \<open>Storing a permission set as a number loses nothing: reading back the number of a list of
  token permissions (or of member permissions) gives the same set of permissions, each once and in
  the order of the enumeration.\<close>

theorem permission_set_round_trip:
  "set (permissions_from_u64 user_permission_bit user_permission_iter (user_allowance ps)) = set ps
   \<and> distinct (permissions_from_u64 user_permission_bit user_permission_iter (user_allowance ps))
   \<and> set (permissions_from_u64 app_permission_bit app_permission_iter (app_allowance qs)) = set qs
   \<and> distinct (permissions_from_u64 app_permission_bit app_permission_iter (app_allowance qs))"
proof -
  have "distinct user_permission_iter" "distinct app_permission_iter"
    by (simp_all add: user_permission_iter_def app_permission_iter_def)
  then show ?thesis
    using user_perm.iter_complete app_perm.iter_complete
    by (auto simp: user_perm.from_to app_perm.from_to)
qed

text \<open>\<open>NO_ALLOWANCE\<close> does not admit a plain member. A member of an application who is neither
  its owner nor a global administrator, and whose roles carry no permit for the scope asked for, is
  refused even when nothing is requested.\<close>

theorem no_allowance_denies_plain_member:
  assumes "owner_id \<noteq> user_id" "global_role \<noteq> global_role_i32 RoleAdmin"
    and "\<forall>name scopes permit. (name, Some scopes) \<in> set rows \<and> permit \<in> set scopes
           \<longrightarrow> (case scope of ScopeApplication \<Rightarrow> fst permit \<noteq> 0 | ScopeBuckets b \<Rightarrow> fst permit \<noteq> b)"
  shows "has_app_permission user_id global_role owner_id NO_ALLOWANCE scope (Ok member_roles) (Ok rows)
         = Err BadAuth"
proof -
  let ?entries = "rev (map (\<lambda>(n, s). (n, case s of None \<Rightarrow> [] | Some x \<Rightarrow> x)) rows)"
  have "\<not> permit_grants scope NO_ALLOWANCE permit"
    if "map_of ?entries role = Some ps" "permit \<in> set ps" for role ps permit
  proof -
    from map_of_SomeD [OF that(1)] that(2)
    obtain name scopes where "(name, Some scopes) \<in> set rows" "permit \<in> set scopes"
      by (auto split: option.splits)
    then have "case scope of ScopeApplication \<Rightarrow> fst permit \<noteq> 0 | ScopeBuckets b \<Rightarrow> fst permit \<noteq> b"
      using assms(3) by blast
    then show ?thesis by (auto simp: permit_grants_def split: PermCheckScope.splits)
  qed
  then show ?thesis
    using assms(1,2) by (auto simp: has_app_permission_def Let_def split: option.splits)
qed

theorem no_allowance_denies_plain_member_witness:
  "has_app_permission 1 (global_role_i32 RoleUser) 2 NO_ALLOWANCE ScopeApplication
     (Ok (Some [''viewer''])) (Ok [(''viewer'', Some [(7, 3)])]) = Err BadAuth"
  by (rule no_allowance_denies_plain_member) simp_all

end
