(* ===== verification/Fragment_Metadata_Store.thy ===== *)
theory Fragment_Metadata_Store
  imports Errors
begin

section \<open>The extended fragment metadata store\<close>

text \<open>
  \<open>node/src/io/fragment_metadata_store.rs\<close> and
  \<open>embedded_fragment_metadata_store.rs\<close>: which bucket and file a chunk belongs to.

  The trait object \<open>Box<dyn ExtFragmentMetaStore>\<close> is a record of its three methods over a
  store state. The embedded store is written over the two libraries it calls, the \<open>sled\<close> tree
  and the \<open>bincode\<close> codec, which are the fields of \<open>embedded_libs\<close>. The locale
  \<open>sled_tree\<close> states what the libraries document; \<open>ext_fragment_meta_store\<close> is the
  contract the ledger relies on, and the \<open>sublocale\<close> derives the second from the first for
  the definitions of the embedded store.
\<close>

record ExtFragmentMeta =
  ext_bucket_id :: "128 word"
  ext_file_id :: "128 word"

text \<open>\<open>Uuid::to_u128_le\<close> and \<open>from_u128_le\<close> read the sixteen bytes in reverse.\<close>

definition to_u128_le :: "uuid \<Rightarrow> 128 word" where
  "to_u128_le u = from_be_bytes (rev (to_be_bytes u))"

definition from_u128_le :: "128 word \<Rightarrow> uuid" where
  "from_u128_le v = from_be_bytes (rev (to_be_bytes v))"

definition meta_bucket_id :: "ExtFragmentMeta \<Rightarrow> uuid" where
  "meta_bucket_id m = from_u128_le (ext_bucket_id m)"

definition meta_file_id :: "ExtFragmentMeta \<Rightarrow> uuid" where
  "meta_file_id m = from_u128_le (ext_file_id m)"

record 'st ExtFragmentMetaStore =
  store_insert :: "'st \<Rightarrow> uuid \<Rightarrow> ExtFragmentMeta \<Rightarrow> (unit, MeowithIoError) result \<times> 'st"
  store_get :: "'st \<Rightarrow> uuid \<Rightarrow> (ExtFragmentMeta, MeowithIoError) result"
  store_remove :: "'st \<Rightarrow> uuid \<Rightarrow> (unit, MeowithIoError) result \<times> 'st"

record 'db embedded_libs =
  sled_insert :: "'db \<Rightarrow> u8 list \<Rightarrow> u8 list \<Rightarrow> (unit, unit) result \<times> 'db"
  sled_get :: "'db \<Rightarrow> u8 list \<Rightarrow> (u8 list option, unit) result"
  sled_remove :: "'db \<Rightarrow> u8 list \<Rightarrow> (unit, unit) result \<times> 'db"
  bincode_encode :: "ExtFragmentMeta \<Rightarrow> u8 list"
  bincode_decode :: "u8 list \<Rightarrow> (ExtFragmentMeta, unit) result"

definition SCHEMA_VERSION :: u8 where "SCHEMA_VERSION = 1"

text \<open>The schema check of \<open>EmbeddedFragmentMetaStore::new\<close>, on what the schema tree holds
  under \<open>version\<close>: the value it holds afterwards, or \<open>None\<close> for the panic (also that of
  indexing an empty value).\<close>

definition open_schema :: "u8 list option \<Rightarrow> u8 list option" where
  "open_schema version =
    (case version of
       None \<Rightarrow> Some [SCHEMA_VERSION]
     | Some ver \<Rightarrow>
         if ver = [] then None
         else if ver ! 0 \<noteq> SCHEMA_VERSION then None else Some ver)"

definition embedded_insert ::
    "'db embedded_libs \<Rightarrow> 'db \<Rightarrow> uuid \<Rightarrow> ExtFragmentMeta \<Rightarrow> (unit, MeowithIoError) result \<times> 'db" where
  "embedded_insert libs db chunk_id meta =
    (let encoded = bincode_encode libs meta;
         (r, db') = sled_insert libs db (to_be_bytes chunk_id) encoded
     in (map_err (\<lambda>_. io_from_sled) r, db'))"

definition embedded_get ::
    "'db embedded_libs \<Rightarrow> 'db \<Rightarrow> uuid \<Rightarrow> (ExtFragmentMeta, MeowithIoError) result" where
  "embedded_get libs db chunk_id =
    (case sled_get libs db (to_be_bytes chunk_id) of
       Err _ \<Rightarrow> Err io_from_sled
     | Ok None \<Rightarrow> Err IoNotFound
     | Ok (Some bytes) \<Rightarrow> map_err (\<lambda>_. io_from_decode) (bincode_decode libs bytes))"

definition embedded_remove ::
    "'db embedded_libs \<Rightarrow> 'db \<Rightarrow> uuid \<Rightarrow> (unit, MeowithIoError) result \<times> 'db" where
  "embedded_remove libs db chunk_id =
    (let (r, db') = sled_remove libs db (to_be_bytes chunk_id)
     in (map_err (\<lambda>_. io_from_sled) r, db'))"

definition embedded_store :: "'db embedded_libs \<Rightarrow> 'db ExtFragmentMetaStore" where
  "embedded_store libs = \<lparr>store_insert = embedded_insert libs, store_get = embedded_get libs,
     store_remove = embedded_remove libs\<rparr>"

lemma embedded_store_simps [simp]:
  "store_insert (embedded_store libs) = embedded_insert libs"
  "store_get (embedded_store libs) = embedded_get libs"
  "store_remove (embedded_store libs) = embedded_remove libs"
  by (simp_all add: embedded_store_def)

lemma from_to_u128_le [simp]: "from_u128_le (to_u128_le u) = u"
proof -
  have "to_be_bytes (from_be_bytes (rev (to_be_bytes u)) :: uuid) = rev (to_be_bytes u)"
    using nat_of_be_less [of "rev (to_be_bytes u)"] be_of_nat_of_be [of "rev (to_be_bytes u)"]
    by (simp add: to_be_bytes_def from_be_bytes_def unat_of_nat)
  then show ?thesis
    by (simp add: from_u128_le_def to_u128_le_def be_uuid.dec_enc)
qed

text \<open>The contract of the store, over the finite map it represents.\<close>

locale ext_fragment_meta_store =
  fixes ops :: "'st ExtFragmentMetaStore" and repr :: "'st \<Rightarrow> uuid \<rightharpoonup> ExtFragmentMeta"
  assumes insert_ok: "store_insert ops st k m = (Ok u, st') \<Longrightarrow> repr st' = (repr st)(k \<mapsto> m)"
    and insert_err: "store_insert ops st k m = (Err e, st') \<Longrightarrow> repr st' = repr st"
    and get_ok: "store_get ops st k = Ok m \<Longrightarrow> repr st k = Some m"
    and get_not_found: "store_get ops st k = Err IoNotFound \<Longrightarrow> repr st k = None"
    and remove_ok: "store_remove ops st k = (Ok u, st') \<Longrightarrow> repr st' = (repr st)(k := None)"
    and remove_err: "store_remove ops st k = (Err e, st') \<Longrightarrow> repr st' = repr st"
begin

lemma get_after_insert:
  "store_insert ops st k m = (Ok u, st') \<Longrightarrow> store_get ops st' k = Ok m' \<Longrightarrow> m' = m"
  using insert_ok get_ok by fastforce

lemma get_after_insert_found:
  "store_insert ops st k m = (Ok u, st') \<Longrightarrow> store_get ops st' k \<noteq> Err IoNotFound"
  using insert_ok get_not_found by fastforce

lemma get_after_remove:
  "store_remove ops st k = (Ok u, st') \<Longrightarrow> store_get ops st' k \<noteq> Ok m"
  using remove_ok get_ok by fastforce

lemma insert_other: "k' \<noteq> k \<Longrightarrow> repr (snd (store_insert ops st k m)) k' = repr st k'"
  using insert_ok insert_err by (cases "store_insert ops st k m"; cases "fst (store_insert ops st k m)") force+

lemma remove_other: "k' \<noteq> k \<Longrightarrow> repr (snd (store_remove ops st k)) k' = repr st k'"
  using remove_ok remove_err by (cases "store_remove ops st k"; cases "fst (store_remove ops st k)") force+

end

text \<open>What \<open>sled\<close> and \<open>bincode\<close> document: a tree is a map from keys to values, a failing
  call changes nothing, and decoding an encoded value gives it back.\<close>

locale sled_tree =
  fixes libs :: "'db embedded_libs" and tree :: "'db \<Rightarrow> u8 list \<rightharpoonup> u8 list"
  assumes sled_insert_ok: "sled_insert libs db k v = (Ok u, db') \<Longrightarrow> tree db' = (tree db)(k \<mapsto> v)"
    and sled_insert_err: "sled_insert libs db k v = (Err e, db') \<Longrightarrow> tree db' = tree db"
    and sled_get_ok: "sled_get libs db k = Ok found \<Longrightarrow> tree db k = found"
    and sled_remove_ok: "sled_remove libs db k = (Ok u, db') \<Longrightarrow> tree db' = (tree db)(k := None)"
    and sled_remove_err: "sled_remove libs db k = (Err e, db') \<Longrightarrow> tree db' = tree db"
    and bincode_round_trip: "bincode_decode libs (bincode_encode libs m) = Ok m"

definition embedded_repr ::
    "'db embedded_libs \<Rightarrow> ('db \<Rightarrow> u8 list \<rightharpoonup> u8 list) \<Rightarrow> 'db \<Rightarrow> uuid \<rightharpoonup> ExtFragmentMeta" where
  "embedded_repr libs tree db chunk_id =
    (case tree db (to_be_bytes chunk_id) of
       None \<Rightarrow> None
     | Some bytes \<Rightarrow> (case bincode_decode libs bytes of Ok m \<Rightarrow> Some m | Err _ \<Rightarrow> None))"

lemma to_be_bytes_uuid_eq [simp]: "to_be_bytes (u :: uuid) = to_be_bytes v \<longleftrightarrow> u = v"
  using be_uuid.enc_inj by auto

sublocale sled_tree \<subseteq> emb: ext_fragment_meta_store "embedded_store libs" "embedded_repr libs tree"
proof
  fix st k m u st' e
  show "store_insert (embedded_store libs) st k m = (Ok u, st') \<Longrightarrow>
      embedded_repr libs tree st' = (embedded_repr libs tree st)(k \<mapsto> m)"
    by (auto simp: embedded_insert_def embedded_repr_def bincode_round_trip fun_eq_iff
        split: prod.splits dest!: sled_insert_ok)
  show "store_insert (embedded_store libs) st k m = (Err e, st') \<Longrightarrow>
      embedded_repr libs tree st' = embedded_repr libs tree st"
    by (cases "fst (sled_insert libs st (to_be_bytes k) (bincode_encode libs m))")
      (auto simp: embedded_insert_def embedded_repr_def fun_eq_iff
        split: prod.splits dest!: sled_insert_err)
  show "store_get (embedded_store libs) st k = Ok m \<Longrightarrow> embedded_repr libs tree st k = Some m"
    by (auto simp: embedded_get_def embedded_repr_def split: result.splits option.splits
        dest!: sled_get_ok)
  show "store_get (embedded_store libs) st k = Err IoNotFound \<Longrightarrow>
      embedded_repr libs tree st k = None"
    by (auto simp: embedded_get_def embedded_repr_def io_from_sled_def io_from_decode_def
        map_err_eq_Err split: result.splits option.splits dest!: sled_get_ok)
  show "store_remove (embedded_store libs) st k = (Ok u, st') \<Longrightarrow>
      embedded_repr libs tree st' = (embedded_repr libs tree st)(k := None)"
    by (auto simp: embedded_remove_def embedded_repr_def fun_eq_iff
        split: prod.splits dest!: sled_remove_ok)
  show "store_remove (embedded_store libs) st k = (Err e, st') \<Longrightarrow>
      embedded_repr libs tree st' = embedded_repr libs tree st"
    by (cases "fst (sled_remove libs st (to_be_bytes k))")
      (auto simp: embedded_remove_def embedded_repr_def fun_eq_iff
        split: prod.splits dest!: sled_remove_err)
qed

text \<open>The libraries as an in-memory tree and a fixed-width codec, the instance that evaluates.\<close>

definition memory_libs :: "(u8 list \<rightharpoonup> u8 list) embedded_libs" where
  "memory_libs = \<lparr>
     sled_insert = (\<lambda>db k v. (Ok (), db(k \<mapsto> v))),
     sled_get = (\<lambda>db k. Ok (db k)),
     sled_remove = (\<lambda>db k. (Ok (), db(k := None))),
     bincode_encode = (\<lambda>m. to_be_bytes (ext_bucket_id m) @ to_be_bytes (ext_file_id m)),
     bincode_decode = (\<lambda>bs. if length bs = 32
       then Ok \<lparr>ext_bucket_id = from_be_bytes (take 16 bs), ext_file_id = from_be_bytes (drop 16 bs)\<rparr>
       else Err ())\<rparr>"

interpretation mem: sled_tree memory_libs id
  by unfold_locales (auto simp: memory_libs_def be_uuid.dec_enc)

end
