(* ===== verification/Fragment_Ledger.thy ===== *)
theory Fragment_Ledger
  imports Fragment_Metadata_Store
begin

section \<open>The fragment ledger\<close>

text \<open>
  \<open>node/src/io/fragment_ledger.rs\<close>: the bookkeeping of the chunks a node stores.

  \<open>InternalLedger\<close> is the struct of that name with the data directory it manages as a field:
  a map from the files of the directory to their bytes. \<open>get_path\<close> names the two files a
  chunk can have, \<open><id>\<close> and \<open><id>.uncommited\<close>; a stray file with that extension and
  any other file are the two remaining constructors of \<open>chunk_path\<close>.

  Every operation of the ledger is one definition, from the state to its result and the state it
  leaves, error paths included; each runs under the write locks its source takes, so it is one
  step. What an operation gets from outside is its first argument, \<open>ledger_env\<close>: the metadata
  store, the paths the operating system refuses to touch at that call, the physical size of a
  file (crate \<open>filesize\<close>) and the clock. A fresh \<open>Uuid::new_v4\<close> and the iteration order
  of a \<open>HashMap\<close> are arguments too. Streams write through the path they were opened on.

  \<open>ledger_inv\<close> says that the three counters are the sums they stand for and that no chunk is
  both reserved and stored. It is kept by every operation with one exception, a sweep of
  \<open>clean_broken_chunks\<close> that returns early (see \<open>clean_broken_leak\<close>): \<open>sweep_lost\<close> is the
  reservation whose space such a sweep loses, and \<open>ledger_accounts\<close> the invariant up to what has
  been lost. \<open>ledger_step\<close> is the transition relation of the component.
\<close>

subsection \<open>State\<close>

record Reservation =
  file_space :: u64
  completed :: u64
  durable :: bool
  last_update :: instant

record FragmentMeta =
  content_size :: u64
  physical_size :: u64

record CommitInfo =
  access :: instant

datatype chunk_path =
  ChunkFile uuid | UncommitedFile uuid | StrayUncommited string | ForeignFile string

record 'st InternalLedger =
  chunk_set :: "uuid \<rightharpoonup> FragmentMeta"
  reservation_map :: "uuid \<rightharpoonup> Reservation"
  uncommited_map :: "uuid \<rightharpoonup> CommitInfo"
  ext_metadata_store :: "'st option"
  housekeeper_running :: bool
  max_physical_size :: u64
  disk_physical_size :: u64
  disk_content_size :: u64
  disk_reserved_size :: u64
  paused :: bool
  data_dir :: "chunk_path \<rightharpoonup> u8 list"

record 'st ledger_env =
  ext_ops :: "'st ExtFragmentMetaStore"
  fs_refuses :: "chunk_path \<Rightarrow> bool"
  size_on_disk :: "u8 list \<Rightarrow> u64"
  now :: instant

type_synonym 'a io_result = "('a, MeowithIoError) result"

definition DURABLE_UPLOAD_SESSION_VALIDITY_TIME_SECS :: nat where
  "DURABLE_UPLOAD_SESSION_VALIDITY_TIME_SECS = 3600"

definition from_secs :: "nat \<Rightarrow> nat" where
  "from_secs n = n * 1000000000"

definition get_path :: "uuid \<Rightarrow> bool \<Rightarrow> chunk_path" where
  "get_path chunk_id uncommited =
    (if uncommited then UncommitedFile chunk_id else ChunkFile chunk_id)"

definition ledger_new :: "u64 \<Rightarrow> 'st \<Rightarrow> (chunk_path \<rightharpoonup> u8 list) \<Rightarrow> 'st InternalLedger" where
  "ledger_new max_space store dir = \<lparr>
     chunk_set = Map.empty, reservation_map = Map.empty, uncommited_map = Map.empty,
     ext_metadata_store = Some store, housekeeper_running = True,
     max_physical_size = max_space, disk_physical_size = 0, disk_content_size = 0,
     disk_reserved_size = 0, paused = False, data_dir = dir\<rparr>"

subsection \<open>File system and metadata store calls\<close>

definition fs_remove ::
    "'st ledger_env \<Rightarrow> chunk_path \<Rightarrow> 'st InternalLedger \<Rightarrow> (unit, error_cause) result \<times> 'st InternalLedger" where
  "fs_remove env path s =
    (if fs_refuses env path \<or> data_dir s path = None then (Err StdIoError, s)
     else (Ok (), s\<lparr>data_dir := (data_dir s)(path := None)\<rparr>))"

definition fs_rename ::
    "'st ledger_env \<Rightarrow> chunk_path \<Rightarrow> chunk_path \<Rightarrow> 'st InternalLedger \<Rightarrow> (unit, error_cause) result \<times> 'st InternalLedger" where
  "fs_rename env src dst s =
    (if fs_refuses env src \<or> fs_refuses env dst then (Err StdIoError, s)
     else case data_dir s src of
       None \<Rightarrow> (Err StdIoError, s)
     | Some bytes \<Rightarrow> (Ok (), s\<lparr>data_dir := (data_dir s)(src := None, dst \<mapsto> bytes)\<rparr>))"

definition fs_read :: "'st ledger_env \<Rightarrow> chunk_path \<Rightarrow> 'st InternalLedger \<Rightarrow> (u8 list, error_cause) result" where
  "fs_read env path s =
    (if fs_refuses env path then Err StdIoError
     else case data_dir s path of None \<Rightarrow> Err StdIoError | Some bytes \<Rightarrow> Ok bytes)"

definition ext_remove :: "'st ledger_env \<Rightarrow> uuid \<Rightarrow> 'st InternalLedger \<Rightarrow> 'st InternalLedger" where
  "ext_remove env chunk_id s =
    s\<lparr>ext_metadata_store :=
       map_option (\<lambda>st. snd (store_remove (ext_ops env) st chunk_id)) (ext_metadata_store s)\<rparr>"

subsection \<open>Pausing, streams and queries\<close>

definition ledger_pause :: "'st InternalLedger \<Rightarrow> 'st InternalLedger" where
  "ledger_pause s = s\<lparr>paused := True\<rparr>"

definition ledger_resume :: "'st InternalLedger \<Rightarrow> 'st InternalLedger" where
  "ledger_resume s = s\<lparr>paused := False\<rparr>"

definition ledger_shutdown :: "'st InternalLedger \<Rightarrow> 'st InternalLedger" where
  "ledger_shutdown s = s\<lparr>paused := True, housekeeper_running := False, ext_metadata_store := None\<rparr>"

definition get_available_space :: "'st InternalLedger \<Rightarrow> u64" where
  "get_available_space s =
    (let reserved = disk_reserved_size s;
         used = disk_physical_size s + reserved;
         current = max_physical_size s
     in saturating_sub current used)"

record UpdateStorageNodeProperties =
  props_max_space :: u64
  props_used_space :: u64
  props_reserved :: u64
  props_commited :: u64
  props_uncommitted :: u64
  props_paused :: bool

definition get_storage_info :: "'st InternalLedger \<Rightarrow> UpdateStorageNodeProperties" where
  "get_storage_info s = \<lparr>
     props_max_space = max_physical_size s,
     props_used_space = max_physical_size s - get_available_space s,
     props_reserved = of_nat (card (dom (reservation_map s))),
     props_commited = of_nat (card (dom (chunk_set s))),
     props_uncommitted = of_nat (card (dom (uncommited_map s))),
     props_paused = paused s\<rparr>"

definition stat_chunk :: "'st ledger_env \<Rightarrow> uuid \<Rightarrow> 'st InternalLedger \<Rightarrow> u64 io_result" where
  "stat_chunk env chunk_id s =
    (let path = get_path chunk_id (uncommited_map s chunk_id \<noteq> None)
     in case fs_read env path s of
          Err _ \<Rightarrow> Err io_from_std_io
        | Ok bytes \<Rightarrow> Ok (of_nat (length bytes)))"

definition fragment_exists :: "uuid \<Rightarrow> 'st InternalLedger \<Rightarrow> bool" where
  "fragment_exists chunk_id s \<longleftrightarrow> chunk_set s chunk_id \<noteq> None"

definition extended_fragment_meta ::
    "'st ledger_env \<Rightarrow> uuid \<Rightarrow> 'st InternalLedger \<Rightarrow> ExtFragmentMeta option" where
  "extended_fragment_meta env chunk_id s =
    (case ext_metadata_store s of
       None \<Rightarrow> None
     | Some st \<Rightarrow> (case store_get (ext_ops env) st chunk_id of Ok m \<Rightarrow> Some m | Err _ \<Rightarrow> None))"

definition existing_fragment_meta :: "uuid \<Rightarrow> 'st InternalLedger \<Rightarrow> FragmentMeta option" where
  "existing_fragment_meta chunk_id s = chunk_set s chunk_id"

definition existing_or_reserved_fragment_meta ::
    "uuid \<Rightarrow> 'st InternalLedger \<Rightarrow> FragmentMeta option" where
  "existing_or_reserved_fragment_meta chunk_id s =
    (case reservation_map s chunk_id of
       Some reserved \<Rightarrow> Some \<lparr>content_size = completed reserved, physical_size = 0\<rparr>
     | None \<Rightarrow> existing_fragment_meta chunk_id s)"

definition fragment_read_stream :: "'st ledger_env \<Rightarrow> uuid \<Rightarrow> 'st InternalLedger \<Rightarrow> u8 list io_result" where
  "fragment_read_stream env chunk_id s =
    map_err (\<lambda>_. io_from_std_io) (fs_read env (get_path chunk_id False) s)"

definition fragment_write_stream ::
    "'st ledger_env \<Rightarrow> uuid \<Rightarrow> 'st InternalLedger \<Rightarrow> chunk_path io_result \<times> 'st InternalLedger" where
  "fragment_write_stream env chunk_id s =
    (let path = get_path chunk_id True
     in if fs_refuses env path then (Err io_from_std_io, s)
        else (Ok path, s\<lparr>data_dir := (data_dir s)(path \<mapsto> [])\<rparr>))"

definition fragment_append_stream ::
    "'st ledger_env \<Rightarrow> uuid \<Rightarrow> 'st InternalLedger \<Rightarrow> chunk_path io_result \<times> 'st InternalLedger" where
  "fragment_append_stream env chunk_id s =
    (let path = get_path chunk_id True
     in if fs_refuses env path then (Err io_from_std_io, s)
        else (Ok path, s\<lparr>data_dir := (data_dir s)(path \<mapsto>
               (case data_dir s path of None \<Rightarrow> [] | Some bytes \<Rightarrow> bytes))\<rparr>))"

definition stream_write :: "chunk_path \<Rightarrow> u8 list \<Rightarrow> 'st InternalLedger \<Rightarrow> 'st InternalLedger" where
  "stream_write path chunk s =
    (case data_dir s path of
       None \<Rightarrow> s
     | Some bytes \<Rightarrow> s\<lparr>data_dir := (data_dir s)(path \<mapsto> bytes @ chunk)\<rparr>)"

subsection \<open>Reservations\<close>

definition cancel_reservation ::
    "'st ledger_env \<Rightarrow> uuid \<Rightarrow> 'st InternalLedger \<Rightarrow> unit io_result \<times> 'st InternalLedger" where
  "cancel_reservation env chunk_id s =
    (case reservation_map s chunk_id of
       None \<Rightarrow> (Ok (), s)
     | Some reservation \<Rightarrow>
         (let path = get_path chunk_id (uncommited_map s chunk_id \<noteq> None);
              s1 = s\<lparr>reservation_map := (reservation_map s)(chunk_id := None),
                     uncommited_map := (uncommited_map s)(chunk_id := None)\<rparr>;
              s2 = ext_remove env chunk_id s1;
              s3 = s2\<lparr>disk_reserved_size := disk_reserved_size s2 - file_space reservation\<rparr>;
              (r, s4) = fs_remove env path s3
          in (map_err (\<lambda>_. IoInternal None) r, s4)))"

definition try_reserve ::
    "'st ledger_env \<Rightarrow> uuid \<Rightarrow> u64 \<Rightarrow> uuid \<Rightarrow> uuid \<Rightarrow> bool \<Rightarrow> 'st InternalLedger
      \<Rightarrow> uuid io_result \<times> 'st InternalLedger" where
  "try_reserve env fresh_id req_size associated_bucket_id associated_file_id is_durable s =
    (if paused s then (Err Paused, s)
     else if get_available_space s < req_size then (Err InsufficientDiskSpace, s)
     else case ext_metadata_store s of
       None \<Rightarrow> (Err (IoInternal None), s)
     | Some st \<Rightarrow>
         (case store_insert (ext_ops env) st fresh_id
                 \<lparr>ext_bucket_id = to_u128_le associated_bucket_id,
                  ext_file_id = to_u128_le associated_file_id\<rparr> of
            (Err e, st') \<Rightarrow> (Err e, s\<lparr>ext_metadata_store := Some st'\<rparr>)
          | (Ok _, st') \<Rightarrow>
              (Ok fresh_id,
               s\<lparr>ext_metadata_store := Some st',
                 reservation_map := (reservation_map s)(fresh_id \<mapsto>
                   \<lparr>file_space = req_size, completed = 0, durable = is_durable, last_update = now env\<rparr>),
                 disk_reserved_size := disk_reserved_size s + req_size,
                 uncommited_map := (uncommited_map s)(fresh_id \<mapsto> \<lparr>access = now env\<rparr>)\<rparr>)))"

definition refresh_reservation ::
    "'st ledger_env \<Rightarrow> uuid \<Rightarrow> 'st InternalLedger \<Rightarrow> Reservation io_result \<times> 'st InternalLedger" where
  "refresh_reservation env chunk_id s =
    (case reservation_map s chunk_id of
       None \<Rightarrow> (Err IoNotFound, s)
     | Some reservation \<Rightarrow>
         (let reservation' = reservation\<lparr>last_update := now env\<rparr>
          in (Ok reservation',
              s\<lparr>reservation_map := (reservation_map s)(chunk_id \<mapsto> reservation')\<rparr>)))"

definition resume_reservation ::
    "'st ledger_env \<Rightarrow> uuid \<Rightarrow> 'st InternalLedger \<Rightarrow> Reservation io_result \<times> 'st InternalLedger" where
  "resume_reservation env chunk_id s = refresh_reservation env chunk_id s"

definition pause_reservation ::
    "'st ledger_env \<Rightarrow> uuid \<Rightarrow> 'st InternalLedger \<Rightarrow> unit io_result \<times> 'st InternalLedger" where
  "pause_reservation env chunk_id s =
    (case refresh_reservation env chunk_id s of
       (Ok _, s') \<Rightarrow> (Ok (), s')
     | (Err e, s') \<Rightarrow> (Err e, s'))"

definition release_reservation ::
    "'st ledger_env \<Rightarrow> uuid \<Rightarrow> u64 \<Rightarrow> 'st InternalLedger \<Rightarrow> unit io_result \<times> 'st InternalLedger" where
  "release_reservation env chunk_id size_actual s =
    (case reservation_map s chunk_id of
       None \<Rightarrow> (Err IoNotFound, s)
     | Some reservation \<Rightarrow>
         (let transfer_completed = (size_actual = file_space reservation);
              expected = file_space reservation;
              path = get_path chunk_id (uncommited_map s chunk_id \<noteq> None)
          in if transfer_completed then
               (case fs_read env path s of
                  Err _ \<Rightarrow> (Err (IoInternal None), s)
                | Ok bytes \<Rightarrow>
                    (Ok (),
                     s\<lparr>disk_physical_size := disk_physical_size s + size_on_disk env bytes,
                       disk_content_size := disk_content_size s + size_actual,
                       reservation_map := (reservation_map s)(chunk_id := None),
                       disk_reserved_size := disk_reserved_size s - size_actual,
                       chunk_set := (chunk_set s)(chunk_id \<mapsto>
                         \<lparr>content_size = size_actual, physical_size = size_on_disk env bytes\<rparr>)\<rparr>))
             else if durable reservation then
               (Ok (), s\<lparr>reservation_map := (reservation_map s)(chunk_id \<mapsto>
                          reservation\<lparr>completed := size_actual, last_update := now env\<rparr>)\<rparr>)
             else
               (let s1 = s\<lparr>reservation_map := (reservation_map s)(chunk_id := None),
                           uncommited_map := (uncommited_map s)(chunk_id := None),
                           disk_reserved_size := disk_reserved_size s - expected\<rparr>;
                    (r, s2) = fs_remove env path s1
                in (map_err (\<lambda>_. IoInternal None) r, s2))))"

subsection \<open>Committing and deleting chunks\<close>

definition commit_chunk ::
    "'st ledger_env \<Rightarrow> uuid \<Rightarrow> 'st InternalLedger \<Rightarrow> unit io_result \<times> 'st InternalLedger" where
  "commit_chunk env chunk_id s =
    (case uncommited_map s chunk_id of
       None \<Rightarrow> (Ok (), s)
     | Some _ \<Rightarrow>
         (let s1 = s\<lparr>uncommited_map := (uncommited_map s)(chunk_id := None)\<rparr>;
              (r, s2) = fs_rename env (get_path chunk_id True) (get_path chunk_id False) s1
          in (map_err (\<lambda>_. IoInternal None) r, s2)))"

definition commit_alive ::
    "'st ledger_env \<Rightarrow> uuid \<Rightarrow> 'st InternalLedger \<Rightarrow> unit io_result \<times> 'st InternalLedger" where
  "commit_alive env chunk_id s =
    (let (reservation, s1) = refresh_reservation env chunk_id s
     in case uncommited_map s1 chunk_id of
          Some _ \<Rightarrow>
            (Ok (), s1\<lparr>uncommited_map := (uncommited_map s1)(chunk_id \<mapsto> \<lparr>access = now env\<rparr>)\<rparr>)
        | None \<Rightarrow> (if is_ok reservation then Ok () else Err IoNotFound, s1))"

definition delete_chunk ::
    "'st ledger_env \<Rightarrow> uuid \<Rightarrow> 'st InternalLedger \<Rightarrow> unit io_result \<times> 'st InternalLedger" where
  "delete_chunk env chunk_id s =
    (let s1 = ext_remove env chunk_id s;
         path = get_path chunk_id (uncommited_map s1 chunk_id \<noteq> None);
         s2 = s1\<lparr>uncommited_map := (uncommited_map s1)(chunk_id := None)\<rparr>
     in case fs_remove env path s2 of
          (Err _, s3) \<Rightarrow> (Err IoNotFound, s3)
        | (Ok _, s3) \<Rightarrow>
            (Ok (),
             case chunk_set s3 chunk_id of
               Some chunk \<Rightarrow>
                 s3\<lparr>chunk_set := (chunk_set s3)(chunk_id := None),
                    disk_content_size := disk_content_size s3 - content_size chunk,
                    disk_physical_size := disk_physical_size s3 - physical_size chunk\<rparr>
             | None \<Rightarrow>
                 (case reservation_map s3 chunk_id of
                    Some broken \<Rightarrow>
                      s3\<lparr>reservation_map := (reservation_map s3)(chunk_id := None),
                         disk_reserved_size := disk_reserved_size s3 - file_space broken\<rparr>
                  | None \<Rightarrow> s3)))"

subsection \<open>Housekeeping\<close>

definition validate_max_space :: "u64 io_result \<Rightarrow> 'st InternalLedger \<Rightarrow> bool io_result" where
  "validate_max_space usage_free s =
    (case usage_free of
       Err e \<Rightarrow> Err e
     | Ok disk_free \<Rightarrow>
         (let app_free = max_physical_size s - disk_physical_size s
          in Ok (disk_free < app_free)))"

fun sweep_broken ::
    "'st ledger_env \<Rightarrow> uuid list \<Rightarrow> 'st InternalLedger \<Rightarrow> unit io_result \<times> 'st InternalLedger" where
  "sweep_broken env [] s = (Ok (), s)"
| "sweep_broken env (sweep # mark) s =
    (let path = get_path sweep (uncommited_map s sweep \<noteq> None);
         reservation = the (reservation_map s sweep);
         s1 = s\<lparr>uncommited_map := (uncommited_map s)(sweep := None),
                reservation_map := (reservation_map s)(sweep := None)\<rparr>;
         s2 = ext_remove env sweep s1
     in case fs_remove env path s2 of
          (Err _, s3) \<Rightarrow> (Err (IoInternal None), s3)
        | (Ok _, s3) \<Rightarrow>
            sweep_broken env mark
              (s3\<lparr>disk_reserved_size := disk_reserved_size s3 - file_space reservation\<rparr>))"

definition expired :: "instant \<Rightarrow> instant \<Rightarrow> bool" where
  "expired at since \<longleftrightarrow> at - since > from_secs DURABLE_UPLOAD_SESSION_VALIDITY_TIME_SECS"

definition broken_mark :: "'st ledger_env \<Rightarrow> uuid list \<Rightarrow> 'st InternalLedger \<Rightarrow> uuid list" where
  "broken_mark env order s =
    [i \<leftarrow> order. case reservation_map s i of
       None \<Rightarrow> False | Some r \<Rightarrow> expired (now env) (last_update r)]"

definition clean_broken_chunks ::
    "'st ledger_env \<Rightarrow> uuid list \<Rightarrow> 'st InternalLedger \<Rightarrow> unit io_result \<times> 'st InternalLedger" where
  "clean_broken_chunks env order s = sweep_broken env (broken_mark env order s) s"

fun delete_chunks ::
    "'st ledger_env \<Rightarrow> uuid list \<Rightarrow> 'st InternalLedger \<Rightarrow> unit io_result \<times> 'st InternalLedger" where
  "delete_chunks env [] s = (Ok (), s)"
| "delete_chunks env (sweep # mark) s =
    (case delete_chunk env sweep s of
       (Err e, s') \<Rightarrow> (Err e, s')
     | (Ok _, s') \<Rightarrow> delete_chunks env mark s')"

definition uncommitted_mark :: "'st ledger_env \<Rightarrow> uuid list \<Rightarrow> 'st InternalLedger \<Rightarrow> uuid list" where
  "uncommitted_mark env order s =
    [i \<leftarrow> order. case uncommited_map s i of
       None \<Rightarrow> False | Some info \<Rightarrow> expired (now env) (access info)]"

definition clean_uncommitted ::
    "'st ledger_env \<Rightarrow> uuid list \<Rightarrow> 'st InternalLedger \<Rightarrow> unit io_result \<times> 'st InternalLedger" where
  "clean_uncommitted env order s = delete_chunks env (uncommitted_mark env order s) s"

text \<open>One turn of the housekeeper loop; it drops the results of its calls, the first of which
  (\<open>validate_max_space\<close>) only logs, so a sweep that fails does not keep the next from running;
  the two orders are those in which the two maps are iterated.\<close>

definition housekeeper_tick ::
    "'st ledger_env \<Rightarrow> uuid list \<Rightarrow> uuid list \<Rightarrow> 'st InternalLedger \<Rightarrow> 'st InternalLedger" where
  "housekeeper_tick env broken_order uncommitted_order s =
    (let s1 = snd (clean_broken_chunks env broken_order s)
     in snd (clean_uncommitted env uncommitted_order s1))"

subsection \<open>The accounting invariant\<close>

text \<open>The counters stand for the sums, up to the space \<open>lost\<close> that the reserved counter still
  holds of reservations that are gone; \<open>ledger_inv\<close> is the case that nothing is lost.\<close>

definition ledger_accounts :: "u64 \<Rightarrow> 'st InternalLedger \<Rightarrow> bool" where
  "ledger_accounts lost s \<longleftrightarrow>
     finite (dom (chunk_set s)) \<and> finite (dom (reservation_map s))
   \<and> dom (reservation_map s) \<inter> dom (chunk_set s) = {}
   \<and> disk_reserved_size s = msum file_space (reservation_map s) + lost
   \<and> disk_content_size s = msum content_size (chunk_set s)
   \<and> disk_physical_size s = msum physical_size (chunk_set s)"

definition ledger_inv :: "'st InternalLedger \<Rightarrow> bool" where
  "ledger_inv s \<longleftrightarrow>
     finite (dom (chunk_set s)) \<and> finite (dom (reservation_map s))
   \<and> dom (reservation_map s) \<inter> dom (chunk_set s) = {}
   \<and> disk_reserved_size s = msum file_space (reservation_map s)
   \<and> disk_content_size s = msum content_size (chunk_set s)
   \<and> disk_physical_size s = msum physical_size (chunk_set s)"

lemma ledger_inv_accounts: "ledger_inv s \<longleftrightarrow> ledger_accounts 0 s"
  by (simp add: ledger_inv_def ledger_accounts_def)

lemma ledger_inv_data_dir [simp]: "ledger_inv (s\<lparr>data_dir := d\<rparr>) = ledger_inv s"
  by (simp add: ledger_inv_def)

lemma ledger_inv_new [simp]: "ledger_inv (ledger_new m st d)"
  by (simp add: ledger_inv_def ledger_new_def)

lemma accounts_frame [simp]:
  "ledger_accounts lost (s\<lparr>data_dir := d\<rparr>) = ledger_accounts lost s"
  "ledger_accounts lost (s\<lparr>ext_metadata_store := x\<rparr>) = ledger_accounts lost s"
  "ledger_accounts lost (s\<lparr>uncommited_map := u\<rparr>) = ledger_accounts lost s"
  "ledger_accounts lost (s\<lparr>paused := b\<rparr>) = ledger_accounts lost s"
  "ledger_accounts lost (s\<lparr>housekeeper_running := b\<rparr>) = ledger_accounts lost s"
  "ledger_accounts lost (ext_remove env i s) = ledger_accounts lost s"
  by (simp_all add: ledger_accounts_def ext_remove_def)

lemma accounts_new [simp]: "ledger_accounts 0 (ledger_new m st d)"
  by (simp add: ledger_accounts_def ledger_new_def)

lemma fs_remove_cases:
  assumes "fs_remove env path s = (r, s')"
  obtains (ok) "r = Ok ()" "data_dir s path \<noteq> None" "\<not> fs_refuses env path"
      "s' = s\<lparr>data_dir := (data_dir s)(path := None)\<rparr>"
    | (err) "r = Err StdIoError" "fs_refuses env path \<or> data_dir s path = None" "s' = s"
proof (cases "fs_refuses env path \<or> data_dir s path = None")
  case True
  with assms show ?thesis by (intro err) (simp_all add: fs_remove_def)
next
  case False
  with assms show ?thesis by (intro ok) (simp_all add: fs_remove_def)
qed

lemma accounts_fs_remove: "ledger_accounts lost (snd (fs_remove env path s)) = ledger_accounts lost s"
  by (simp add: fs_remove_def)

lemma accounts_fs_rename: "ledger_accounts lost (snd (fs_rename env p q s)) = ledger_accounts lost s"
  by (cases "data_dir s p") (simp_all add: fs_rename_def)

text \<open>The two ways a reservation leaves the map, and the one a chunk leaves the set.\<close>

definition drop_reservation :: "uuid \<Rightarrow> 'st InternalLedger \<Rightarrow> 'st InternalLedger" where
  "drop_reservation i s =
    s\<lparr>reservation_map := (reservation_map s)(i := None),
      disk_reserved_size := disk_reserved_size s - file_space (the (reservation_map s i))\<rparr>"

lemma accounts_drop_reservation:
  "ledger_accounts lost s \<Longrightarrow> reservation_map s i = Some r \<Longrightarrow> ledger_accounts lost (drop_reservation i s)"
  by (auto simp: ledger_accounts_def drop_reservation_def msum_delete)

lemma accounts_store_chunk:
  assumes "ledger_accounts lost s" "reservation_map s i = Some r"
  shows "ledger_accounts lost (s\<lparr>disk_physical_size := disk_physical_size s + p,
      disk_content_size := disk_content_size s + file_space r,
      reservation_map := (reservation_map s)(i := None),
      disk_reserved_size := disk_reserved_size s - file_space r,
      chunk_set := (chunk_set s)(i \<mapsto> \<lparr>content_size = file_space r, physical_size = p\<rparr>)\<rparr>)"
proof -
  from assms have "chunk_set s i = None" by (auto simp: ledger_accounts_def)
  with assms show ?thesis
    by (auto simp: ledger_accounts_def msum_delete msum_insert)
qed

lemma accounts_drop_chunk:
  assumes "ledger_accounts lost s" "chunk_set s i = Some c"
  shows "ledger_accounts lost (s\<lparr>chunk_set := (chunk_set s)(i := None),
      disk_content_size := disk_content_size s - content_size c,
      disk_physical_size := disk_physical_size s - physical_size c\<rparr>)"
  using assms by (auto simp: ledger_accounts_def msum_delete)

lemma accounts_update_reservation:
  assumes "ledger_accounts lost s" "reservation_map s i = Some r" "file_space r' = file_space r"
  shows "ledger_accounts lost (s\<lparr>reservation_map := (reservation_map s)(i \<mapsto> r')\<rparr>)"
  using assms by (auto simp: ledger_accounts_def msum_update_same)

subsection \<open>Every operation keeps it\<close>

lemma inv_try_reserve:
  assumes "ledger_accounts lost s" "reservation_map s i = None" "chunk_set s i = None"
  shows "ledger_accounts lost (snd (try_reserve env i sz b f d s))"
  using assms
  by (auto simp: try_reserve_def ledger_accounts_def msum_insert
      split: option.splits prod.splits result.splits)

lemma inv_cancel_reservation:
  assumes "ledger_accounts lost s"
  shows "ledger_accounts lost (snd (cancel_reservation env i s))"
proof (cases "reservation_map s i")
  case (Some r)
  let ?u = "(uncommited_map s)(i := None)"
  have "ledger_accounts lost (drop_reservation i s)"
    using assms Some by (rule accounts_drop_reservation)
  then have "ledger_accounts lost (s\<lparr>reservation_map := (reservation_map s)(i := None),
      disk_reserved_size := disk_reserved_size s - file_space r, uncommited_map := ?u\<rparr>)"
    using Some by (simp add: drop_reservation_def)
  then show ?thesis
    using Some
    by (simp add: cancel_reservation_def Let_def split_beta accounts_fs_remove)
      (simp add: ledger_accounts_def ext_remove_def)
qed (simp add: cancel_reservation_def assms)

lemma inv_refresh_reservation:
  "ledger_accounts lost s \<Longrightarrow> ledger_accounts lost (snd (refresh_reservation env i s))"
  by (auto simp: refresh_reservation_def Let_def accounts_update_reservation split: option.splits)

lemma inv_pause_reservation:
  "ledger_accounts lost s \<Longrightarrow> ledger_accounts lost (snd (pause_reservation env i s))"
  using inv_refresh_reservation [of lost s env i]
  by (auto simp: pause_reservation_def split: prod.splits result.splits)

lemma inv_release_reservation:
  assumes "ledger_accounts lost s"
  shows "ledger_accounts lost (snd (release_reservation env i sz s))"
proof (cases "reservation_map s i")
  case (Some r)
  let ?path = "get_path i (uncommited_map s i \<noteq> None)"
  show ?thesis
  proof (cases "sz = file_space r")
    case True
    then show ?thesis
      using Some assms accounts_store_chunk [OF assms Some]
      by (cases "fs_read env ?path s") (simp_all add: release_reservation_def)
  next
    case False
    have "ledger_accounts lost (drop_reservation i s)"
      using assms Some by (rule accounts_drop_reservation)
    then have "ledger_accounts lost (s\<lparr>reservation_map := (reservation_map s)(i := None),
        uncommited_map := (uncommited_map s)(i := None),
        disk_reserved_size := disk_reserved_size s - file_space r\<rparr>)"
      using Some by (simp add: ledger_accounts_def drop_reservation_def)
    then show ?thesis
      using False Some assms
      by (cases "durable r") (simp_all add: release_reservation_def Let_def accounts_update_reservation
          split_beta accounts_fs_remove)
  qed
qed (simp add: release_reservation_def assms)

lemma inv_commit_chunk: "ledger_accounts lost s \<Longrightarrow> ledger_accounts lost (snd (commit_chunk env i s))"
  by (simp add: commit_chunk_def Let_def split_beta accounts_fs_rename split: option.splits)

lemma inv_commit_alive: "ledger_accounts lost s \<Longrightarrow> ledger_accounts lost (snd (commit_alive env i s))"
  using inv_refresh_reservation [of lost s env i]
  by (auto simp: commit_alive_def split_beta split: option.splits)

lemma inv_delete_chunk:
  assumes "ledger_accounts lost s"
  shows "ledger_accounts lost (snd (delete_chunk env i s))"
proof -
  define s2 where "s2 = (ext_remove env i s)\<lparr>uncommited_map :=
      (uncommited_map (ext_remove env i s))(i := None)\<rparr>"
  define p where "p = get_path i (uncommited_map (ext_remove env i s) i \<noteq> None)"
  obtain r s3 where rs: "fs_remove env p s2 = (r, s3)" by fastforce
  have inv3: "ledger_accounts lost s3"
    using assms accounts_fs_remove [of lost env p s2] unfolding rs by (simp add: s2_def)
  have drop: "ledger_accounts lost (drop_reservation i s3)" if "reservation_map s3 i = Some b" for b
    using inv3 that by (rule accounts_drop_reservation)
  show ?thesis
    unfolding delete_chunk_def Let_def s2_def [symmetric] p_def [symmetric] rs prod.case
    using inv3 drop accounts_drop_chunk [OF inv3, of i]
    by (cases r; cases "chunk_set s3 i"; cases "reservation_map s3 i")
      (simp_all add: drop_reservation_def)
qed

lemma inv_delete_chunks: "ledger_accounts lost s \<Longrightarrow> ledger_accounts lost (snd (delete_chunks env mark s))"
proof (induction mark arbitrary: s)
  case (Cons i mark)
  obtain r s' where rs: "delete_chunk env i s = (r, s')" by fastforce
  with inv_delete_chunk [OF Cons.prems, of env i] have "ledger_accounts lost s'" by simp
  with Cons.IH show ?case by (cases r) (simp_all add: rs)
qed simp

lemma inv_clean_uncommitted: "ledger_accounts lost s \<Longrightarrow> ledger_accounts lost (snd (clean_uncommitted env order s))"
  by (simp add: clean_uncommitted_def inv_delete_chunks)

text \<open>A sweep that stops because a file cannot be removed has already dropped the reservation of that
  file: the one whose size stays in the counter.\<close>

fun sweep_lost :: "'st ledger_env \<Rightarrow> uuid list \<Rightarrow> 'st InternalLedger \<Rightarrow> Reservation list" where
  "sweep_lost env [] s = []"
| "sweep_lost env (sweep # mark) s =
    (let path = get_path sweep (uncommited_map s sweep \<noteq> None);
         reservation = the (reservation_map s sweep);
         s1 = s\<lparr>uncommited_map := (uncommited_map s)(sweep := None),
                reservation_map := (reservation_map s)(sweep := None)\<rparr>
     in case fs_remove env path (ext_remove env sweep s1) of
          (Err _, s3) \<Rightarrow> [reservation]
        | (Ok _, s3) \<Rightarrow>
            sweep_lost env mark
              (s3\<lparr>disk_reserved_size := disk_reserved_size s3 - file_space reservation\<rparr>))"

lemma sweep_lost_none: "sweep_lost env mark s = [] \<longleftrightarrow> fst (sweep_broken env mark s) = Ok ()"
  by (induction mark arbitrary: s) (auto simp: Let_def split: prod.splits result.splits)

lemma sweep_lost_one: "length (sweep_lost env mark s) \<le> 1"
  by (induction mark arbitrary: s) (auto simp: Let_def split: prod.splits result.splits)

definition lost_space :: "Reservation list \<Rightarrow> u64" where
  "lost_space rs = sum_list (map file_space rs)"

lemma lost_space_append [simp]: "lost_space (rs @ rs') = lost_space rs + lost_space rs'"
  by (simp add: lost_space_def)

lemma inv_sweep_broken:
  assumes "ledger_accounts lost s" "distinct mark" "set mark \<subseteq> dom (reservation_map s)"
  shows "ledger_accounts (lost + lost_space (sweep_lost env mark s)) (snd (sweep_broken env mark s))"
  using assms
proof (induction mark arbitrary: s)
  case (Cons i mark)
  define p where "p = get_path i (uncommited_map s i \<noteq> None)"
  define s2 where "s2 = ext_remove env i (s\<lparr>uncommited_map := (uncommited_map s)(i := None),
      reservation_map := (reservation_map s)(i := None)\<rparr>)"
  obtain r where r: "reservation_map s i = Some r" using Cons.prems by auto
  obtain q s3 where rs: "fs_remove env p s2 = (q, s3)" by fastforce
  let ?s4 = "s3\<lparr>disk_reserved_size := disk_reserved_size s3 - file_space r\<rparr>"
  have dropped: "ledger_accounts lost (drop_reservation i s)"
    using Cons.prems(1) r by (rule accounts_drop_reservation)
  from rs show ?case
  proof (cases rule: fs_remove_cases)
    case ok
    have steps: "sweep_broken env (i # mark) s = sweep_broken env mark ?s4"
        "sweep_lost env (i # mark) s = sweep_lost env mark ?s4"
      unfolding sweep_broken.simps sweep_lost.simps Let_def p_def [symmetric] s2_def [symmetric] rs r option.sel
      by (simp_all add: ok(1))
    have "ledger_accounts lost ?s4"
      using dropped r by (simp add: ok(4) ledger_accounts_def drop_reservation_def s2_def ext_remove_def)
    moreover have "set mark \<subseteq> dom (reservation_map ?s4)"
      using Cons.prems by (auto simp: ok(4) s2_def ext_remove_def)
    ultimately show ?thesis using Cons.IH [of ?s4] Cons.prems unfolding steps by simp
  next
    case err
    have steps: "sweep_broken env (i # mark) s = (Err (IoInternal None), s2)" "sweep_lost env (i # mark) s = [r]"
      unfolding sweep_broken.simps sweep_lost.simps Let_def p_def [symmetric] s2_def [symmetric] rs r option.sel
      by (simp_all add: err)
    show ?thesis
      using dropped r unfolding steps
      by (simp add: ledger_accounts_def drop_reservation_def s2_def ext_remove_def lost_space_def algebra_simps)
  qed
qed (simp add: lost_space_def)

lemma set_broken_mark: "set (broken_mark env order s) \<subseteq> dom (reservation_map s)"
  by (auto simp: broken_mark_def split: option.splits)

definition clean_broken_lost :: "'st ledger_env \<Rightarrow> uuid list \<Rightarrow> 'st InternalLedger \<Rightarrow> Reservation list" where
  "clean_broken_lost env order s = sweep_lost env (broken_mark env order s) s"

lemma inv_clean_broken_chunks:
  "ledger_accounts lost s \<Longrightarrow> distinct order \<Longrightarrow>
    ledger_accounts (lost + lost_space (clean_broken_lost env order s)) (snd (clean_broken_chunks env order s))"
  unfolding clean_broken_chunks_def clean_broken_lost_def
  by (rule inv_sweep_broken) (simp_all add: set_broken_mark, simp add: broken_mark_def)

lemma inv_write_stream: "ledger_accounts lost s \<Longrightarrow> ledger_accounts lost (snd (fragment_write_stream env i s))"
  by (simp add: fragment_write_stream_def Let_def)

lemma inv_append_stream: "ledger_accounts lost s \<Longrightarrow> ledger_accounts lost (snd (fragment_append_stream env i s))"
  by (simp add: fragment_append_stream_def Let_def)

lemma inv_stream_write: "ledger_accounts lost s \<Longrightarrow> ledger_accounts lost (stream_write path bytes s)"
  by (cases "data_dir s path") (simp_all add: stream_write_def)

lemmas accounts_ops =
  inv_try_reserve inv_cancel_reservation inv_refresh_reservation inv_pause_reservation
  inv_release_reservation inv_commit_chunk inv_commit_alive inv_delete_chunk
  inv_clean_uncommitted inv_write_stream inv_append_stream
  inv_stream_write

subsection \<open>The ledger as a transition system\<close>

text \<open>One rule per operation. The hypotheses are those of the calls: \<open>Uuid::new_v4\<close> is not in
  use, and an iteration visits every entry once. A step is labelled with the reservations whose
  space it loses: none, but for a sweep of the broken chunks that stops early.\<close>

inductive ledger_step :: "'st InternalLedger \<Rightarrow> Reservation list \<Rightarrow> 'st InternalLedger \<Rightarrow> bool" where
  step_pause: "ledger_step s [] (ledger_pause s)"
| step_resume: "ledger_step s [] (ledger_resume s)"
| step_shutdown: "ledger_step s [] (ledger_shutdown s)"
| step_reserve: "\<lbrakk>reservation_map s i = None; chunk_set s i = None\<rbrakk> \<Longrightarrow>
    ledger_step s [] (snd (try_reserve env i sz b f d s))"
| step_cancel: "ledger_step s [] (snd (cancel_reservation env i s))"
| step_refresh: "ledger_step s [] (snd (resume_reservation env i s))"
| step_pause_reservation: "ledger_step s [] (snd (pause_reservation env i s))"
| step_open: "ledger_step s [] (snd (fragment_write_stream env i s))"
| step_append: "ledger_step s [] (snd (fragment_append_stream env i s))"
| step_write: "ledger_step s [] (stream_write path bytes s)"
| step_release: "ledger_step s [] (snd (release_reservation env i sz s))"
| step_commit: "ledger_step s [] (snd (commit_chunk env i s))"
| step_alive: "ledger_step s [] (snd (commit_alive env i s))"
| step_delete: "ledger_step s [] (snd (delete_chunk env i s))"
| step_clean_broken: "\<lbrakk>distinct order; set order = dom (reservation_map s)\<rbrakk> \<Longrightarrow>
    ledger_step s (clean_broken_lost env order s) (snd (clean_broken_chunks env order s))"
| step_clean_uncommitted: "\<lbrakk>distinct order; set order = dom (uncommited_map s)\<rbrakk> \<Longrightarrow>
    ledger_step s [] (snd (clean_uncommitted env order s))"

inductive ledger_run :: "'st InternalLedger \<Rightarrow> Reservation list \<Rightarrow> 'st InternalLedger \<Rightarrow> bool" where
  run_none: "ledger_run s [] s"
| run_step: "ledger_run s gone t \<Longrightarrow> ledger_step t new t' \<Longrightarrow> ledger_run s (gone @ new) t'"

lemma ledger_step_accounts:
  "ledger_step s gone s' \<Longrightarrow> ledger_accounts lost s \<Longrightarrow> ledger_accounts (lost + lost_space gone) s'"
  by (induction rule: ledger_step.induct)
    (simp_all add: inv_clean_broken_chunks accounts_ops ledger_pause_def ledger_resume_def ledger_shutdown_def
      resume_reservation_def, simp_all add: lost_space_def accounts_ops)

lemma ledger_run_accounts:
  "ledger_run s gone s' \<Longrightarrow> ledger_accounts lost s \<Longrightarrow> ledger_accounts (lost + lost_space gone) s'"
proof (induction rule: ledger_run.induct)
  case (run_step s gone t new t')
  then show ?case using ledger_step_accounts [OF run_step.hyps(2), of "lost + lost_space gone"] by (simp add: add.assoc)
qed (simp add: lost_space_def)

end
