(* ===== verification/Ledger_Correctness.thy ===== *)
theory Ledger_Correctness
  imports Fragment_Ledger
begin

section \<open>Correctness of the fragment ledger\<close>

text \<open>
  What the operations of \<open>Fragment_Ledger\<close> guarantee together: the counters of every
  reachable ledger are the sums they stand for, admission control over natural numbers, the
  life of a chunk from its reservation to a read of its bytes, and what the housekeeper may and may
  not remove.
\<close>

text \<open>The environment of the worked examples: an in-memory metadata store, an operating system
  that refuses nothing, files that take as many bytes as they hold, and a given time.\<close>

definition plain_env :: "instant \<Rightarrow> (u8 list \<rightharpoonup> u8 list) ledger_env" where
  "plain_env t = \<lparr>ext_ops = embedded_store memory_libs, fs_refuses = (\<lambda>_. False),
     size_on_disk = (\<lambda>bs. of_nat (length bs)), now = t\<rparr>"

lemma now_plain_env [simp]: "now (plain_env t) = t"
  by (simp add: plain_env_def)

definition plain_ledger :: "u64 \<Rightarrow> (u8 list \<rightharpoonup> u8 list) InternalLedger" where
  "plain_ledger max_space = ledger_new max_space Map.empty Map.empty"

lemmas plain_defs = plain_env_def plain_ledger_def ledger_new_def memory_libs_def
  embedded_insert_def embedded_remove_def embedded_get_def get_available_space_def
  saturating_sub_def ext_remove_def

subsection \<open>Space accounting over natural numbers\<close>

definition reserved_total :: "'st InternalLedger \<Rightarrow> nat" where
  "reserved_total s = msum (\<lambda>r. unat (file_space r)) (reservation_map s)"

definition physical_total :: "'st InternalLedger \<Rightarrow> nat" where
  "physical_total s = msum (\<lambda>c. unat (physical_size c)) (chunk_set s)"

lemma msum_word_nat: "msum f m = (of_nat (msum (\<lambda>v. unat (f v)) m) :: 'a::len word)"
  by (simp add: msum_def of_nat_sum)

lemma unat_msum_word:
  "msum (\<lambda>v. unat (f v)) m < 2 ^ LENGTH('a) \<Longrightarrow>
    unat (msum f m :: 'a::len word) = msum (\<lambda>v. unat (f v)) m"
  by (subst msum_word_nat) (simp add: unat_of_nat)

lemma available_exact:
  assumes "ledger_inv s" "physical_total s + reserved_total s < 2 ^ 64"
  shows "unat (get_available_space s) = unat (max_physical_size s) - (physical_total s + reserved_total s)"
proof -
  from assms have "unat (disk_physical_size s) = physical_total s"
    and "unat (disk_reserved_size s) = reserved_total s"
    by (simp_all add: ledger_inv_def physical_total_def reserved_total_def unat_msum_word)
  with assms have "unat (disk_physical_size s + disk_reserved_size s)
      = physical_total s + reserved_total s"
    by (simp add: unat_word_ariths)
  then show ?thesis by (simp add: get_available_space_def Let_def unat_saturating_sub)
qed

text \<open>C2. The counters of the ledger are the sums they stand for, and it is known what they lose. In every
  state the operations reach from a new ledger, in any order and on every success and error path, the
  content and physical counters are the sums over the stored chunks, and no chunk is both reserved and
  stored. The reserved counter is the sum of the sizes of the reservations plus those of the
  reservations \<open>gone\<close> that sweeps of the housekeeper have dropped without giving their space back,
  one for every sweep that stopped early because a file could not be removed; while no sweep stopped
  early it is exactly the sum.\<close>

theorem ledger_counters_exact:
  assumes "ledger_run (ledger_new max_space store dir) gone s"
  shows "disk_reserved_size s = msum file_space (reservation_map s) + sum_list (map file_space gone)
    \<and> (gone = [] \<longrightarrow> disk_reserved_size s = msum file_space (reservation_map s))
    \<and> disk_content_size s = msum content_size (chunk_set s)
    \<and> disk_physical_size s = msum physical_size (chunk_set s)
    \<and> dom (reservation_map s) \<inter> dom (chunk_set s) = {}"
  using ledger_run_accounts [OF assms accounts_new]
  by (simp add: ledger_accounts_def lost_space_def)

theorem ledger_counters_exact_witness:
  "let s = snd (try_reserve (plain_env 0) 7 100 1 2 True (plain_ledger 1000));
       s' = snd (clean_broken_chunks (plain_env (from_secs 4000)) [7] s)
   in disk_reserved_size s = 100 \<and> disk_reserved_size s' = 100 \<and> reservation_map s' = Map.empty"
proof -
  let ?r = "\<lparr>file_space = 100, completed = 0, durable = True, last_update = 0\<rparr>"
  define s where "s = snd (try_reserve (plain_env 0) 7 100 1 2 True (plain_ledger 1000))"
  define s' where "s' = snd (clean_broken_chunks (plain_env (from_secs 4000)) [7] s)"
  have s: "reservation_map s = [7 \<mapsto> ?r]" "data_dir s = Map.empty"
    by (simp_all add: s_def try_reserve_def plain_defs)
  have lost: "clean_broken_lost (plain_env (from_secs 4000)) [7] s = [?r]" and gone: "reservation_map s' = Map.empty"
    by (simp_all add: clean_broken_lost_def s'_def clean_broken_chunks_def broken_mark_def s expired_def from_secs_def
        DURABLE_UPLOAD_SESSION_VALIDITY_TIME_SECS_def fs_remove_def ext_remove_def Let_def)
  have "ledger_step (plain_ledger 1000) [] s"
    unfolding s_def by (rule step_reserve) (simp_all add: plain_ledger_def ledger_new_def)
  then have run: "ledger_run (plain_ledger 1000) [] s" using run_step [OF run_none] by fastforce
  moreover have "ledger_step s [?r] s'"
    using step_clean_broken [of "[7]" s "plain_env (from_secs 4000)"] by (simp add: s lost s'_def)
  ultimately have run': "ledger_run (plain_ledger 1000) [?r] s'" using run_step by fastforce
  show ?thesis
    using ledger_counters_exact [OF run [unfolded plain_ledger_def]] ledger_counters_exact [OF run' [unfolded plain_ledger_def]]
    by (simp add: s gone msum_insert Let_def flip: s_def s'_def)
qed

text \<open>C3. Admission control is exact. While the real totals fit in 64 bits, a reservation on a
  running ledger with a working metadata store is granted exactly when the physical sizes of the
  stored chunks, the reservations and the requested size together fit in the configured space; a
  granted one raises the reserved total by its size, so the promise of the ledger never exceeds
  its limit, and a refused one changes nothing.\<close>

theorem try_reserve_admission:
  assumes "ledger_inv s" "physical_total s + reserved_total s < 2 ^ 64"
    and "\<not> paused s" "ext_metadata_store s = Some st"
    and "store_insert (ext_ops env) st i
           \<lparr>ext_bucket_id = to_u128_le b, ext_file_id = to_u128_le f\<rparr> = (Ok u, st')"
    and "reservation_map s i = None" "chunk_set s i = None"
  shows "if unat sz \<le> unat (max_physical_size s) - (physical_total s + reserved_total s)
     then fst (try_reserve env i sz b f d s) = Ok i
       \<and> reserved_total (snd (try_reserve env i sz b f d s)) = reserved_total s + unat sz
       \<and> physical_total (snd (try_reserve env i sz b f d s)) = physical_total s
     else try_reserve env i sz b f d s = (Err InsufficientDiskSpace, s)"
proof -
  have fin: "finite (dom (reservation_map s))" using assms(1) by (simp add: ledger_inv_def)
  have "get_available_space s < sz \<longleftrightarrow>
      unat (max_physical_size s) - (physical_total s + reserved_total s) < unat sz"
    by (simp add: word_less_nat_alt available_exact [OF assms(1,2)])
  then show ?thesis
    using assms(3-7) fin
    by (simp add: try_reserve_def reserved_total_def physical_total_def msum_insert)
qed

theorem try_reserve_admission_witness:
  "fst (try_reserve (plain_env 0) 7 1000 1 2 True (plain_ledger 1000)) = Ok 7
   \<and> try_reserve (plain_env 0) 7 1001 1 2 True (plain_ledger 1000)
       = (Err InsufficientDiskSpace, plain_ledger 1000)"
proof -
  have hyps: "ledger_inv (plain_ledger 1000)"
      "physical_total (plain_ledger 1000) + reserved_total (plain_ledger 1000) = 0"
      "\<not> paused (plain_ledger 1000)" "ext_metadata_store (plain_ledger 1000) = Some Map.empty"
      "reservation_map (plain_ledger 1000) 7 = None" "chunk_set (plain_ledger 1000) 7 = None"
      "max_physical_size (plain_ledger 1000) = 1000"
    by (simp_all add: plain_ledger_def physical_total_def reserved_total_def)
      (simp_all add: ledger_new_def)
  have ins: "store_insert (ext_ops (plain_env 0)) Map.empty 7 m
      = (Ok (), [to_be_bytes (7 :: uuid) \<mapsto> bincode_encode memory_libs m])" for m
    by (simp add: plain_env_def embedded_insert_def memory_libs_def)
  show ?thesis
    using try_reserve_admission [OF hyps(1) _ hyps(3,4) ins hyps(5,6), of 1000 1 2 True]
      try_reserve_admission [OF hyps(1) _ hyps(3,4) ins hyps(5,6), of 1001 1 2 True] hyps(2,7)
    by simp
qed

subsection \<open>The life of a chunk\<close>

lemma try_reserve_Ok:
  assumes "\<not> paused s" "sz \<le> get_available_space s" "ext_metadata_store s = Some st"
    and "store_insert (ext_ops env) st i
           \<lparr>ext_bucket_id = to_u128_le b, ext_file_id = to_u128_le f\<rparr> = (Ok u, st')"
  shows "try_reserve env i sz b f d s = (Ok i, s\<lparr>ext_metadata_store := Some st',
     reservation_map := (reservation_map s)(i \<mapsto>
       \<lparr>file_space = sz, completed = 0, durable = d, last_update = now env\<rparr>),
     disk_reserved_size := disk_reserved_size s + sz,
     uncommited_map := (uncommited_map s)(i \<mapsto> \<lparr>access = now env\<rparr>)\<rparr>)"
  using assms by (simp add: try_reserve_def)

lemma release_complete:
  assumes "reservation_map s i = Some r"
    and "\<not> fs_refuses env (get_path i (uncommited_map s i \<noteq> None))"
    and "data_dir s (get_path i (uncommited_map s i \<noteq> None)) = Some bytes"
  shows "release_reservation env i (file_space r) s = (Ok (),
     s\<lparr>disk_physical_size := disk_physical_size s + size_on_disk env bytes,
       disk_content_size := disk_content_size s + file_space r,
       reservation_map := (reservation_map s)(i := None),
       disk_reserved_size := disk_reserved_size s - file_space r,
       chunk_set := (chunk_set s)(i \<mapsto>
         \<lparr>content_size = file_space r, physical_size = size_on_disk env bytes\<rparr>)\<rparr>)"
  using assms by (simp add: release_reservation_def fs_read_def)

lemma commit_chunk_Ok:
  assumes "uncommited_map s i \<noteq> None" "data_dir s (UncommitedFile i) = Some bytes"
    and "\<not> fs_refuses env (UncommitedFile i)" "\<not> fs_refuses env (ChunkFile i)"
  shows "commit_chunk env i s = (Ok (),
     s\<lparr>uncommited_map := (uncommited_map s)(i := None),
       data_dir := (data_dir s)(UncommitedFile i := None, ChunkFile i \<mapsto> bytes)\<rparr>)"
  using assms by (auto simp: commit_chunk_def fs_rename_def get_path_def)

text \<open>An upload as the node performs it: reserve, open the write stream, write, release with the
  number of bytes transferred, commit. Each line is the call and the state it leaves.\<close>

definition upload_chunk ::
    "'st ledger_env \<Rightarrow> uuid \<Rightarrow> u8 list \<Rightarrow> uuid \<Rightarrow> uuid \<Rightarrow> bool \<Rightarrow> 'st InternalLedger
      \<Rightarrow> unit io_result \<times> 'st InternalLedger" where
  "upload_chunk env i bytes b f d s =
    (let sz = of_nat (length bytes) in
     case try_reserve env i sz b f d s of
       (Err e, s1) \<Rightarrow> (Err e, s1)
     | (Ok chunk_id, s1) \<Rightarrow>
         (case fragment_write_stream env chunk_id s1 of
            (Err e, s2) \<Rightarrow> (Err e, s2)
          | (Ok path, s2) \<Rightarrow>
              (case release_reservation env chunk_id sz (stream_write path bytes s2) of
                 (Err e, s3) \<Rightarrow> (Err e, s3)
               | (Ok _, s3) \<Rightarrow> commit_chunk env chunk_id s3)))"

text \<open>C4. What is uploaded is what is stored. On a running ledger with room for the bytes, an
  upload (reserve, write, release, commit) succeeds, and afterwards a reader of the chunk gets
  exactly the bytes written, the chunk is listed with their size, no reservation and no
  uncommitted entry is left, and the store names the bucket and the file of the upload.\<close>

theorem upload_then_read:
  assumes "\<not> paused s" "of_nat (length bytes) \<le> get_available_space s"
    and "ext_metadata_store s = Some st"
    and "store_insert (ext_ops env) st i
           \<lparr>ext_bucket_id = to_u128_le b, ext_file_id = to_u128_le f\<rparr> = (Ok u, st')"
    and "ext_fragment_meta_store (ext_ops env) repr" "store_get (ext_ops env) st' i = Ok m"
    and "\<not> fs_refuses env (UncommitedFile i)" "\<not> fs_refuses env (ChunkFile i)"
  shows "fst (upload_chunk env i bytes b f d s) = Ok ()
    \<and> (let s' = snd (upload_chunk env i bytes b f d s) in
         fragment_read_stream env i s' = Ok bytes
       \<and> stat_chunk env i s' = Ok (of_nat (length bytes))
       \<and> map_option content_size (existing_or_reserved_fragment_meta i s') = Some (of_nat (length bytes))
       \<and> reservation_map s' i = None \<and> uncommited_map s' i = None
       \<and> map_option meta_bucket_id (extended_fragment_meta env i s') = Some b
       \<and> map_option meta_file_id (extended_fragment_meta env i s') = Some f)"
proof -
  have m: "m = \<lparr>ext_bucket_id = to_u128_le b, ext_file_id = to_u128_le f\<rparr>"
    using ext_fragment_meta_store.get_after_insert [OF assms(5,4,6)] .
  show ?thesis
    using assms(6-8)
    by (simp add: upload_chunk_def try_reserve_Ok [OF assms(1-4)] fragment_write_stream_def m
        stream_write_def get_path_def release_reservation_def fs_read_def commit_chunk_def Let_def
        fs_rename_def fragment_read_stream_def stat_chunk_def existing_or_reserved_fragment_meta_def
        existing_fragment_meta_def extended_fragment_meta_def meta_bucket_id_def meta_file_id_def)
qed

theorem upload_then_read_witness:
  "fst (upload_chunk (plain_env 5) 7 [1, 2, 3] 11 12 False (plain_ledger 1000)) = Ok ()
   \<and> fragment_read_stream (plain_env 5) 7
       (snd (upload_chunk (plain_env 5) 7 [1, 2, 3] 11 12 False (plain_ledger 1000))) = Ok [1, 2, 3]"
proof -
  let ?m = "\<lparr>ext_bucket_id = to_u128_le 11, ext_file_id = to_u128_le 12\<rparr>"
  let ?st = "[to_be_bytes (7 :: uuid) \<mapsto> bincode_encode memory_libs ?m]"
  have store: "ext_fragment_meta_store (ext_ops (plain_env 5)) (embedded_repr memory_libs id)"
    using mem.emb.ext_fragment_meta_store_axioms by (simp add: plain_env_def)
  have get: "store_get (ext_ops (plain_env 5)) ?st 7 = Ok ?m"
    using mem.bincode_round_trip [of ?m]
    by (simp add: plain_env_def embedded_get_def memory_libs_def be_uuid.dec_enc)
  show ?thesis
    using upload_then_read [OF _ _ _ _ store get, of "plain_ledger 1000" "[1, 2, 3]" Map.empty]
    by (simp add: plain_env_def plain_ledger_def ledger_new_def get_available_space_def
        saturating_sub_def embedded_insert_def memory_libs_def Let_def)
qed

subsection \<open>What the housekeeper removes\<close>

definition untouched :: "uuid \<Rightarrow> 'st InternalLedger \<Rightarrow> 'st InternalLedger \<Rightarrow> bool" where
  "untouched i s s' \<longleftrightarrow>
     chunk_set s' i = chunk_set s i \<and> reservation_map s' i = reservation_map s i
   \<and> uncommited_map s' i = uncommited_map s i
   \<and> data_dir s' (ChunkFile i) = data_dir s (ChunkFile i)
   \<and> data_dir s' (UncommitedFile i) = data_dir s (UncommitedFile i)"

lemma untouched_refl [simp]: "untouched i s s"
  by (simp add: untouched_def)

lemma untouched_trans: "untouched i s s' \<Longrightarrow> untouched i s' s'' \<Longrightarrow> untouched i s s''"
  by (simp add: untouched_def)

lemma get_path_other [simp]:
  "i \<noteq> j \<Longrightarrow> get_path j b \<noteq> ChunkFile i" "i \<noteq> j \<Longrightarrow> get_path j b \<noteq> UncommitedFile i"
  "i \<noteq> j \<Longrightarrow> ChunkFile i \<noteq> get_path j b" "i \<noteq> j \<Longrightarrow> UncommitedFile i \<noteq> get_path j b"
  by (auto simp: get_path_def)

lemma untouched_fs_remove:
  "i \<noteq> j \<Longrightarrow> untouched i s (snd (fs_remove env (get_path j b) s))"
  by (simp add: fs_remove_def untouched_def)

lemma untouched_drop_entries:
  "i \<noteq> j \<Longrightarrow> untouched i s (ext_remove env j (s\<lparr>uncommited_map := (uncommited_map s)(j := None),
      reservation_map := (reservation_map s)(j := None)\<rparr>))"
  by (simp add: untouched_def ext_remove_def)

lemma delete_chunk_other:
  assumes "i \<noteq> j" shows "untouched i s (snd (delete_chunk env j s))"
proof -
  define s2 where "s2 = (ext_remove env j s)\<lparr>uncommited_map :=
      (uncommited_map (ext_remove env j s))(j := None)\<rparr>"
  define p where "p = get_path j (uncommited_map (ext_remove env j s) j \<noteq> None)"
  obtain r s3 where rs: "fs_remove env p s2 = (r, s3)" by fastforce
  have "untouched i s s2" using assms by (simp add: untouched_def s2_def ext_remove_def)
  moreover have "untouched i s2 s3"
    using untouched_fs_remove [OF assms, of s2 env] unfolding p_def [symmetric]
    by (metis p_def rs snd_conv)
  ultimately have "untouched i s s3" by (rule untouched_trans)
  then show ?thesis
    unfolding delete_chunk_def Let_def s2_def [symmetric] p_def [symmetric] rs prod.case
    using assms
    by (cases r; cases "chunk_set s3 j"; cases "reservation_map s3 j")
      (simp_all add: untouched_def)
qed

lemma delete_chunks_other: "i \<notin> set mark \<Longrightarrow> untouched i s (snd (delete_chunks env mark s))"
proof (induction mark arbitrary: s)
  case (Cons j mark)
  obtain r s' where rs: "delete_chunk env j s = (r, s')" by fastforce
  with Cons.prems delete_chunk_other [of i j s env] have "untouched i s s'" by simp
  with Cons show ?case by (cases r) (auto simp: rs intro: untouched_trans)
qed simp

lemma sweep_broken_other: "i \<notin> set mark \<Longrightarrow> untouched i s (snd (sweep_broken env mark s))"
proof (induction mark arbitrary: s)
  case (Cons j mark)
  define p where "p = get_path j (uncommited_map s j \<noteq> None)"
  define s2 where "s2 = ext_remove env j (s\<lparr>uncommited_map := (uncommited_map s)(j := None),
      reservation_map := (reservation_map s)(j := None)\<rparr>)"
  obtain r s3 where rs: "fs_remove env p s2 = (r, s3)" by fastforce
  from Cons.prems have ij: "i \<noteq> j" by auto
  have "untouched i s s2" using ij unfolding s2_def by (rule untouched_drop_entries)
  moreover have "untouched i s2 s3"
    using untouched_fs_remove [OF ij, of s2 env] by (metis p_def rs snd_conv)
  ultimately have s3: "untouched i s s3" by (rule untouched_trans)
  show ?case
  proof (cases r)
    case Err
    then show ?thesis
      using s3 unfolding sweep_broken.simps Let_def p_def [symmetric] s2_def [symmetric] rs by simp
  next
    case Ok
    let ?s4 = "s3\<lparr>disk_reserved_size :=
      disk_reserved_size s3 - file_space (the (reservation_map s j))\<rparr>"
    have "untouched i s ?s4" using s3 by (simp add: untouched_def)
    with Cons Ok show ?thesis
      unfolding sweep_broken.simps Let_def p_def [symmetric] s2_def [symmetric] rs
      by (auto intro: untouched_trans)
  qed
qed simp

text \<open>C24. The housekeeper only removes what has expired. One turn of its loop leaves every chunk
  alone (its entries in all three maps and both of its files) whose reservation and whose
  uncommitted entry, as far as it has them, were refreshed within the last hour; in particular a
  committed chunk, which has neither, is never removed, whatever order the maps are visited in and
  whichever file operations fail.\<close>

theorem housekeeper_keeps_live_chunks:
  assumes "\<And>r. reservation_map s i = Some r \<Longrightarrow> \<not> expired (now env) (last_update r)"
    and "\<And>c. uncommited_map s i = Some c \<Longrightarrow> \<not> expired (now env) (access c)"
  shows "untouched i s (housekeeper_tick env order1 order2 s)"
proof -
  let ?s1 = "snd (clean_broken_chunks env order1 s)"
  have "i \<notin> set (broken_mark env order1 s)"
    using assms(1) by (auto simp: broken_mark_def split: option.splits)
  then have s1: "untouched i s ?s1"
    unfolding clean_broken_chunks_def by (rule sweep_broken_other)
  then have "i \<notin> set (uncommitted_mark env order2 ?s1)"
    using assms(2) by (auto simp: uncommitted_mark_def untouched_def split: option.splits)
  then have "untouched i ?s1 (snd (clean_uncommitted env order2 ?s1))"
    unfolding clean_uncommitted_def by (rule delete_chunks_other)
  with s1 show ?thesis unfolding housekeeper_tick_def Let_def by (rule untouched_trans)
qed

theorem housekeeper_keeps_live_chunks_witness:
  "let s = (plain_ledger 100)\<lparr>
       chunk_set := [7 \<mapsto> \<lparr>content_size = 1, physical_size = 1\<rparr>],
       uncommited_map := [8 \<mapsto> \<lparr>access = 0\<rparr>],
       data_dir := [ChunkFile 7 \<mapsto> [1], UncommitedFile 8 \<mapsto> [2]]\<rparr>;
       s' = housekeeper_tick (plain_env (from_secs 4000)) [] [8] s
   in data_dir s' (ChunkFile 7) = Some [1] \<and> chunk_set s' 7 \<noteq> None
    \<and> data_dir s' (UncommitedFile 8) = None"
proof -
  let ?s = "(plain_ledger 100)\<lparr>
       chunk_set := [7 \<mapsto> \<lparr>content_size = 1, physical_size = 1\<rparr>],
       uncommited_map := [8 \<mapsto> \<lparr>access = 0\<rparr>],
       data_dir := [ChunkFile 7 \<mapsto> [1], UncommitedFile 8 \<mapsto> [2]]\<rparr>"
  have "untouched 7 ?s (housekeeper_tick (plain_env (from_secs 4000)) [] [8] ?s)"
    by (rule housekeeper_keeps_live_chunks) (simp_all add: plain_ledger_def ledger_new_def)
  moreover have "data_dir (housekeeper_tick (plain_env (from_secs 4000)) [] [8] ?s)
      (UncommitedFile 8) = None"
    by (simp add: housekeeper_tick_def clean_broken_chunks_def clean_uncommitted_def
        broken_mark_def uncommitted_mark_def expired_def delete_chunk_def Let_def get_path_def
        fs_remove_def plain_defs from_secs_def DURABLE_UPLOAD_SESSION_VALIDITY_TIME_SECS_def)
  ultimately show ?thesis by (simp add: untouched_def Let_def)
qed

lemma sweep_broken_reservations:
  assumes "fst (sweep_broken env mark s) = Ok ()"
  shows "reservation_map (snd (sweep_broken env mark s)) = (reservation_map s) |` (- set mark)"
  using assms
proof (induction mark arbitrary: s)
  case (Cons j mark)
  define p where "p = get_path j (uncommited_map s j \<noteq> None)"
  define s2 where "s2 = ext_remove env j (s\<lparr>uncommited_map := (uncommited_map s)(j := None),
      reservation_map := (reservation_map s)(j := None)\<rparr>)"
  obtain q s3 where rs: "fs_remove env p s2 = (q, s3)" by fastforce
  let ?s4 = "s3\<lparr>disk_reserved_size :=
      disk_reserved_size s3 - file_space (the (reservation_map s j))\<rparr>"
  have step: "sweep_broken env (j # mark) s = (case (q, s3) of
      (Err _, s3) \<Rightarrow> (Err (IoInternal None), s3)
    | (Ok _, s3) \<Rightarrow> sweep_broken env mark (s3\<lparr>disk_reserved_size :=
        disk_reserved_size s3 - file_space (the (reservation_map s j))\<rparr>))"
    unfolding sweep_broken.simps Let_def p_def [symmetric] s2_def [symmetric] rs ..
  have s3: "reservation_map s3 = (reservation_map s)(j := None)"
    using rs by (cases rule: fs_remove_cases) (simp_all add: s2_def ext_remove_def)
  have eq: "sweep_broken env (j # mark) s = sweep_broken env mark ?s4"
    using rs by (cases rule: fs_remove_cases) (use step Cons.prems in simp_all)
  with Cons.IH [of ?s4] Cons.prems s3 show ?case
    by (auto simp: fun_eq_iff restrict_map_def)
qed (simp add: restrict_map_def)

text \<open>C25. Abandoned uploads are swept. When a sweep of the reservations visits every entry and
  runs to its end, no reservation older than an hour is left, the younger ones are kept, and the
  reserved counter is what the remaining ones add up to.\<close>

theorem clean_broken_complete:
  assumes "ledger_inv s" "distinct order" "set order = dom (reservation_map s)"
    and "fst (clean_broken_chunks env order s) = Ok ()"
  shows "let s' = snd (clean_broken_chunks env order s) in
      reservation_map s' = (\<lambda>i. case reservation_map s i of None \<Rightarrow> None
        | Some r \<Rightarrow> if expired (now env) (last_update r) then None else Some r)
    \<and> disk_reserved_size s' = msum file_space (reservation_map s')"
proof -
  have "clean_broken_lost env order s = []"
    using assms(4) by (simp add: clean_broken_lost_def clean_broken_chunks_def sweep_lost_none)
  then have "ledger_inv (snd (clean_broken_chunks env order s))"
    using inv_clean_broken_chunks [of 0 s order env] assms(1,2) by (simp add: ledger_inv_accounts lost_space_def)
  moreover have "set (broken_mark env order s)
      = {i. \<exists>r. reservation_map s i = Some r \<and> expired (now env) (last_update r)}"
    using assms(3) by (auto simp: broken_mark_def split: option.splits)
  ultimately show ?thesis
    using sweep_broken_reservations [of env "broken_mark env order s" s] assms(4)
    by (auto simp: clean_broken_chunks_def Let_def ledger_inv_def restrict_map_def fun_eq_iff
        split: option.splits)
qed

theorem clean_broken_complete_witness:
  "let s = (plain_ledger 100)\<lparr>
       reservation_map := [7 \<mapsto> \<lparr>file_space = 3, completed = 1, durable = True, last_update = 0\<rparr>],
       uncommited_map := [7 \<mapsto> \<lparr>access = 0\<rparr>], disk_reserved_size := 3,
       data_dir := [UncommitedFile 7 \<mapsto> [1]]\<rparr>
   in reservation_map (snd (clean_broken_chunks (plain_env (from_secs 4000)) [7] s)) 7 = None"
proof -
  let ?s = "(plain_ledger 100)\<lparr>
       reservation_map := [7 \<mapsto> \<lparr>file_space = 3, completed = 1, durable = True, last_update = 0\<rparr>],
       uncommited_map := [7 \<mapsto> \<lparr>access = 0\<rparr>], disk_reserved_size := 3,
       data_dir := [UncommitedFile 7 \<mapsto> [1]]\<rparr>"
  have "ledger_inv ?s" by (simp add: ledger_inv_def msum_insert plain_ledger_def ledger_new_def)
  moreover have "fst (clean_broken_chunks (plain_env (from_secs 4000)) [7] ?s) = Ok ()"
    by (simp add: clean_broken_chunks_def broken_mark_def expired_def Let_def get_path_def
        fs_remove_def plain_defs from_secs_def DURABLE_UPLOAD_SESSION_VALIDITY_TIME_SECS_def)
  ultimately show ?thesis
    using clean_broken_complete [of ?s "[7]" "plain_env (from_secs 4000)"]
    by (simp add: Let_def fun_eq_iff expired_def plain_env_def from_secs_def
        DURABLE_UPLOAD_SESSION_VALIDITY_TIME_SECS_def)
qed

text \<open>An abandoned upload that never sent a byte leaks its space. If the first reservation a
  sweep removes has no file yet, removing the file fails and the sweep returns early: the
  reservation is gone but its size stays in the reserved counter, so the accounting invariant is
  broken and the space is lost until the node restarts.\<close>

theorem clean_broken_leak:
  assumes "ledger_inv s" "broken_mark env order s = i # rest" "reservation_map s i = Some r"
    and "data_dir s (get_path i (uncommited_map s i \<noteq> None)) = None" "file_space r \<noteq> 0"
  shows "let (res, s') = clean_broken_chunks env order s in
      res = Err (IoInternal None) \<and> reservation_map s' = (reservation_map s)(i := None)
    \<and> disk_reserved_size s' = disk_reserved_size s \<and> \<not> ledger_inv s'"
proof -
  let ?s' = "ext_remove env i (s\<lparr>uncommited_map := (uncommited_map s)(i := None),
      reservation_map := (reservation_map s)(i := None)\<rparr>)"
  have "clean_broken_chunks env order s = (Err (IoInternal None), ?s')"
    using assms(2,4)
    by (simp add: clean_broken_chunks_def Let_def fs_remove_def ext_remove_def)
  moreover have "\<not> ledger_inv ?s'"
    using assms(1,3,5) by (auto simp: ledger_inv_def ext_remove_def msum_delete)
  ultimately show ?thesis by (simp add: ext_remove_def)
qed

theorem clean_broken_leak_witness:
  "let s = snd (try_reserve (plain_env 0) 7 100 1 2 True (plain_ledger 1000));
       (res, s') = clean_broken_chunks (plain_env (from_secs 4000)) [7] s
   in res = Err (IoInternal None) \<and> reservation_map s' 7 = None \<and> get_available_space s' = 900"
proof -
  let ?s = "snd (try_reserve (plain_env 0) 7 100 1 2 True (plain_ledger 1000))"
  let ?env = "plain_env (from_secs 4000)"
  have s: "reservation_map ?s = [7 \<mapsto> \<lparr>file_space = 100, completed = 0, durable = True, last_update = 0\<rparr>]"
      "data_dir ?s = Map.empty" "disk_reserved_size ?s = 100" "disk_physical_size ?s = 0"
      "max_physical_size ?s = 1000" "chunk_set ?s = Map.empty" "disk_content_size ?s = 0"
    by (simp_all add: try_reserve_def plain_defs)
  have mark: "broken_mark ?env [7] ?s = [7]"
    by (simp add: broken_mark_def s expired_def from_secs_def
        DURABLE_UPLOAD_SESSION_VALIDITY_TIME_SECS_def)
  have inv: "ledger_inv ?s" by (simp add: ledger_inv_def s msum_insert)
  have "max_physical_size (snd (clean_broken_chunks ?env [7] ?s)) = 1000
      \<and> disk_physical_size (snd (clean_broken_chunks ?env [7] ?s)) = 0"
    using mark by (simp add: clean_broken_chunks_def Let_def fs_remove_def s ext_remove_def)
  with clean_broken_leak [OF inv mark] show ?thesis
    by (simp add: s split_beta Let_def get_available_space_def saturating_sub_def)
qed

end
