(* ===== verification/Pathlib.thy ===== *)
theory Pathlib
  imports Meowith_Prelude
begin

section \<open>Paths\<close>

text \<open>
  \<open>data/src/pathlib.rs\<close> and the limits of \<open>data/src/dto/config.rs\<close>.

  A \<open>String\<close> is its UTF-8 bytes, one \<open>char\<close> each, so \<open>len\<close> is the length of the list.
  The regular expression of \<open>normalize\<close> replaces maximal runs of separators, which is what
  the flag of \<open>collapse_seps\<close> tracks. \<open>std::path::Path\<close> is modelled for Unix:
  \<open>path_parent\<close> and \<open>path_file_name\<close> on the pieces between slashes, of which the empty
  ones and the \<open>.\<close> ones past the first are not components.

  \<open>normalize_spec\<close> shows that \<open>normalize\<close> is the joining of the non-empty segments; the
  round trip of \<open>split_path\<close> and \<open>join_parent_name\<close> and the bounds of
  \<open>prepare_path\<close> follow from it.
\<close>

abbreviation slash :: char where "slash \<equiv> CHR ''/''"
abbreviation backslash :: char where "backslash \<equiv> CHR 0x5C"

definition is_sep :: "char \<Rightarrow> bool" where
  "is_sep c \<longleftrightarrow> c = backslash \<or> c = slash"

fun collapse_seps :: "bool \<Rightarrow> string \<Rightarrow> string" where
  "collapse_seps in_run [] = []"
| "collapse_seps in_run (c # cs) =
    (if is_sep c then (if in_run then collapse_seps True cs else slash # collapse_seps True cs)
     else c # collapse_seps False cs)"

definition trim_matches :: "char \<Rightarrow> string \<Rightarrow> string" where
  "trim_matches c s = rev (dropWhile (\<lambda>x. x = c) (rev (dropWhile (\<lambda>x. x = c) s)))"

definition normalize :: "string \<Rightarrow> string" where
  "normalize path = trim_matches slash (collapse_seps False path)"

fun join_segs :: "string list \<Rightarrow> string" where
  "join_segs [] = []"
| "join_segs [w] = w"
| "join_segs (w # ws) = w @ slash # join_segs ws"

fun split_slash :: "string \<Rightarrow> string list" where
  "split_slash [] = [[]]"
| "split_slash (c # cs) =
    (if c = slash then [] # split_slash cs
     else (case split_slash cs of [] \<Rightarrow> [[c]] | w # ws \<Rightarrow> (c # w) # ws))"

definition component_idx :: "string list \<Rightarrow> nat list" where
  "component_idx segs = [k \<leftarrow> [0..<length segs]. segs ! k \<noteq> [] \<and> (segs ! k \<noteq> ''.'' \<or> k = 0)]"

definition path_file_name :: "string \<Rightarrow> string option" where
  "path_file_name path =
    (let segs = split_slash path in
     case rev (component_idx segs) of
       [] \<Rightarrow> None
     | k # _ \<Rightarrow> if segs ! k = ''..'' \<or> segs ! k = ''.'' then None else Some (segs ! k))"

definition path_parent :: "string \<Rightarrow> string option" where
  "path_parent path =
    (let segs = split_slash path in
     case rev (component_idx segs) of
       [] \<Rightarrow> None
     | [k] \<Rightarrow> Some (if segs ! 0 = [] then [slash] else [])
     | _ # j # _ \<Rightarrow> Some (join_segs (take (Suc j) segs)))"

definition split_path :: "string \<Rightarrow> string option \<times> string" where
  "split_path file_path =
    (let parent = map_option normalize (path_parent file_path);
         parent = (if parent = Some [] then None else parent);
         file_name = (case path_file_name file_path of None \<Rightarrow> [] | Some n \<Rightarrow> n)
     in (parent, normalize file_name))"

definition join_parent_name :: "string \<Rightarrow> string \<Rightarrow> string" where
  "join_parent_name parent name = (if parent = [] then name else parent @ slash # name)"

record FsLimitConfiguration =
  max_path_length :: u32
  max_directory_depth :: u32

definition auto_reject_path_length :: "FsLimitConfiguration \<Rightarrow> u32" where
  "auto_reject_path_length c = max_path_length c + 32"

definition prepare_path :: "string \<Rightarrow> FsLimitConfiguration \<Rightarrow> string option" where
  "prepare_path path c =
    (if (of_nat (length path) :: u32) > auto_reject_path_length c then None
     else
       let normalized = normalize path;
           nest_level = (of_nat (length (filter (\<lambda>x. x = slash) normalized)) :: u32) + 1
       in if nest_level > max_directory_depth c
             \<or> (of_nat (length normalized) :: u32) > max_path_length c
          then None else Some normalized)"

subsection \<open>Normalization against its specification\<close>

function segments :: "string \<Rightarrow> string list" where
  "segments s =
    (let t = dropWhile is_sep s in
     if t = [] then [] else takeWhile (Not \<circ> is_sep) t # segments (dropWhile (Not \<circ> is_sep) t))"
  by pat_completeness auto
termination
proof (relation "measure length", simp)
  fix s t assume t: "t = dropWhile is_sep s" "t \<noteq> []"
  obtain c t' where c: "t = c # t'" using t(2) by (meson list.exhaust)
  with t have "\<not> is_sep c" using hd_dropWhile [of is_sep s] by (metis list.sel(1))
  with c have "length (dropWhile (Not \<circ> is_sep) t) < length t"
    by (simp add: le_imp_less_Suc length_dropWhile_le)
  moreover have "length t \<le> length s" using t(1) by (simp add: length_dropWhile_le)
  ultimately show "(dropWhile (Not \<circ> is_sep) t, s) \<in> measure length" by simp
qed

declare segments.simps [simp del]

definition plain_seg :: "string \<Rightarrow> bool" where
  "plain_seg w \<longleftrightarrow> w \<noteq> [] \<and> (\<forall>c\<in>set w. \<not> is_sep c)"

lemma segments_Nil [simp]: "segments [] = []"
  by (simp add: segments.simps)

lemma segments_sep [simp]: "is_sep c \<Longrightarrow> segments (c # cs) = segments cs"
  by (simp add: segments.simps [of "c # cs"] segments.simps [of cs])

lemma segments_word:
  "\<not> is_sep c \<Longrightarrow> segments (c # cs)
    = takeWhile (Not \<circ> is_sep) (c # cs) # segments (dropWhile (Not \<circ> is_sep) cs)"
  by (simp add: segments.simps [of "c # cs"])

lemma segments_plain: "w \<in> set (segments s) \<Longrightarrow> plain_seg w"
proof (induction s rule: segments.induct)
  case (1 s)
  show ?case
  proof (cases "dropWhile is_sep s = []")
    case True
    with "1.prems" show ?thesis by (subst (asm) segments.simps) (simp del: dropWhile_eq_Nil_conv)
  next
    case False
    let ?t = "dropWhile is_sep s"
    have "segments s = takeWhile (Not \<circ> is_sep) ?t # segments (dropWhile (Not \<circ> is_sep) ?t)"
      using False by (subst segments.simps) (simp add: Let_def del: dropWhile_eq_Nil_conv)
    with "1.prems" consider "w = takeWhile (Not \<circ> is_sep) ?t"
      | "w \<in> set (segments (dropWhile (Not \<circ> is_sep) ?t))" by auto
    then show ?thesis
    proof cases
      case 1
      moreover have "\<not> is_sep (hd ?t)" using False by (rule hd_dropWhile)
      then have "takeWhile (Not \<circ> is_sep) ?t \<noteq> []" using False by (cases ?t) auto
      ultimately show ?thesis by (auto simp: plain_seg_def dest: set_takeWhileD)
    next
      case 2
      then show ?thesis using "1.IH" False by blast
    qed
  qed
qed

definition ends_open :: "string \<Rightarrow> bool" where
  "ends_open s \<longleftrightarrow> s \<noteq> [] \<and> is_sep (last s) \<and> segments s \<noteq> []"

lemma collapse_word:
  "collapse_seps b (w @ r) = w @ collapse_seps (if w = [] then b else False) r"
  if "\<forall>c\<in>set w. \<not> is_sep c"
  using that by (induction w arbitrary: b) auto

lemma segments_single:
  assumes "\<forall>c\<in>set w. \<not> is_sep c" "w \<noteq> []" shows "segments w = [w]"
proof (cases w)
  case (Cons c cs)
  with assms have "dropWhile (Not \<circ> is_sep) cs = []" "takeWhile (Not \<circ> is_sep) cs = cs"
    by (simp_all add: takeWhile_eq_all_conv)
  with Cons assms show ?thesis by (simp add: segments_word del: dropWhile_eq_Nil_conv)
qed (use assms in simp)

lemma segments_eq_Nil_iff: "segments s = [] \<longleftrightarrow> (\<forall>c\<in>set s. is_sep c)"
  by (subst segments.simps) (auto simp: Let_def dropWhile_eq_Nil_conv)

lemma segments_append_sep:
  assumes "\<forall>c\<in>set w. \<not> is_sep c" "w \<noteq> []" "is_sep d"
  shows "segments (w @ d # r) = w # segments r"
proof (cases w)
  case (Cons c cs)
  with assms have "dropWhile (Not \<circ> is_sep) (cs @ d # r) = d # r"
    "takeWhile (Not \<circ> is_sep) (cs @ d # r) = cs"
    by (simp_all add: dropWhile_append2 takeWhile_append2)
  with Cons assms show ?thesis by (simp add: segments_word)
qed (use assms in simp)

lemma collapse_in_run:
  "collapse_seps True s = join_segs (segments s) @ (if ends_open s then [slash] else [])"
proof (induction s rule: length_induct)
  case (1 s)
  show ?case
  proof (cases s)
    case Nil then show ?thesis by (simp add: ends_open_def)
  next
    case (Cons c cs)
    show ?thesis
    proof (cases "is_sep c")
      case True
      have "ends_open s = ends_open cs"
        using Cons True by (cases cs) (auto simp: ends_open_def)
      with 1 Cons True show ?thesis by simp
    next
      case False
      define w where "w = takeWhile (Not \<circ> is_sep) s"
      define r where "r = dropWhile (Not \<circ> is_sep) s"
      have s: "s = w @ r" by (simp add: w_def r_def)
      have w: "\<forall>x\<in>set w. \<not> is_sep x" "w \<noteq> []"
        using Cons False by (auto simp: w_def dest: set_takeWhileD)
      show ?thesis
      proof (cases r)
        case Nil
        then show ?thesis
          using s w collapse_word [OF w(1), of True "[]"]
          by (simp add: segments_single ends_open_def)
      next
        case (Cons d r')
        then have d: "is_sep d" using hd_dropWhile [of "Not \<circ> is_sep" s] by (simp add: r_def)
        have IH: "collapse_seps True r' = join_segs (segments r') @ (if ends_open r' then [slash] else [])"
          using 1 s Cons by simp
        have seg: "segments s = w # segments r'"
          using s Cons d w by (simp add: segments_append_sep)
        have col: "collapse_seps True s = w @ slash # collapse_seps True r'"
          using s Cons d w collapse_word [OF w(1), of True r] by simp
        have last: "ends_open s \<longleftrightarrow> segments r' = [] \<or> ends_open r'"
          using s Cons d seg segments_eq_Nil_iff [of r'] by (cases r') (auto simp: ends_open_def)
        show ?thesis
          using IH seg col last by (cases "segments r'") (auto simp: ends_open_def)
      qed
    qed
  qed
qed

lemma join_segs_hd_last:
  assumes "\<forall>w\<in>set ws. plain_seg w" "ws \<noteq> []"
  shows "join_segs ws \<noteq> [] \<and> \<not> is_sep (hd (join_segs ws)) \<and> \<not> is_sep (last (join_segs ws))"
  using assms
proof (induction ws rule: join_segs.induct)
  case (2 w)
  then show ?case by (cases w; cases w rule: rev_cases) (auto simp: plain_seg_def)
next
  case (3 w v vs)
  then show ?case by (cases w) (auto simp: plain_seg_def)
qed simp

lemma trim_join:
  assumes "s \<noteq> []" "hd s \<noteq> c" "last s \<noteq> c" "set xs \<subseteq> {c}" "set ys \<subseteq> {c}"
  shows "trim_matches c (xs @ s @ ys) = s"
proof -
  have hd: "dropWhile (\<lambda>x. x = c) (xs @ s @ ys) = s @ ys"
    using assms(1,2,4) by (cases s) (auto simp: dropWhile_append2 subset_eq)
  have "dropWhile (\<lambda>x. x = c) (rev ys @ rev s) = dropWhile (\<lambda>x. x = c) (rev s)"
    using assms(5) by (intro dropWhile_append2) auto
  also have "\<dots> = rev s"
    using assms(1,3) by (cases s rule: rev_cases) auto
  finally have "dropWhile (\<lambda>x. x = c) (rev ys @ rev s) = rev s" .
  with hd show ?thesis by (simp add: trim_matches_def)
qed

lemma collapse_start:
  "\<exists>xs. set xs \<subseteq> {slash} \<and> collapse_seps False s = xs @ collapse_seps True s"
proof (cases s)
  case (Cons c cs)
  then show ?thesis
    by (cases "is_sep c") (auto intro: exI [of _ "[slash]"] exI [of _ "[]"])
qed simp

text \<open>The specification of \<open>normalize\<close>: the non-empty segments, joined.\<close>

lemma normalize_spec: "normalize s = join_segs (segments s)"
proof -
  obtain xs where xs: "set xs \<subseteq> {slash}" "collapse_seps False s = xs @ collapse_seps True s"
    using collapse_start by blast
  let ?ys = "if ends_open s then [slash] else []"
  have eq: "collapse_seps False s = xs @ join_segs (segments s) @ ?ys"
    using xs(2) by (simp add: collapse_in_run)
  show ?thesis
  proof (cases "segments s = []")
    case True
    then have "collapse_seps False s = xs" using eq by (simp add: ends_open_def)
    moreover have "dropWhile (\<lambda>x. x = slash) xs = []" using xs(1) by auto
    ultimately show ?thesis
      using True by (simp add: normalize_def trim_matches_def del: dropWhile_eq_Nil_conv)
  next
    case False
    have "\<not> is_sep (hd (join_segs (segments s)))" "\<not> is_sep (last (join_segs (segments s)))"
      "join_segs (segments s) \<noteq> []"
      using join_segs_hd_last [of "segments s"] segments_plain False by auto
    then show ?thesis
      unfolding normalize_def eq using xs(1) by (intro trim_join) (auto simp: is_sep_def)
  qed
qed

lemma segments_join: "\<forall>w\<in>set ws. plain_seg w \<Longrightarrow> segments (join_segs ws) = ws"
proof (induction ws rule: join_segs.induct)
  case (2 w)
  then show ?case by (simp add: plain_seg_def segments_single)
next
  case (3 w v vs)
  then show ?case by (simp add: plain_seg_def segments_append_sep is_sep_def)
qed simp

lemma normalize_join: "\<forall>w\<in>set ws. plain_seg w \<Longrightarrow> normalize (join_segs ws) = join_segs ws"
  by (simp add: normalize_spec segments_join)

lemma segments_normalize: "segments (normalize s) = segments s"
  unfolding normalize_spec by (intro segments_join ballI segments_plain)

lemma normalize_idem: "normalize (normalize s) = normalize s"
  using segments_normalize [of s] by (simp add: normalize_spec)

lemma length_collapse: "length (collapse_seps b s) \<le> length s"
  by (induction b s rule: collapse_seps.induct) auto

lemma length_normalize: "length (normalize s) \<le> length s"
proof -
  have "length (normalize s) \<le> length (collapse_seps False s)"
    unfolding normalize_def trim_matches_def
    by (metis length_dropWhile_le length_rev order_trans)
  then show ?thesis using length_collapse order_trans by blast
qed

text \<open>C30. \<open>normalize\<close> is what its documentation says. Its result is the non-empty segments
  between separators joined by single slashes, so it has no backslash, no empty segment and no
  leading or trailing slash; normalizing again changes nothing; and the result is never longer
  than the input.\<close>

theorem normalize_correct:
  "normalize s = join_segs (segments s)
   \<and> list_all plain_seg (segments (normalize s))
   \<and> segments (normalize s) = segments s
   \<and> normalize (normalize s) = normalize s
   \<and> length (normalize s) \<le> length s"
proof -
  have plain: "\<forall>w \<in> set (segments s). plain_seg w" using segments_plain by blast
  then show ?thesis
    using segments_normalize normalize_idem length_normalize normalize_spec
    by (simp add: list_all_iff)
qed

subsection \<open>Splitting and joining\<close>

lemma split_slash_plain: "plain_seg w \<or> w = [] \<Longrightarrow> split_slash w = [w]"
  by (induction w) (auto simp: plain_seg_def is_sep_def)

lemma split_slash_append:
  "\<forall>c\<in>set w. c \<noteq> slash \<Longrightarrow> split_slash (w @ slash # r) = w # split_slash r"
  by (induction w) auto

lemma split_slash_join:
  "\<forall>w\<in>set ws. plain_seg w \<Longrightarrow> ws \<noteq> [] \<Longrightarrow> split_slash (join_segs ws) = ws"
proof (induction ws rule: join_segs.induct)
  case (3 w v vs)
  then have "\<forall>c\<in>set w. c \<noteq> slash" by (auto simp: plain_seg_def is_sep_def)
  with 3 show ?case by (simp add: split_slash_append)
qed (simp_all add: split_slash_plain)

text \<open>A name: a segment that is not one of the two relative ones.\<close>

definition name_seg :: "string \<Rightarrow> bool" where
  "name_seg w \<longleftrightarrow> plain_seg w \<and> w \<noteq> ''.'' \<and> w \<noteq> ''..''"

lemma component_idx_names: "\<forall>w\<in>set ws. name_seg w \<Longrightarrow> component_idx ws = [0..<length ws]"
  by (auto simp: component_idx_def name_seg_def plain_seg_def filter_id_conv)

lemma split_path_join:
  assumes "\<forall>w\<in>set ws. name_seg w" "ws \<noteq> []"
  shows "split_path (join_segs ws)
     = (if butlast ws = [] then None else Some (join_segs (butlast ws)), last ws)"
proof -
  obtain vs v where ws: "ws = vs @ [v]" using assms(2) by (cases ws rule: rev_cases) auto
  have plain: "\<forall>w\<in>set ws. plain_seg w" using assms(1) by (auto simp: name_seg_def)
  then have segs: "split_slash (join_segs ws) = ws" using assms(2) by (rule split_slash_join)
  have idx: "component_idx ws = [0..<length vs] @ [length vs]"
    using component_idx_names [OF assms(1)] ws by simp
  have name: "path_file_name (join_segs ws) = Some v"
    using assms(1) unfolding path_file_name_def segs idx Let_def by (simp add: ws name_seg_def)
  have norm_v: "normalize v = v"
    using normalize_join [of "[v]"] plain ws by simp
  have norm_vs: "normalize (join_segs vs) = join_segs vs"
    using plain ws by (intro normalize_join) simp
  show ?thesis
  proof (cases vs rule: rev_cases)
    case Nil
    have "path_parent (join_segs ws) = Some []"
      using ws Nil plain unfolding path_parent_def segs idx Let_def by (simp add: plain_seg_def)
    moreover have "normalize [] = []" by (simp add: normalize_spec)
    ultimately show ?thesis
      using ws Nil name norm_v by (simp add: split_path_def Let_def)
  next
    case (snoc us u)
    have "join_segs vs \<noteq> []" using join_segs_hd_last [of vs] plain ws snoc by auto
    moreover have "path_parent (join_segs ws) = Some (join_segs vs)"
      unfolding path_parent_def segs idx Let_def by (simp add: ws snoc)
    moreover have "butlast ws = vs" "last ws = v" using ws by simp_all
    moreover have "vs \<noteq> []" using snoc by simp
    ultimately show ?thesis
      using name norm_v norm_vs by (simp add: split_path_def Let_def)
  qed
qed

lemma join_segs_snoc: "vs \<noteq> [] \<Longrightarrow> join_segs (vs @ [v]) = join_segs vs @ slash # v"
  by (induction vs rule: join_segs.induct) auto

text \<open>Splitting a path and joining it again loses nothing. For every path made of names (no
  empty, \<open>.\<close> or \<open>..\<close> segment), \<open>split_path\<close> gives the parent, or \<open>None\<close> for an
  entry of the root, and the last name, and \<open>join_parent_name\<close> puts the same path together
  again; so the row key under which an entry is stored determines its path.\<close>

theorem split_path_round_trip:
  assumes "\<forall>w \<in> set ws. name_seg w" "ws \<noteq> []"
  shows "let (parent, name) = split_path (join_segs ws) in
      name = last ws \<and> parent = (if length ws = 1 then None else Some (join_segs (butlast ws)))
    \<and> join_parent_name (case parent of None \<Rightarrow> [] | Some p \<Rightarrow> p) name = join_segs ws"
proof -
  obtain vs v where ws: "ws = vs @ [v]" using assms(2) by (cases ws rule: rev_cases) auto
  show ?thesis
  proof (cases "vs = []")
    case False
    then have "join_segs vs \<noteq> []"
      using join_segs_hd_last [of vs] assms(1) ws by (auto simp: name_seg_def)
    with False ws show ?thesis
      using split_path_join [OF assms] by (simp add: join_parent_name_def join_segs_snoc)
  qed (use ws split_path_join [OF assms] in \<open>simp add: join_parent_name_def\<close>)
qed

theorem split_path_round_trip_witness:
  "split_path ''a/to/a.txt'' = (Some ''a/to'', ''a.txt'')
   \<and> join_parent_name ''a/to'' ''a.txt'' = ''a/to/a.txt''"
  using split_path_round_trip [of "[''a'', ''to'', ''a.txt'']"]
  by (simp add: name_seg_def plain_seg_def is_sep_def split_beta prod_eq_iff join_parent_name_def)

lemma slashes_join:
  "\<forall>w\<in>set ws. plain_seg w \<Longrightarrow> ws \<noteq> [] \<Longrightarrow>
    Suc (length (filter (\<lambda>x. x = slash) (join_segs ws))) = length ws"
proof (induction ws rule: join_segs.induct)
  case (3 w v vs)
  then have "filter (\<lambda>x. x = slash) w = []" by (auto simp: plain_seg_def is_sep_def filter_empty_conv)
  with 3 show ?case by simp
qed (auto simp: plain_seg_def is_sep_def filter_empty_conv)

text \<open>A path the node accepts is normalized and within the configured limits. When
  \<open>prepare_path\<close> accepts a request path (shorter than \<open>2\<^sup>3\<^sup>2\<close> bytes), the
  result is its normalization, at most \<open>max_path_length\<close> bytes long, of at most
  \<open>max_directory_depth\<close> segments, and preparing it again returns it unchanged.\<close>

theorem prepare_path_bounds:
  assumes "prepare_path path c = Some p" "length path < 2 ^ 32"
    and "unat (max_path_length c) + 32 < 2 ^ 32"
  shows "p = normalize path \<and> length p \<le> unat (max_path_length c)
    \<and> length (segments p) \<le> unat (max_directory_depth c)
    \<and> prepare_path p c = Some p"
proof -
  let ?len = "of_nat (length p) :: u32"
  let ?n = "length (filter (\<lambda>x. x = slash) p)"
  from assms(1) have p: "p = normalize path" by (simp add: prepare_path_def Let_def split: if_splits)
  from assms(1) have dep: "of_nat ?n + 1 \<le> max_directory_depth c" and len: "?len \<le> max_path_length c"
    unfolding p by (simp_all add: prepare_path_def Let_def not_less split: if_splits)
  have "length p < 2 ^ 32" using length_normalize [of path] assms(2) p by simp
  then have ulen: "unat ?len = length p" by (simp add: unat_of_nat_small)
  then have lp: "length p \<le> unat (max_path_length c)" using len by (simp add: word_le_nat_alt)
  have "?n + 1 < 2 ^ 32" using lp assms(3) length_filter_le [of "\<lambda>x. x = slash" p] by linarith
  then have "unat (of_nat (?n + 1) :: u32) = ?n + 1" by (intro unat_of_nat_small) simp
  moreover have "of_nat (?n + 1) = (of_nat ?n + 1 :: u32)" by simp
  ultimately have "unat (of_nat ?n + 1 :: u32) = ?n + 1" by (simp only:)
  then have depth: "?n + 1 \<le> unat (max_directory_depth c)" using dep by (simp add: word_le_nat_alt)
  have segs: "length (segments p) \<le> ?n + 1"
  proof (cases "segments path = []")
    case False
    have "\<forall>w\<in>set (segments path). plain_seg w" using segments_plain by blast
    from slashes_join [OF this False] show ?thesis
      unfolding p segments_normalize [of path] unfolding normalize_spec by linarith
  qed (simp add: p segments_normalize)
  have "unat (auto_reject_path_length c) = unat (max_path_length c) + 32"
    using assms(3) by (simp add: auto_reject_path_length_def unat_word_ariths)
  then have rej: "?len \<le> auto_reject_path_length c" using ulen lp by (simp add: word_le_nat_alt)
  have norm: "normalize p = p" by (simp add: p normalize_idem)
  have "prepare_path p c = Some p"
    unfolding prepare_path_def norm Let_def using rej dep len by (simp add: not_less)
  then show ?thesis using p lp depth segs by simp
qed

theorem prepare_path_bounds_witness:
  "let c = \<lparr>max_path_length = 50, max_directory_depth = 3\<rparr> in
     prepare_path ''/valid//path'' c = Some ''valid/path''
   \<and> prepare_path ''valid/path'' c = Some ''valid/path''"
proof -
  let ?c = "\<lparr>max_path_length = 50, max_directory_depth = 3\<rparr>"
  have eq: "prepare_path ''/valid//path'' ?c = Some ''valid/path''"
    by (simp add: prepare_path_def auto_reject_path_length_def normalize_def trim_matches_def
        is_sep_def)
  moreover have "prepare_path ''valid/path'' ?c = Some ''valid/path''"
    by (rule prepare_path_bounds [OF eq, THEN conjunct2, THEN conjunct2, THEN conjunct2]) simp_all
  ultimately show ?thesis unfolding Let_def by (rule conjI)
qed

end
