(* ===== verification/Database.thy ===== *)
theory Database
  imports Errors Pathlib
begin

section \<open>The data model and the database\<close>

text \<open>
  The rows of \<open>data/src/model/file_model.rs\<close> and the database they live in.

  The database is a Scylla cluster reached through \<open>charybdis\<close>; neither is part of this
  repository, so the statements the code issues are the fields of a record \<open>cql\<close>, an argument
  of every definition that reads or writes rows, over an abstract database \<open>'db\<close>. The locale
  \<open>cql_service\<close> states what CQL documents of a statement that succeeds, over the
  \<open>tables\<close> a database holds (\<open>view\<close>): an \<open>INSERT\<close> puts the row at its primary key, a
  \<open>DELETE\<close> removes it, a batch in one partition does both at once, a lightweight transaction
  compares and sets. A statement may fail at any time, and nothing is assumed of one that failed,
  except that a lightweight transaction was applied as a whole or not at all. The rows of a query
  arrive as a stream: \<open>file_item\<close> is one file row as it is delivered, or the error in its place.
  \<open>join_dropped\<close> says whether a statement had no effect whose future was dropped because another
  one of the same \<open>try_join!\<close> had failed. The locale is interpreted on \<open>mem_cql\<close>, tables kept as
  lists of rows.

  A CQL set (\<open>Set<Frozen<FileChunk>>\<close>) is a list in the unspecified order in which the code
  iterates over it.
\<close>

subsection \<open>Rows\<close>

record FileChunk =
  server_id :: uuid
  chunk_id :: uuid
  chunk_size :: i64
  chunk_order :: int

record File =
  f_bucket_id :: uuid
  f_directory :: uuid
  f_name :: string
  f_id :: uuid
  f_size :: i64
  f_chunk_ids :: "FileChunk list"
  f_created :: timestamp
  f_last_modified :: timestamp

definition file_full_path :: "File \<Rightarrow> string \<Rightarrow> string" where
  "file_full_path f parent = join_parent_name parent (f_name f)"

record Directory =
  d_bucket_id :: uuid
  d_parent :: string
  d_name :: string
  d_id :: uuid
  d_created :: timestamp
  d_last_modified :: timestamp

definition directory_full_path :: "Directory \<Rightarrow> string" where
  "directory_full_path d = join_parent_name (d_parent d) (d_name d)"

record Bucket =
  b_app_id :: uuid
  b_id :: uuid
  b_name :: string
  encrypted :: bool
  atomic_upload :: bool
  b_quota :: i64
  file_count :: i64
  space_taken :: i64
  b_created :: timestamp
  b_last_modified :: timestamp

datatype SessionState = Writing | AwaitingData | TimedOut

fun session_state_i8 :: "SessionState \<Rightarrow> int" where
  "session_state_i8 Writing = 1"
| "session_state_i8 AwaitingData = 2"
| "session_state_i8 TimedOut = 3"

record BucketUploadSession =
  s_app_id :: uuid
  s_bucket :: uuid
  s_id :: uuid
  s_file_id :: uuid
  s_path :: string
  s_size :: i64
  s_durable :: bool
  s_fragments :: "FileChunk list"
  s_last_access :: timestamp
  s_state :: int

subsection \<open>Primary keys and tables\<close>

type_synonym file_key = "uuid \<times> uuid \<times> string"
type_synonym dir_key = "uuid \<times> string \<times> string"
type_synonym bucket_key = "uuid \<times> uuid"
type_synonym session_key = "uuid \<times> uuid \<times> uuid"

definition file_key :: "File \<Rightarrow> file_key" where
  "file_key f = (f_bucket_id f, f_directory f, f_name f)"

definition dir_key :: "Directory \<Rightarrow> dir_key" where
  "dir_key d = (d_bucket_id d, d_parent d, d_name d)"

definition bucket_key :: "Bucket \<Rightarrow> bucket_key" where
  "bucket_key b = (b_app_id b, b_id b)"

definition session_key :: "BucketUploadSession \<Rightarrow> session_key" where
  "session_key s = (s_app_id s, s_bucket s, s_id s)"

record tables =
  t_files :: "file_key \<rightharpoonup> File"
  t_dirs :: "dir_key \<rightharpoonup> Directory"
  t_buckets :: "bucket_key \<rightharpoonup> Bucket"
  t_sessions :: "session_key \<rightharpoonup> BucketUploadSession"

subsection \<open>The statements of the code\<close>

type_synonym 'a data_result = "('a, MeowithDataError) result"

record 'db cql =
  sel_file :: "'db \<Rightarrow> file_key \<Rightarrow> File option data_result"
  sel_file_by_id :: "'db \<Rightarrow> uuid \<Rightarrow> uuid \<Rightarrow> File option data_result"
  sel_files_bucket :: "'db \<Rightarrow> uuid \<Rightarrow> File list data_result"
  sel_files_dir :: "'db \<Rightarrow> uuid \<Rightarrow> uuid \<Rightarrow> File list data_result"
  sel_files_all :: "'db \<Rightarrow> File list data_result"
  sel_dir :: "'db \<Rightarrow> dir_key \<Rightarrow> Directory option data_result"
  sel_dirs_bucket :: "'db \<Rightarrow> uuid \<Rightarrow> Directory list data_result"
  sel_dirs_parent :: "'db \<Rightarrow> uuid \<Rightarrow> string \<Rightarrow> Directory list data_result"
  sel_bucket :: "'db \<Rightarrow> bucket_key \<Rightarrow> Bucket option data_result"
  sel_buckets_app :: "'db \<Rightarrow> uuid \<Rightarrow> Bucket list data_result"
  sel_session :: "'db \<Rightarrow> session_key \<Rightarrow> BucketUploadSession option data_result"
  sel_sessions_bucket :: "'db \<Rightarrow> uuid \<Rightarrow> uuid \<Rightarrow> BucketUploadSession list data_result"
  ins_file :: "'db \<Rightarrow> File \<Rightarrow> unit data_result \<times> 'db"
  del_file :: "'db \<Rightarrow> File \<Rightarrow> unit data_result \<times> 'db"
  batch_move_file :: "'db \<Rightarrow> File \<Rightarrow> File \<Rightarrow> unit data_result \<times> 'db"
  upd_file_chunks :: "'db \<Rightarrow> file_key \<Rightarrow> FileChunk list \<Rightarrow> unit data_result \<times> 'db"
  ins_dir :: "'db \<Rightarrow> Directory \<Rightarrow> unit data_result \<times> 'db"
  del_dir :: "'db \<Rightarrow> Directory \<Rightarrow> unit data_result \<times> 'db"
  batch_move_dir :: "'db \<Rightarrow> Directory \<Rightarrow> Directory \<Rightarrow> unit data_result \<times> 'db"
  ins_bucket :: "'db \<Rightarrow> Bucket \<Rightarrow> unit data_result \<times> 'db"
  del_bucket :: "'db \<Rightarrow> Bucket \<Rightarrow> unit data_result \<times> 'db"
  upd_bucket_quota :: "'db \<Rightarrow> bucket_key \<Rightarrow> i64 \<Rightarrow> unit data_result \<times> 'db"
  lwt_bucket_space :: "'db \<Rightarrow> bucket_key \<Rightarrow> i64 \<times> i64 \<Rightarrow> i64 \<times> i64
     \<Rightarrow> (bool \<times> i64 \<times> i64) option data_result \<times> 'db"
  ins_session :: "'db \<Rightarrow> BucketUploadSession \<Rightarrow> unit data_result \<times> 'db"
  del_session :: "'db \<Rightarrow> session_key \<Rightarrow> unit data_result \<times> 'db"
  lwt_session :: "'db \<Rightarrow> BucketUploadSession \<Rightarrow> timestamp \<Rightarrow> (bool \<times> timestamp) option data_result \<times> 'db"
  file_item :: "'db \<Rightarrow> File \<Rightarrow> File data_result"
  join_dropped :: "'db \<Rightarrow> bool"

subsection \<open>What CQL documents of them\<close>

definition set_space :: "i64 \<times> i64 \<Rightarrow> Bucket \<Rightarrow> Bucket" where
  "set_space v b = b\<lparr>file_count := fst v, space_taken := snd v\<rparr>"

locale cql_service =
  fixes c :: "'db cql" and view :: "'db \<Rightarrow> tables"
  assumes keyed_files: "t_files (view db) k = Some f \<Longrightarrow> file_key f = k"
    and keyed_dirs: "t_dirs (view db) dk = Some d \<Longrightarrow> dir_key d = dk"
    and keyed_buckets: "t_buckets (view db) bk = Some b \<Longrightarrow> bucket_key b = bk"
    and keyed_sessions: "t_sessions (view db) sk = Some s \<Longrightarrow> session_key s = sk"
    and sel_file_ok: "sel_file c db k = Ok fo \<Longrightarrow> fo = t_files (view db) k"
    and sel_file_by_id_ok: "sel_file_by_id c db bi fi = Ok fo \<Longrightarrow>
      (case fo of None \<Rightarrow> \<forall>k g. t_files (view db) k = Some g \<longrightarrow> f_bucket_id g \<noteq> bi \<or> f_id g \<noteq> fi
       | Some g \<Rightarrow> t_files (view db) (file_key g) = Some g \<and> f_bucket_id g = bi \<and> f_id g = fi)"
    and sel_files_bucket_ok: "sel_files_bucket c db bi = Ok fs \<Longrightarrow>
      distinct (map file_key fs) \<and> set fs = {g. t_files (view db) (file_key g) = Some g \<and> f_bucket_id g = bi}"
    and sel_files_dir_ok: "sel_files_dir c db bi di = Ok fs \<Longrightarrow>
      distinct (map file_key fs) \<and>
      set fs = {g. t_files (view db) (file_key g) = Some g \<and> f_bucket_id g = bi \<and> f_directory g = di}"
    and sel_files_all_ok: "sel_files_all c db = Ok fs \<Longrightarrow>
      distinct (map file_key fs) \<and> set fs = {g. t_files (view db) (file_key g) = Some g}"
    and sel_dir_ok: "sel_dir c db dk = Ok od \<Longrightarrow> od = t_dirs (view db) dk"
    and sel_dirs_bucket_ok: "sel_dirs_bucket c db bi = Ok ds \<Longrightarrow>
      distinct (map dir_key ds) \<and> set ds = {e. t_dirs (view db) (dir_key e) = Some e \<and> d_bucket_id e = bi}"
    and sel_dirs_parent_ok: "sel_dirs_parent c db bi p = Ok ds \<Longrightarrow>
      distinct (map dir_key ds) \<and>
      set ds = {e. t_dirs (view db) (dir_key e) = Some e \<and> d_bucket_id e = bi \<and> d_parent e = p}"
    and sel_bucket_ok: "sel_bucket c db bk = Ok bo \<Longrightarrow> bo = t_buckets (view db) bk"
    and sel_session_ok: "sel_session c db sk = Ok so \<Longrightarrow> so = t_sessions (view db) sk"
    and sel_sessions_bucket_ok: "sel_sessions_bucket c db ai bi = Ok ss \<Longrightarrow>
      distinct (map session_key ss) \<and>
      set ss = {s. t_sessions (view db) (session_key s) = Some s \<and> s_app_id s = ai \<and> s_bucket s = bi}"
    and ins_file_ok: "ins_file c db f = (Ok u, db') \<Longrightarrow>
      view db' = (view db)\<lparr>t_files := (t_files (view db))(file_key f \<mapsto> f)\<rparr>"
    and del_file_ok: "del_file c db f = (Ok u, db') \<Longrightarrow>
      view db' = (view db)\<lparr>t_files := (t_files (view db))(file_key f := None)\<rparr>"
    and batch_move_file_ok: "batch_move_file c db f f' = (Ok u, db') \<Longrightarrow>
      view db' = (view db)\<lparr>t_files := (t_files (view db))(file_key f := None, file_key f' \<mapsto> f')\<rparr>"
    and upd_file_chunks_ok: "upd_file_chunks c db k cs = (Ok u, db') \<Longrightarrow> t_files (view db) k = Some f \<Longrightarrow>
      view db' = (view db)\<lparr>t_files := (t_files (view db))(k \<mapsto> f\<lparr>f_chunk_ids := cs\<rparr>)\<rparr>"
    and ins_dir_ok: "ins_dir c db d = (Ok u, db') \<Longrightarrow>
      view db' = (view db)\<lparr>t_dirs := (t_dirs (view db))(dir_key d \<mapsto> d)\<rparr>"
    and del_dir_ok: "del_dir c db d = (Ok u, db') \<Longrightarrow>
      view db' = (view db)\<lparr>t_dirs := (t_dirs (view db))(dir_key d := None)\<rparr>"
    and batch_move_dir_ok: "batch_move_dir c db d d' = (Ok u, db') \<Longrightarrow>
      view db' = (view db)\<lparr>t_dirs := (t_dirs (view db))(dir_key d := None, dir_key d' \<mapsto> d')\<rparr>"
    and lwt_space_ok: "lwt_bucket_space c db bk new old = (Ok (Some (True, x)), db') \<Longrightarrow>
      \<exists>b. t_buckets (view db) bk = Some b \<and> (file_count b, space_taken b) = old \<and>
        view db' = (view db)\<lparr>t_buckets := (t_buckets (view db))(bk \<mapsto> set_space new b)\<rparr>"
    and lwt_space_no: "lwt_bucket_space c db bk new old = (Ok (Some (False, x)), db') \<Longrightarrow>
      view db' = view db \<and>
      (\<exists>b. t_buckets (view db) bk = Some b \<and> (file_count b, space_taken b) = x \<and> x \<noteq> old)"
    and lwt_space_none: "lwt_bucket_space c db bk new old = (Ok None, db') \<Longrightarrow> view db' = view db"
    and ins_session_ok: "ins_session c db s = (Ok u, db') \<Longrightarrow>
      view db' = (view db)\<lparr>t_sessions := (t_sessions (view db))(session_key s \<mapsto> s)\<rparr>"
    and del_session_ok: "del_session c db sk = (Ok u, db') \<Longrightarrow>
      view db' = (view db)\<lparr>t_sessions := (t_sessions (view db))(sk := None)\<rparr>"
    and lwt_session_ok: "lwt_session c db s la = (Ok (Some (True, t)), db') \<Longrightarrow>
      (\<exists>s0. t_sessions (view db) (session_key s) = Some s0 \<and> s_last_access s0 = la) \<and>
      view db' = (view db)\<lparr>t_sessions := (t_sessions (view db))(session_key s \<mapsto> s)\<rparr>"
    and lwt_session_no: "lwt_session c db s la = (Ok (Some (False, t)), db') \<Longrightarrow>
      view db' = view db \<and>
      (\<exists>s0. t_sessions (view db) (session_key s) = Some s0 \<and> s_last_access s0 = t \<and> t \<noteq> la)"
    and lwt_session_none: "lwt_session c db s la = (Ok None, db') \<Longrightarrow>
      view db' = view db \<and> t_sessions (view db) (session_key s) = None"
    and lwt_session_err: "lwt_session c db s la = (Err e, db') \<Longrightarrow> view db' = view db \<or>
      (\<exists>s0. t_sessions (view db) (session_key s) = Some s0 \<and> s_last_access s0 = la) \<and>
      view db' = (view db)\<lparr>t_sessions := (t_sessions (view db))(session_key s \<mapsto> s)\<rparr>"
    and file_item_ok: "file_item c db f = Ok g \<Longrightarrow> g = f"

subsection \<open>Tables as lists of rows\<close>

record mem_db =
  m_files :: "File list"
  m_dirs :: "Directory list"
  m_buckets :: "Bucket list"
  m_sessions :: "BucketUploadSession list"

definition put_row :: "('r \<Rightarrow> 'k) \<Rightarrow> 'r \<Rightarrow> 'r list \<Rightarrow> 'r list" where
  "put_row key r rs = r # [x \<leftarrow> rs. key x \<noteq> key r]"

definition drop_row :: "('r \<Rightarrow> 'k) \<Rightarrow> 'k \<Rightarrow> 'r list \<Rightarrow> 'r list" where
  "drop_row key k rs = [x \<leftarrow> rs. key x \<noteq> k]"

definition rows_map :: "('r \<Rightarrow> 'k) \<Rightarrow> 'r list \<Rightarrow> 'k \<rightharpoonup> 'r" where
  "rows_map key rs k = find (\<lambda>r. key r = k) rs"

definition unique_rows :: "('r \<Rightarrow> 'k) \<Rightarrow> 'r list \<Rightarrow> 'r list" where
  "unique_rows key rs = foldr (put_row key) rs []"

definition mem_view :: "mem_db \<Rightarrow> tables" where
  "mem_view m = \<lparr>t_files = rows_map file_key (m_files m), t_dirs = rows_map dir_key (m_dirs m),
     t_buckets = rows_map bucket_key (m_buckets m),
     t_sessions = rows_map session_key (m_sessions m)\<rparr>"

lemma find_Some_sat: "find P xs = Some x \<Longrightarrow> P x \<and> x \<in> set xs"
  by (induction xs) (auto split: if_splits)

lemma rows_map_keyed: "rows_map key rs k = Some r \<Longrightarrow> key r = k"
  unfolding rows_map_def by (drule find_Some_sat) simp

lemma rows_map_put: "rows_map key (put_row key r rs) = (rows_map key rs)(key r \<mapsto> r)"
proof
  fix k
  show "rows_map key (put_row key r rs) k = ((rows_map key rs)(key r \<mapsto> r)) k"
    by (induction rs) (auto simp: rows_map_def put_row_def)
qed

lemma rows_map_drop: "rows_map key (drop_row key k rs) = (rows_map key rs)(k := None)"
proof
  fix j
  show "rows_map key (drop_row key k rs) j = ((rows_map key rs)(k := None)) j"
    by (induction rs) (auto simp: rows_map_def drop_row_def)
qed

lemma unique_rows_Cons: "unique_rows key (r # rs) = put_row key r (unique_rows key rs)"
  by (simp add: unique_rows_def)

lemma rows_map_unique: "rows_map key (unique_rows key rs) = rows_map key rs"
proof (induction rs)
  case (Cons r rs)
  then show ?case
    by (simp add: unique_rows_Cons rows_map_put) (auto simp: rows_map_def)
qed (simp add: unique_rows_def)

lemma distinct_unique_rows: "distinct (map key (unique_rows key rs))"
  by (induction rs) (auto simp: unique_rows_def put_row_def distinct_map_filter)

lemma rows_map_distinct:
  "distinct (map key rs) \<Longrightarrow> rows_map key rs (key r) = Some r \<longleftrightarrow> r \<in> set rs"
proof (induction rs)
  case (Cons x rs)
  then show ?case by (auto simp: rows_map_def image_iff)
qed (simp add: rows_map_def)

lemma set_unique_rows: "set (unique_rows key rs) = {r. rows_map key rs (key r) = Some r}"
  using rows_map_distinct [OF distinct_unique_rows [of key rs]] by (auto simp: rows_map_unique)

definition mem_cql :: "mem_db cql" where
  "mem_cql = \<lparr>
     sel_file = (\<lambda>m k. Ok (rows_map file_key (m_files m) k)),
     sel_file_by_id = (\<lambda>m bi fi. Ok (find (\<lambda>f. f_bucket_id f = bi \<and> f_id f = fi)
       (unique_rows file_key (m_files m)))),
     sel_files_bucket = (\<lambda>m bi. Ok [f \<leftarrow> unique_rows file_key (m_files m). f_bucket_id f = bi]),
     sel_files_dir = (\<lambda>m bi di. Ok [f \<leftarrow> unique_rows file_key (m_files m).
       f_bucket_id f = bi \<and> f_directory f = di]),
     sel_files_all = (\<lambda>m. Ok (unique_rows file_key (m_files m))),
     sel_dir = (\<lambda>m k. Ok (rows_map dir_key (m_dirs m) k)),
     sel_dirs_bucket = (\<lambda>m bi. Ok [d \<leftarrow> unique_rows dir_key (m_dirs m). d_bucket_id d = bi]),
     sel_dirs_parent = (\<lambda>m bi p. Ok [d \<leftarrow> unique_rows dir_key (m_dirs m).
       d_bucket_id d = bi \<and> d_parent d = p]),
     sel_bucket = (\<lambda>m k. Ok (rows_map bucket_key (m_buckets m) k)),
     sel_buckets_app = (\<lambda>m a. Ok [b \<leftarrow> unique_rows bucket_key (m_buckets m). b_app_id b = a]),
     sel_session = (\<lambda>m k. Ok (rows_map session_key (m_sessions m) k)),
     sel_sessions_bucket = (\<lambda>m a bi. Ok [s \<leftarrow> unique_rows session_key (m_sessions m).
       s_app_id s = a \<and> s_bucket s = bi]),
     ins_file = (\<lambda>m f. (Ok (), m\<lparr>m_files := put_row file_key f (m_files m)\<rparr>)),
     del_file = (\<lambda>m f. (Ok (), m\<lparr>m_files := drop_row file_key (file_key f) (m_files m)\<rparr>)),
     batch_move_file = (\<lambda>m f f'. (Ok (), m\<lparr>m_files :=
       put_row file_key f' (drop_row file_key (file_key f) (m_files m))\<rparr>)),
     upd_file_chunks = (\<lambda>m k cs. (Ok (), case rows_map file_key (m_files m) k of None \<Rightarrow> m
       | Some f \<Rightarrow> m\<lparr>m_files := put_row file_key (f\<lparr>f_chunk_ids := cs\<rparr>) (m_files m)\<rparr>)),
     ins_dir = (\<lambda>m d. (Ok (), m\<lparr>m_dirs := put_row dir_key d (m_dirs m)\<rparr>)),
     del_dir = (\<lambda>m d. (Ok (), m\<lparr>m_dirs := drop_row dir_key (dir_key d) (m_dirs m)\<rparr>)),
     batch_move_dir = (\<lambda>m d d'. (Ok (), m\<lparr>m_dirs :=
       put_row dir_key d' (drop_row dir_key (dir_key d) (m_dirs m))\<rparr>)),
     ins_bucket = (\<lambda>m b. (Ok (), m\<lparr>m_buckets := put_row bucket_key b (m_buckets m)\<rparr>)),
     del_bucket = (\<lambda>m b. (Ok (), m\<lparr>m_buckets := drop_row bucket_key (bucket_key b) (m_buckets m)\<rparr>)),
     upd_bucket_quota = (\<lambda>m k q. (Ok (), case rows_map bucket_key (m_buckets m) k of None \<Rightarrow> m
       | Some b \<Rightarrow> m\<lparr>m_buckets := put_row bucket_key (b\<lparr>b_quota := q\<rparr>) (m_buckets m)\<rparr>)),
     lwt_bucket_space = (\<lambda>m k new old. case rows_map bucket_key (m_buckets m) k of
         None \<Rightarrow> (Ok None, m)
       | Some b \<Rightarrow> if (file_count b, space_taken b) = old
           then (Ok (Some (True, old)), m\<lparr>m_buckets := put_row bucket_key (set_space new b) (m_buckets m)\<rparr>)
           else (Ok (Some (False, file_count b, space_taken b)), m)),
     ins_session = (\<lambda>m s. (Ok (), m\<lparr>m_sessions := put_row session_key s (m_sessions m)\<rparr>)),
     del_session = (\<lambda>m k. (Ok (), m\<lparr>m_sessions := drop_row session_key k (m_sessions m)\<rparr>)),
     lwt_session = (\<lambda>m s la. case rows_map session_key (m_sessions m) (session_key s) of
         None \<Rightarrow> (Ok None, m)
       | Some s0 \<Rightarrow> if s_last_access s0 = la
           then (Ok (Some (True, la)), m\<lparr>m_sessions := put_row session_key s (m_sessions m)\<rparr>)
           else (Ok (Some (False, s_last_access s0)), m)),
     file_item = (\<lambda>_ f. Ok f), join_dropped = (\<lambda>_. True)\<rparr>"

lemma mem_cql_sel:
  "sel_file mem_cql = (\<lambda>m k. Ok (rows_map file_key (m_files m) k))"
  "sel_file_by_id mem_cql = (\<lambda>m bi fi. Ok (find (\<lambda>f. f_bucket_id f = bi \<and> f_id f = fi)
       (unique_rows file_key (m_files m))))"
  "sel_files_bucket mem_cql = (\<lambda>m bi. Ok [f \<leftarrow> unique_rows file_key (m_files m). f_bucket_id f = bi])"
  "sel_files_dir mem_cql = (\<lambda>m bi di. Ok [f \<leftarrow> unique_rows file_key (m_files m).
       f_bucket_id f = bi \<and> f_directory f = di])"
  "sel_files_all mem_cql = (\<lambda>m. Ok (unique_rows file_key (m_files m)))"
  "sel_dir mem_cql = (\<lambda>m k. Ok (rows_map dir_key (m_dirs m) k))"
  "sel_dirs_bucket mem_cql = (\<lambda>m bi. Ok [d \<leftarrow> unique_rows dir_key (m_dirs m). d_bucket_id d = bi])"
  "sel_dirs_parent mem_cql = (\<lambda>m bi p. Ok [d \<leftarrow> unique_rows dir_key (m_dirs m).
       d_bucket_id d = bi \<and> d_parent d = p])"
  "sel_bucket mem_cql = (\<lambda>m k. Ok (rows_map bucket_key (m_buckets m) k))"
  "sel_buckets_app mem_cql = (\<lambda>m a. Ok [b \<leftarrow> unique_rows bucket_key (m_buckets m). b_app_id b = a])"
  "sel_session mem_cql = (\<lambda>m k. Ok (rows_map session_key (m_sessions m) k))"
  "sel_sessions_bucket mem_cql = (\<lambda>m a bi. Ok [s \<leftarrow> unique_rows session_key (m_sessions m).
       s_app_id s = a \<and> s_bucket s = bi])"
  "ins_file mem_cql = (\<lambda>m f. (Ok (), m\<lparr>m_files := put_row file_key f (m_files m)\<rparr>))"
  "del_file mem_cql = (\<lambda>m f. (Ok (), m\<lparr>m_files := drop_row file_key (file_key f) (m_files m)\<rparr>))"
  "batch_move_file mem_cql = (\<lambda>m f f'. (Ok (), m\<lparr>m_files :=
       put_row file_key f' (drop_row file_key (file_key f) (m_files m))\<rparr>))"
  "upd_file_chunks mem_cql = (\<lambda>m k cs. (Ok (), case rows_map file_key (m_files m) k of None \<Rightarrow> m
       | Some f \<Rightarrow> m\<lparr>m_files := put_row file_key (f\<lparr>f_chunk_ids := cs\<rparr>) (m_files m)\<rparr>))"
  "ins_dir mem_cql = (\<lambda>m d. (Ok (), m\<lparr>m_dirs := put_row dir_key d (m_dirs m)\<rparr>))"
  "del_dir mem_cql = (\<lambda>m d. (Ok (), m\<lparr>m_dirs := drop_row dir_key (dir_key d) (m_dirs m)\<rparr>))"
  "batch_move_dir mem_cql = (\<lambda>m d d'. (Ok (), m\<lparr>m_dirs :=
       put_row dir_key d' (drop_row dir_key (dir_key d) (m_dirs m))\<rparr>))"
  "ins_bucket mem_cql = (\<lambda>m b. (Ok (), m\<lparr>m_buckets := put_row bucket_key b (m_buckets m)\<rparr>))"
  "del_bucket mem_cql = (\<lambda>m b. (Ok (), m\<lparr>m_buckets := drop_row bucket_key (bucket_key b) (m_buckets m)\<rparr>))"
  "upd_bucket_quota mem_cql = (\<lambda>m k q. (Ok (), case rows_map bucket_key (m_buckets m) k of None \<Rightarrow> m
       | Some b \<Rightarrow> m\<lparr>m_buckets := put_row bucket_key (b\<lparr>b_quota := q\<rparr>) (m_buckets m)\<rparr>))"
  "lwt_bucket_space mem_cql = (\<lambda>m k new old. case rows_map bucket_key (m_buckets m) k of
         None \<Rightarrow> (Ok None, m)
       | Some b \<Rightarrow> if (file_count b, space_taken b) = old
           then (Ok (Some (True, old)), m\<lparr>m_buckets := put_row bucket_key (set_space new b) (m_buckets m)\<rparr>)
           else (Ok (Some (False, file_count b, space_taken b)), m))"
  "ins_session mem_cql = (\<lambda>m s. (Ok (), m\<lparr>m_sessions := put_row session_key s (m_sessions m)\<rparr>))"
  "del_session mem_cql = (\<lambda>m k. (Ok (), m\<lparr>m_sessions := drop_row session_key k (m_sessions m)\<rparr>))"
  "lwt_session mem_cql = (\<lambda>m s la. case rows_map session_key (m_sessions m) (session_key s) of
         None \<Rightarrow> (Ok None, m)
       | Some s0 \<Rightarrow> if s_last_access s0 = la
           then (Ok (Some (True, la)), m\<lparr>m_sessions := put_row session_key s (m_sessions m)\<rparr>)
           else (Ok (Some (False, s_last_access s0)), m))"
  "file_item mem_cql = (\<lambda>_ f. Ok f)"
  "join_dropped mem_cql = (\<lambda>_. True)"
  by (simp_all add: mem_cql_def)

lemmas mem_simps = mem_cql_sel mem_view_def rows_map_put rows_map_drop

lemma bucket_key_set_space [simp]: "bucket_key (set_space v b) = bucket_key b"
  by (simp add: bucket_key_def set_space_def)

lemma file_key_set_chunks [simp]: "file_key (f\<lparr>f_chunk_ids := cs\<rparr>) = file_key f"
  by (simp add: file_key_def)

lemma distinct_map_filter_rows: "distinct (map key rs) \<Longrightarrow> distinct (map key (filter P rs))"
  by (rule distinct_map_filter)

interpretation mem_db: cql_service mem_cql mem_view
proof
  fix db :: mem_db and k f
  show "t_files (mem_view db) k = Some f \<Longrightarrow> file_key f = k"
    by (simp add: mem_view_def, rule rows_map_keyed)
next
  fix db :: mem_db and dk d
  show "t_dirs (mem_view db) dk = Some d \<Longrightarrow> dir_key d = dk"
    by (simp add: mem_view_def, rule rows_map_keyed)
next
  fix db :: mem_db and bk b
  show "t_buckets (mem_view db) bk = Some b \<Longrightarrow> bucket_key b = bk"
    by (simp add: mem_view_def, rule rows_map_keyed)
next
  fix db :: mem_db and sk s
  show "t_sessions (mem_view db) sk = Some s \<Longrightarrow> session_key s = sk"
    by (simp add: mem_view_def, rule rows_map_keyed)
next
  fix db :: mem_db and bi fi fo
  assume "sel_file_by_id mem_cql db bi fi = Ok fo"
  then have fo: "fo = find (\<lambda>f. f_bucket_id f = bi \<and> f_id f = fi) (unique_rows file_key (m_files db))"
    by (simp add: mem_cql_sel)
  show "case fo of None \<Rightarrow> \<forall>k g. t_files (mem_view db) k = Some g \<longrightarrow> f_bucket_id g \<noteq> bi \<or> f_id g \<noteq> fi
       | Some g \<Rightarrow> t_files (mem_view db) (file_key g) = Some g \<and> f_bucket_id g = bi \<and> f_id g = fi"
  proof (cases fo)
    case None
    then have none: "\<forall>g\<in>set (unique_rows file_key (m_files db)). \<not> (f_bucket_id g = bi \<and> f_id g = fi)"
      using fo by (simp add: find_None_iff)
    have "f_bucket_id g \<noteq> bi \<or> f_id g \<noteq> fi" if "rows_map file_key (m_files db) k = Some g" for k g
      using none that rows_map_keyed [OF that] by (auto simp: set_unique_rows)
    with None show ?thesis by (simp add: mem_view_def)
  next
    case (Some g)
    then show ?thesis using find_Some_sat [OF fo [symmetric, unfolded Some]]
      by (simp add: mem_view_def set_unique_rows)
  qed
next
  fix db db' :: mem_db and bk new old x
  assume "lwt_bucket_space mem_cql db bk new old = (Ok (Some (True, x)), db')"
  then show "\<exists>b. t_buckets (mem_view db) bk = Some b \<and> (file_count b, space_taken b) = old \<and>
        mem_view db' = (mem_view db)\<lparr>t_buckets := (t_buckets (mem_view db))(bk \<mapsto> set_space new b)\<rparr>"
    by (cases "rows_map bucket_key (m_buckets db) bk")
      (auto simp: mem_cql_sel mem_view_def rows_map_put dest: rows_map_keyed split: if_splits)
next
  fix db db' :: mem_db and bk new old x
  assume "lwt_bucket_space mem_cql db bk new old = (Ok (Some (False, x)), db')"
  then show "mem_view db' = mem_view db \<and>
      (\<exists>b. t_buckets (mem_view db) bk = Some b \<and> (file_count b, space_taken b) = x \<and> x \<noteq> old)"
    by (cases "rows_map bucket_key (m_buckets db) bk")
      (auto simp: mem_cql_sel mem_view_def split: if_splits)
next
  fix db db' :: mem_db and s la t
  assume "lwt_session mem_cql db s la = (Ok (Some (True, t)), db')"
  then show "(\<exists>s0. t_sessions (mem_view db) (session_key s) = Some s0 \<and> s_last_access s0 = la) \<and>
      mem_view db' = (mem_view db)\<lparr>t_sessions := (t_sessions (mem_view db))(session_key s \<mapsto> s)\<rparr>"
    by (cases "rows_map session_key (m_sessions db) (session_key s)")
      (auto simp: mem_cql_sel mem_view_def rows_map_put split: if_splits)
next
  fix db db' :: mem_db and s la t
  assume "lwt_session mem_cql db s la = (Ok (Some (False, t)), db')"
  then show "mem_view db' = mem_view db \<and>
      (\<exists>s0. t_sessions (mem_view db) (session_key s) = Some s0 \<and> s_last_access s0 = t \<and> t \<noteq> la)"
    by (cases "rows_map session_key (m_sessions db) (session_key s)")
      (auto simp: mem_cql_sel mem_view_def split: if_splits)
next
  fix db db' :: mem_db and s la
  assume "lwt_session mem_cql db s la = (Ok None, db')"
  then show "mem_view db' = mem_view db \<and> t_sessions (mem_view db) (session_key s) = None"
    by (cases "rows_map session_key (m_sessions db) (session_key s)")
      (auto simp: mem_cql_sel mem_view_def split: if_splits)
next
  fix db db' :: mem_db and s la e
  assume "lwt_session mem_cql db s la = (Err e, db')"
  then show "mem_view db' = mem_view db \<or>
      (\<exists>s0. t_sessions (mem_view db) (session_key s) = Some s0 \<and> s_last_access s0 = la) \<and>
      mem_view db' = (mem_view db)\<lparr>t_sessions := (t_sessions (mem_view db))(session_key s \<mapsto> s)\<rparr>"
    by (cases "rows_map session_key (m_sessions db) (session_key s)") (auto simp: mem_cql_sel split: if_splits)
next
  fix db db' :: mem_db and bk new old
  assume "lwt_bucket_space mem_cql db bk new old = (Ok None, db')"
  then show "mem_view db' = mem_view db"
    by (cases "rows_map bucket_key (m_buckets db) bk") (auto simp: mem_cql_sel split: if_splits)
next
  fix db db' :: mem_db and k cs u f
  assume "upd_file_chunks mem_cql db k cs = (Ok u, db')" "t_files (mem_view db) k = Some f"
  then show "mem_view db' = (mem_view db)\<lparr>t_files := (t_files (mem_view db))(k \<mapsto> f\<lparr>f_chunk_ids := cs\<rparr>)\<rparr>"
    using rows_map_keyed [of file_key "m_files db" k f]
    by (auto simp: mem_cql_sel mem_view_def rows_map_put)
qed (auto simp: mem_simps set_unique_rows distinct_unique_rows distinct_map_filter_rows)

lemma mem_lwt_answers:
  "t_buckets (mem_view db) k \<noteq> None \<Longrightarrow>
    \<exists>y db'. lwt_bucket_space mem_cql db k new old = (Ok (Some y), db')"
  by (cases "rows_map bucket_key (m_buckets db) k") (auto simp: mem_cql_sel mem_view_def)

subsection \<open>A database that answers\<close>

text \<open>The requests that only read and write rows succeed on a database that is up.\<close>

locale reliable_cql = cql_service +
  assumes sel_file_up: "\<exists>x. sel_file c db k = Ok x"
    and sel_files_bucket_up: "\<exists>x. sel_files_bucket c db bi = Ok x"
    and sel_files_dir_up: "\<exists>x. sel_files_dir c db bi di = Ok x"
    and sel_bucket_up: "\<exists>x. sel_bucket c db bk = Ok x"
    and sel_sessions_bucket_up: "\<exists>x. sel_sessions_bucket c db ai bi = Ok x"
    and sel_dir_up: "\<exists>x. sel_dir c db dk = Ok x"
    and sel_dirs_bucket_up: "\<exists>x. sel_dirs_bucket c db bi = Ok x"
    and sel_dirs_parent_up: "\<exists>x. sel_dirs_parent c db bi p = Ok x"
    and ins_dir_up: "\<exists>db'. ins_dir c db d = (Ok (), db')"
    and del_dir_up: "\<exists>db'. del_dir c db d = (Ok (), db')"
    and batch_move_dir_up: "\<exists>db'. batch_move_dir c db d d' = (Ok (), db')"
    and del_file_up: "\<exists>db'. del_file c db f = (Ok (), db')"
    and batch_move_file_up: "\<exists>db'. batch_move_file c db f f' = (Ok (), db')"
    and ins_file_up: "\<exists>db'. ins_file c db f = (Ok (), db')"
    and lwt_space_up: "t_buckets (view db) bk \<noteq> None \<Longrightarrow> \<exists>y db'. lwt_bucket_space c db bk new old = (Ok (Some y), db')"
    and ins_session_up: "\<exists>db'. ins_session c db s = (Ok (), db')"
    and del_session_up: "\<exists>db'. del_session c db sk = (Ok (), db')"
    and lwt_session_up: "t_sessions (view db) (session_key s) \<noteq> None \<Longrightarrow> \<exists>y db'. lwt_session c db s la = (Ok (Some y), db')"
    and file_item_up: "file_item c db f = Ok f"

interpretation mem_up: reliable_cql mem_cql mem_view
  by unfold_locales (auto simp: mem_cql_sel mem_view_def split: option.splits)

end
