(* ===== verification/File_Access.thy ===== *)
theory File_Access
  imports Database
begin

section \<open>Data access for files, directories, buckets and upload sessions\<close>

text \<open>
  \<open>data/src/access/file_access.rs\<close>, one definition per function, over the statements of
  \<open>Database\<close>. A \<open>find\<close> that must yield a row turns a missing one into
  \<open>NotFound\<close>; a stream is the list of its rows.

  \<open>update_bucket_space\<close> is a compare-and-set loop on a row other nodes write too: the
  argument \<open>others n\<close> is what they do to the database between two attempts. The lemmas show
  that it never loses an update, and that \<open>insert_file\<close> and \<open>delete_file\<close> keep the two
  counters of a bucket equal to the number and the total size of its files.
\<close>

definition ROOT_DIR :: uuid where "ROOT_DIR = 0"

definition DID_of :: "Directory option \<Rightarrow> uuid option" where
  "DID_of dir = map_option d_id dir"

definition found :: "'r option data_result \<Rightarrow> 'r data_result" where
  "found r = and_then r (\<lambda>row. case row of None \<Rightarrow> Err DataNotFound | Some x \<Rightarrow> Ok x)"

definition first_row :: "'r list data_result \<Rightarrow> 'r option data_result" where
  "first_row r = and_then r (\<lambda>rows. Ok (case rows of [] \<Rightarrow> None | x # _ \<Rightarrow> Some x))"

definition page :: "u64 \<Rightarrow> u64 \<Rightarrow> 'r list \<Rightarrow> 'r list" where
  "page start_at end_at rows = take (unat (end_at - start_at)) (drop (unat start_at) rows)"

definition or_root :: "uuid option \<Rightarrow> uuid" where
  "or_root dir = (case dir of None \<Rightarrow> ROOT_DIR | Some i \<Rightarrow> i)"

definition get_directory :: "'db cql \<Rightarrow> 'db \<Rightarrow> uuid \<Rightarrow> string option \<Rightarrow> Directory option data_result" where
  "get_directory c db bucket_id path =
    (case path of
       None \<Rightarrow> Ok None
     | Some p \<Rightarrow>
         (let sp = split_path p in
          and_then (found (sel_dir c db (bucket_id, (case fst sp of None \<Rightarrow> [] | Some q \<Rightarrow> q), snd sp)))
            (\<lambda>d. Ok (Some d))))"

definition insert_bucket :: "'db cql \<Rightarrow> Bucket \<Rightarrow> 'db \<Rightarrow> unit data_result \<times> 'db" where
  "insert_bucket c bucket db = ins_bucket c db bucket"

definition maybe_get_first_bucket :: "'db cql \<Rightarrow> 'db \<Rightarrow> uuid \<Rightarrow> Bucket option data_result" where
  "maybe_get_first_bucket c db app_id = first_row (sel_buckets_app c db app_id)"

definition get_buckets :: "'db cql \<Rightarrow> 'db \<Rightarrow> uuid \<Rightarrow> Bucket list data_result" where
  "get_buckets c db app_id = sel_buckets_app c db app_id"

definition insert_directory :: "'db cql \<Rightarrow> Directory \<Rightarrow> 'db \<Rightarrow> unit data_result \<times> 'db" where
  "insert_directory c directory db = ins_dir c db directory"

definition get_directories_from_bucket :: "'db cql \<Rightarrow> 'db \<Rightarrow> uuid \<Rightarrow> Directory list data_result" where
  "get_directories_from_bucket c db bucket_id = sel_dirs_bucket c db bucket_id"

definition get_directories_from_bucket_paginated ::
    "'db cql \<Rightarrow> 'db \<Rightarrow> uuid \<Rightarrow> u64 \<Rightarrow> u64 \<Rightarrow> Directory list data_result" where
  "get_directories_from_bucket_paginated c db bucket_id start_at end_at =
    and_then (sel_dirs_bucket c db bucket_id) (\<lambda>rows. Ok (page start_at end_at rows))"

text \<open>A stream of files: each item is a row or the error that took its place.\<close>

definition stream_of_files :: "'db cql \<Rightarrow> 'db \<Rightarrow> File list data_result \<Rightarrow> File data_result list data_result" where
  "stream_of_files c db r = and_then r (\<lambda>rows. Ok (map (file_item c db) rows))"

definition get_files_from_bucket :: "'db cql \<Rightarrow> 'db \<Rightarrow> uuid \<Rightarrow> File data_result list data_result" where
  "get_files_from_bucket c db bucket_id = stream_of_files c db (sel_files_bucket c db bucket_id)"

definition get_files_from_bucket_paginated ::
    "'db cql \<Rightarrow> 'db \<Rightarrow> uuid \<Rightarrow> u64 \<Rightarrow> u64 \<Rightarrow> File data_result list data_result" where
  "get_files_from_bucket_paginated c db bucket_id start_at end_at =
    and_then (stream_of_files c db (sel_files_bucket c db bucket_id)) (\<lambda>rows. Ok (page start_at end_at rows))"

definition get_files_from_bucket_and_directory ::
    "'db cql \<Rightarrow> 'db \<Rightarrow> uuid \<Rightarrow> uuid option \<Rightarrow> File data_result list data_result" where
  "get_files_from_bucket_and_directory c db bucket_id directory =
    stream_of_files c db (sel_files_dir c db bucket_id (or_root directory))"

definition get_files_from_bucket_and_directory_paginated ::
    "'db cql \<Rightarrow> 'db \<Rightarrow> uuid \<Rightarrow> uuid option \<Rightarrow> u64 \<Rightarrow> u64 \<Rightarrow> File data_result list data_result" where
  "get_files_from_bucket_and_directory_paginated c db bucket_id directory start_at end_at =
    and_then (stream_of_files c db (sel_files_dir c db bucket_id (or_root directory)))
      (\<lambda>rows. Ok (page start_at end_at rows))"

definition maybe_get_first_file_from_directory ::
    "'db cql \<Rightarrow> 'db \<Rightarrow> uuid \<Rightarrow> uuid option \<Rightarrow> File option data_result" where
  "maybe_get_first_file_from_directory c db bucket_id directory =
    first_row (sel_files_dir c db bucket_id (or_root directory))"

definition maybe_get_first_child_from_directory ::
    "'db cql \<Rightarrow> 'db \<Rightarrow> uuid \<Rightarrow> string option \<Rightarrow> Directory option data_result" where
  "maybe_get_first_child_from_directory c db bucket_id directory =
    first_row (sel_dirs_parent c db bucket_id (case directory of None \<Rightarrow> [] | Some p \<Rightarrow> p))"

definition get_sub_dirs :: "'db cql \<Rightarrow> 'db \<Rightarrow> uuid \<Rightarrow> string \<Rightarrow> Directory list data_result" where
  "get_sub_dirs c db bucket_id path = sel_dirs_parent c db bucket_id path"

definition get_all_files :: "'db cql \<Rightarrow> 'db \<Rightarrow> File list data_result" where
  "get_all_files c db = sel_files_all c db"

definition maybe_get_file_by_id :: "'db cql \<Rightarrow> 'db \<Rightarrow> uuid \<Rightarrow> uuid \<Rightarrow> File option data_result" where
  "maybe_get_file_by_id c db bucket_id file_id = sel_file_by_id c db bucket_id file_id"

definition get_file :: "'db cql \<Rightarrow> 'db \<Rightarrow> uuid \<Rightarrow> uuid option \<Rightarrow> string \<Rightarrow> File data_result" where
  "get_file c db bucket_id directory name = found (sel_file c db (bucket_id, or_root directory, name))"

definition get_file_dir ::
    "'db cql \<Rightarrow> 'db \<Rightarrow> uuid \<Rightarrow> string option \<Rightarrow> string \<Rightarrow> (File \<times> Directory option) data_result" where
  "get_file_dir c db bucket_id directory name =
    and_then (get_directory c db bucket_id directory) (\<lambda>dir.
      and_then (found (sel_file c db (bucket_id, (case dir of Some d \<Rightarrow> d_id d | None \<Rightarrow> ROOT_DIR), name)))
        (\<lambda>file. Ok (file, dir)))"

definition maybe_get_file_dir ::
    "'db cql \<Rightarrow> 'db \<Rightarrow> uuid \<Rightarrow> string option \<Rightarrow> string
      \<Rightarrow> (File option \<times> Directory option) data_result" where
  "maybe_get_file_dir c db bucket_id directory name =
    and_then (get_directory c db bucket_id directory) (\<lambda>dir.
      and_then (sel_file c db (bucket_id, (case dir of Some d \<Rightarrow> d_id d | None \<Rightarrow> ROOT_DIR), name))
        (\<lambda>file. Ok (file, dir)))"

definition update_file_path ::
    "'db cql \<Rightarrow> timestamp \<Rightarrow> File \<Rightarrow> uuid option \<Rightarrow> string \<Rightarrow> 'db \<Rightarrow> File data_result \<times> 'db" where
  "update_file_path c utc_now file directory name db =
    (let new_file = file\<lparr>f_directory := (case directory of None \<Rightarrow> 0 | Some d \<Rightarrow> d),
                         f_name := name, f_last_modified := utc_now\<rparr>
     in case batch_move_file c db file new_file of
          (Err e, db') \<Rightarrow> (Err e, db')
        | (Ok _, db') \<Rightarrow> (Ok new_file, db'))"

definition update_file_chunks :: "'db cql \<Rightarrow> File \<Rightarrow> 'db \<Rightarrow> unit data_result \<times> 'db" where
  "update_file_chunks c file db = upd_file_chunks c db (file_key file) (f_chunk_ids file)"

definition update_directory_path ::
    "'db cql \<Rightarrow> Directory \<Rightarrow> string option \<Rightarrow> string \<Rightarrow> 'db \<Rightarrow> Directory data_result \<times> 'db" where
  "update_directory_path c directory parent name db =
    (let new_dir = directory\<lparr>d_parent := (case parent of None \<Rightarrow> [] | Some p \<Rightarrow> p), d_name := name\<rparr>
     in case batch_move_dir c db directory new_dir of
          (Err e, db') \<Rightarrow> (Err e, db')
        | (Ok _, db') \<Rightarrow> (Ok new_dir, db'))"

definition delete_directory :: "'db cql \<Rightarrow> Directory \<Rightarrow> 'db \<Rightarrow> unit data_result \<times> 'db" where
  "delete_directory c directory db = del_dir c db directory"

definition get_bucket :: "'db cql \<Rightarrow> 'db \<Rightarrow> uuid \<Rightarrow> uuid \<Rightarrow> Bucket data_result" where
  "get_bucket c db app_id i = found (sel_bucket c db (app_id, i))"

definition delete_bucket :: "'db cql \<Rightarrow> Bucket \<Rightarrow> 'db \<Rightarrow> unit data_result \<times> 'db" where
  "delete_bucket c bucket db = del_bucket c db bucket"

definition QUERY_ATTEMPTS :: nat where "QUERY_ATTEMPTS = 2048"

fun bucket_space_loop ::
    "'db cql \<Rightarrow> (nat \<Rightarrow> 'db \<Rightarrow> 'db) \<Rightarrow> nat \<Rightarrow> Bucket \<Rightarrow> i64 \<Rightarrow> i64 \<Rightarrow> 'db \<Rightarrow> unit data_result \<times> 'db" where
  "bucket_space_loop c others 0 bucket count_delta space_delta db = (Err UnknownFailure, db)"
| "bucket_space_loop c others (Suc n) bucket count_delta space_delta db =
    (case lwt_bucket_space c (others n db) (bucket_key bucket)
        (i64_add (file_count bucket) count_delta, i64_add (space_taken bucket) space_delta)
        (file_count bucket, space_taken bucket) of
       (Err e, db') \<Rightarrow> (Err e, db')
     | (Ok None, db') \<Rightarrow> bucket_space_loop c others n bucket count_delta space_delta db'
     | (Ok (Some (applied, count, space)), db') \<Rightarrow>
         if applied then (Ok (), db')
         else bucket_space_loop c others n (bucket\<lparr>space_taken := space, file_count := count\<rparr>)
                count_delta space_delta db')"

definition update_bucket_space ::
    "'db cql \<Rightarrow> (nat \<Rightarrow> 'db \<Rightarrow> 'db) \<Rightarrow> Bucket \<Rightarrow> i64 \<Rightarrow> i64 \<Rightarrow> 'db \<Rightarrow> unit data_result \<times> 'db" where
  "update_bucket_space c others bucket count_delta space_delta db =
    bucket_space_loop c others QUERY_ATTEMPTS bucket count_delta space_delta db"

text \<open>The two statements of a \<open>try_join!\<close> run concurrently; they touch different tables, and the
  first error is the result.\<close>

text \<open>\<open>try_join!\<close> runs both statements at the same time. When both succeed their order does not
  matter here, as they write different tables; when one fails the other is dropped, after it has
  taken effect or before.\<close>

definition try_join ::
    "'db cql \<Rightarrow> ('db \<Rightarrow> unit data_result \<times> 'db) \<Rightarrow> ('db \<Rightarrow> unit data_result \<times> 'db) \<Rightarrow> 'db
      \<Rightarrow> unit data_result \<times> 'db" where
  "try_join c row space db =
    (case row db of
       (Err e, db1) \<Rightarrow> (Err e, if join_dropped c db then db1 else snd (space db1))
     | (Ok _, db1) \<Rightarrow>
         (case space db1 of
            (Ok _, db2) \<Rightarrow> (Ok (), db2)
          | (Err e, db2) \<Rightarrow> (Err e, if join_dropped c db then snd (space db) else db2)))"

definition delete_file ::
    "'db cql \<Rightarrow> (nat \<Rightarrow> 'db \<Rightarrow> 'db) \<Rightarrow> File \<Rightarrow> Bucket \<Rightarrow> 'db \<Rightarrow> unit data_result \<times> 'db" where
  "delete_file c others file bucket =
    try_join c (\<lambda>db. del_file c db file)
      (update_bucket_space c others bucket (-1) (wrap_i64 (- f_size file)))"

definition insert_file ::
    "'db cql \<Rightarrow> (nat \<Rightarrow> 'db \<Rightarrow> 'db) \<Rightarrow> File \<Rightarrow> Bucket \<Rightarrow> 'db \<Rightarrow> unit data_result \<times> 'db" where
  "insert_file c others file bucket =
    try_join c (\<lambda>db. ins_file c db file) (update_bucket_space c others bucket 1 (f_size file))"

definition update_bucket_quota :: "'db cql \<Rightarrow> Bucket \<Rightarrow> 'db \<Rightarrow> unit data_result \<times> 'db" where
  "update_bucket_quota c bucket db = upd_bucket_quota c db (bucket_key bucket) (b_quota bucket)"

definition insert_upload_session :: "'db cql \<Rightarrow> BucketUploadSession \<Rightarrow> 'db \<Rightarrow> unit data_result \<times> 'db" where
  "insert_upload_session c session db = ins_session c db session"

definition get_upload_session :: "'db cql \<Rightarrow> 'db \<Rightarrow> uuid \<Rightarrow> uuid \<Rightarrow> uuid \<Rightarrow> BucketUploadSession data_result" where
  "get_upload_session c db app_id bucket i = found (sel_session c db (app_id, bucket, i))"

definition get_upload_sessions ::
    "'db cql \<Rightarrow> 'db \<Rightarrow> uuid \<Rightarrow> uuid \<Rightarrow> BucketUploadSession list data_result" where
  "get_upload_sessions c db app_id bucket = sel_sessions_bucket c db app_id bucket"

definition delete_upload_session :: "'db cql \<Rightarrow> BucketUploadSession \<Rightarrow> 'db \<Rightarrow> unit data_result \<times> 'db" where
  "delete_upload_session c session db = del_session c db (session_key session)"

definition delete_upload_session_by ::
    "'db cql \<Rightarrow> uuid \<Rightarrow> uuid \<Rightarrow> uuid \<Rightarrow> 'db \<Rightarrow> unit data_result \<times> 'db" where
  "delete_upload_session_by c app_id bucket_id i db = del_session c db (app_id, bucket_id, i)"

text \<open>The session is passed by mutable reference, so its last access is part of the result, on the
  error paths too.\<close>

definition try_update_upload_session ::
    "'db cql \<Rightarrow> timestamp \<Rightarrow> BucketUploadSession \<Rightarrow> 'db
      \<Rightarrow> unit data_result \<times> BucketUploadSession \<times> 'db" where
  "try_update_upload_session c utc_now upload_session db =
    (let last_access = s_last_access upload_session;
         updated = upload_session\<lparr>s_last_access := utc_now\<rparr>
     in case lwt_session c db updated last_access of
          (Err e, db') \<Rightarrow> (Err e, updated, db')
        | (Ok None, db') \<Rightarrow> (Err LockingError, updated, db')
        | (Ok (Some (applied, db_last_access)), db') \<Rightarrow>
            if applied then (Ok (), updated, db')
            else (Err LockingError, updated\<lparr>s_last_access := db_last_access\<rparr>, db'))"

subsection \<open>The compare-and-set loop\<close>

definition counters :: "tables \<Rightarrow> bucket_key \<Rightarrow> (i64 \<times> i64) option" where
  "counters t k = map_option (\<lambda>b. (file_count b, space_taken b)) (t_buckets t k)"

definition add_counters :: "i64 \<times> i64 \<Rightarrow> i64 \<times> i64 \<Rightarrow> i64 \<times> i64" where
  "add_counters x d = (i64_add (fst x) (fst d), i64_add (snd x) (snd d))"

lemma wrap_i64_add_left: "wrap_i64 (wrap_i64 a + b) = wrap_i64 (a + b)"
  by (simp add: wrap_i64_def)

lemma wrap_i64_diff_left: "wrap_i64 (wrap_i64 a - b) = wrap_i64 (a - b)"
  using wrap_i64_add_left [of a "- b"] by simp

lemma wrap_i64_add_right: "wrap_i64 (a + wrap_i64 b) = wrap_i64 (a + b)"
  by (simp add: wrap_i64_def)

context cql_service
begin

lemma lwt_applied:
  assumes "lwt_bucket_space c db k new old = (Ok (Some (True, x)), db')"
  shows "counters (view db) k = Some old" "counters (view db') k = Some new"
    "t_files (view db') = t_files (view db) \<and> t_dirs (view db') = t_dirs (view db)
      \<and> t_sessions (view db') = t_sessions (view db)"
  using lwt_space_ok [OF assms] by (auto simp: counters_def set_space_def)

lemma space_loop_adds:
  assumes "\<And>n db x. counters (view db) k = Some x \<Longrightarrow>
      counters (view (others n db)) k = Some (og n x)"
    and "counters (view db) k = Some x" "bucket_key b = k"
    and "bucket_space_loop c others n b dc ds db = (Ok (), db')"
  shows "\<exists>m < n. counters (view db') k
      = Some (add_counters (foldl (\<lambda>y j. og j y) x (rev [m..<n])) (dc, ds))"
  using assms(2-)
proof (induction n arbitrary: b db x)
  case (Suc n)
  let ?new = "(i64_add (file_count b) dc, i64_add (space_taken b) ds)"
  let ?old = "(file_count b, space_taken b)"
  obtain r db1 where lwt: "lwt_bucket_space c (others n db) k ?new ?old = (r, db1)" by fastforce
  have before: "counters (view (others n db)) k = Some (og n x)"
    using assms(1) Suc.prems(1) by blast
  have retry: "\<exists>m < Suc n. counters (view db') k
      = Some (add_counters (foldl (\<lambda>y j. og j y) x (rev [m..<Suc n])) (dc, ds))"
    if "view db1 = view (others n db)" "bucket_key b' = k"
      "bucket_space_loop c others n b' dc ds db1 = (Ok (), db')" for b'
  proof -
    have "counters (view db1) k = Some (og n x)" using that(1) before by simp
    from Suc.IH [OF this that(2,3)] obtain m where m: "m < n" "counters (view db') k
        = Some (add_counters (foldl (\<lambda>y j. og j y) (og n x) (rev [m..<n])) (dc, ds))"
      by blast
    then show ?thesis by (intro exI [of _ m]) simp
  qed
  show ?case
  proof (cases r)
    case (Ok row)
    show ?thesis
    proof (cases row)
      case None
      then show ?thesis
        using retry [of b] lwt_space_none Suc.prems(2,3) lwt Ok by simp
    next
      case (Some y)
      obtain ap x1 x2 where y: "y = (ap, x1, x2)" by (cases y)
      show ?thesis
      proof (cases ap)
        case True
        then have "counters (view (others n db)) k = Some ?old" "counters (view db') k = Some ?new"
          using lwt_applied lwt Ok Some y Suc.prems(2,3) by auto
        moreover from this before have "og n x = ?old" by simp
        ultimately show ?thesis by (intro exI [of _ n]) (simp add: add_counters_def)
      next
        case False
        then show ?thesis
          using retry [of "b\<lparr>space_taken := x2, file_count := x1\<rparr>"]
            lwt_space_no [of "others n db" k ?new ?old "(x1, x2)" db1]
            Suc.prems(2,3) lwt Ok Some y by (auto simp: bucket_key_def)
      qed
    qed
  qed (use Suc.prems(2,3) lwt in simp)
qed simp

lemma space_loop_uncontended:
  assumes quiet: "\<And>n db. view (others n db) = view db"
    and answers: "\<And>db k new old. t_buckets (view db) k \<noteq> None \<Longrightarrow>
      \<exists>y db'. lwt_bucket_space c db k new old = (Ok (Some y), db')"
    and "counters (view db) (bucket_key b) = Some x" "2 \<le> n"
  shows "\<exists>db'. bucket_space_loop c others n b dc ds db = (Ok (), db')
    \<and> counters (view db') (bucket_key b) = Some (add_counters x (dc, ds))
    \<and> t_files (view db') = t_files (view db) \<and> t_dirs (view db') = t_dirs (view db)
      \<and> t_sessions (view db') = t_sessions (view db)"
proof -
  let ?k = "bucket_key b"
  have one: "\<exists>db'. bucket_space_loop c others (Suc m) b' dc ds db1 = (Ok (), db')
      \<and> counters (view db') ?k = Some (add_counters x (dc, ds))
      \<and> t_files (view db') = t_files (view db) \<and> t_dirs (view db') = t_dirs (view db)
      \<and> t_sessions (view db') = t_sessions (view db)"
    if "counters (view db1) ?k = Some x" "(file_count b', space_taken b') = x" "bucket_key b' = ?k"
      "t_files (view db1) = t_files (view db) \<and> t_dirs (view db1) = t_dirs (view db)
      \<and> t_sessions (view db1) = t_sessions (view db)" for m b' db1
  proof -
    have "t_buckets (view (others m db1)) ?k \<noteq> None"
      using that(1) quiet by (auto simp: counters_def)
    then obtain ap y db' where lwt: "lwt_bucket_space c (others m db1) ?k
        (i64_add (file_count b') dc, i64_add (space_taken b') ds)
        (file_count b', space_taken b') = (Ok (Some (ap, y)), db')"
      using answers by (metis surj_pair)
    have "ap"
    proof (rule ccontr)
      assume "\<not> ap"
      with lwt have "lwt_bucket_space c (others m db1) ?k
        (i64_add (file_count b') dc, i64_add (space_taken b') ds)
        (file_count b', space_taken b') = (Ok (Some (False, y)), db')" by simp
      from lwt_space_no [OF this] that(1,2) quiet show False by (auto simp: counters_def)
    qed
    then show ?thesis
      using lwt lwt_applied(2,3) [of "others m db1" ?k] that quiet
      by (cases y) (auto simp: add_counters_def)
  qed
  obtain m where n: "n = Suc (Suc m)" using assms(4) by (metis Suc_le_D add_2_eq_Suc le_Suc_ex)
  have "t_buckets (view (others (Suc m) db)) ?k \<noteq> None"
    using assms(3) quiet by (auto simp: counters_def)
  then obtain ap x1 x2 db1 where lwt: "lwt_bucket_space c (others (Suc m) db) ?k
      (i64_add (file_count b) dc, i64_add (space_taken b) ds)
      (file_count b, space_taken b) = (Ok (Some (ap, x1, x2)), db1)"
    using answers by (metis surj_pair)
  show ?thesis
  proof (cases ap)
    case True
    then have "counters (view db) ?k = Some (file_count b, space_taken b)"
      using lwt lwt_applied(1) [of "others (Suc m) db"] quiet by auto
    with assms(3) one [of db b "Suc m"] n show ?thesis by simp
  next
    case False
    then have "view db1 = view db" "(x1, x2) = x"
      using lwt lwt_space_no [of "others (Suc m) db" ?k] quiet assms(3) by (auto simp: counters_def)
    with one [of db1 "b\<lparr>space_taken := x2, file_count := x1\<rparr>" m] assms(3) lwt False n show ?thesis
      by (auto simp: bucket_key_def)
  qed
qed

end

text \<open>C19. The counters of a bucket lose no update. Whatever other nodes do to the counters between
  the attempts of \<open>update_bucket_space\<close> (\<open>og j\<close> is their effect before attempt \<open>j\<close>), when
  the call succeeds the counters are the value the others left, all their updates included, plus
  the two deltas of this call, added exactly once.\<close>

theorem update_bucket_space_no_lost_update:
  assumes "cql_service c view"
    and "\<And>n db x. counters (view db) (bucket_key b) = Some x \<Longrightarrow>
      counters (view (others n db)) (bucket_key b) = Some (og n x)"
    and "counters (view db) (bucket_key b) = Some x"
    and "update_bucket_space c others b dc ds db = (Ok (), db')"
  shows "\<exists>m < QUERY_ATTEMPTS. counters (view db') (bucket_key b)
      = Some (add_counters (foldl (\<lambda>y j. og j y) x (rev [m..<QUERY_ATTEMPTS])) (dc, ds))"
  using cql_service.space_loop_adds [OF assms(1-3) refl] assms(4)
  by (simp add: update_bucket_space_def)

definition sample_bucket :: Bucket where
  "sample_bucket = \<lparr>b_app_id = 1, b_id = 2, b_name = ''b'', encrypted = False, atomic_upload = False,
     b_quota = 1000, file_count = 3, space_taken = 30, b_created = 0, b_last_modified = 0\<rparr>"

definition sample_db :: "Bucket list \<Rightarrow> mem_db" where
  "sample_db bs = \<lparr>m_files = [], m_dirs = [], m_buckets = bs, m_sessions = []\<rparr>"

lemma QUERY_ATTEMPTS_Suc: "QUERY_ATTEMPTS = Suc (Suc 2046)"
  by (simp add: QUERY_ATTEMPTS_def)

theorem update_bucket_space_no_lost_update_witness:
  "\<exists>m < QUERY_ATTEMPTS. counters (mem_view (snd (update_bucket_space mem_cql (\<lambda>_ db. db)
       (sample_bucket\<lparr>space_taken := 7\<rparr>) 1 5 (sample_db [sample_bucket])))) (1, 2)
     = Some (add_counters (foldl (\<lambda>y j. y) (3, 30) (rev [m..<QUERY_ATTEMPTS])) (1, 5))"
proof -
  let ?b = "sample_bucket\<lparr>space_taken := 7\<rparr>"
  have k: "bucket_key ?b = (1, 2)" by (simp add: bucket_key_def sample_bucket_def)
  have start: "counters (mem_view (sample_db [sample_bucket])) (bucket_key ?b) = Some (3, 30)"
    unfolding k by (simp add: counters_def mem_view_def sample_db_def rows_map_def bucket_key_def
        sample_bucket_def)
  have "fst (bucket_space_loop mem_cql (\<lambda>_ db. db) (Suc (Suc m)) ?b 1 5 (sample_db [sample_bucket])) = Ok ()" for m
    by (simp add: mem_cql_sel sample_db_def rows_map_def bucket_key_def sample_bucket_def)
  then have ok: "update_bucket_space mem_cql (\<lambda>_ db. db) ?b 1 5 (sample_db [sample_bucket])
      = (Ok (), snd (update_bucket_space mem_cql (\<lambda>_ db. db) ?b 1 5 (sample_db [sample_bucket])))"
    unfolding update_bucket_space_def QUERY_ATTEMPTS_Suc by (metis prod.collapse)
  show ?thesis
    using update_bucket_space_no_lost_update [OF mem_db.cql_service_axioms _ start ok, of "\<lambda>_ y. y"]
    by (simp add: k)
qed

subsection \<open>The counters of a bucket count its files\<close>

definition bucket_files :: "tables \<Rightarrow> uuid \<Rightarrow> File set" where
  "bucket_files t i = {f. t_files t (file_key f) = Some f \<and> f_bucket_id f = i}"

definition bucket_consistent :: "tables \<Rightarrow> bucket_key \<Rightarrow> bool" where
  "bucket_consistent t k \<longleftrightarrow> finite (bucket_files t (snd k)) \<and>
     counters t k = Some (wrap_i64 (int (card (bucket_files t (snd k)))),
       wrap_i64 (\<Sum>f\<in>bucket_files t (snd k). f_size f))"

lemma bucket_files_insert:
  "t_files t (file_key f) = None \<Longrightarrow>
    bucket_files (t\<lparr>t_files := (t_files t)(file_key f \<mapsto> f)\<rparr>) (f_bucket_id f)
      = insert f (bucket_files t (f_bucket_id f))"
  by (auto simp: bucket_files_def file_key_def)

lemma bucket_files_delete:
  "t_files t (file_key f) = Some f \<Longrightarrow>
    bucket_files (t\<lparr>t_files := (t_files t)(file_key f := None)\<rparr>) (f_bucket_id f)
      = bucket_files t (f_bucket_id f) - {f}"
  by (auto simp: bucket_files_def)

lemma counters_files [simp]: "counters (t\<lparr>t_files := x\<rparr>) k = counters t k"
  by (simp add: counters_def)

lemma bucket_files_cong: "t_files t' = t_files t \<Longrightarrow> bucket_files t' i = bucket_files t i"
  by (simp add: bucket_files_def)

text \<open>C17. Storing and removing a file keeps the accounting of its bucket. If the file and space
  counters of a bucket equal the number and the total size of its rows, and no other node writes
  to it meanwhile, then inserting a file under an unused path, or deleting a stored file, leaves
  them equal again (as 64-bit integers).\<close>

theorem bucket_accounting:
  assumes svc: "cql_service c view"
    and quiet: "\<And>n db. view (others n db) = view db"
    and answers: "\<And>db k new old. t_buckets (view db) k \<noteq> None \<Longrightarrow>
      \<exists>y db'. lwt_bucket_space c db k new old = (Ok (Some y), db')"
    and cons: "bucket_consistent (view db) (bucket_key b)" and b: "f_bucket_id f = b_id b"
  shows "(t_files (view db) (file_key f) = None \<and> insert_file c others f b db = (Ok (), db') \<longrightarrow>
        bucket_consistent (view db') (bucket_key b))
    \<and> (t_files (view db) (file_key f) = Some f \<and> delete_file c others f b db = (Ok (), db') \<longrightarrow>
        bucket_consistent (view db') (bucket_key b))"
proof -
  let ?k = "bucket_key b" and ?F = "bucket_files (view db) (b_id b)"
  have k: "snd ?k = b_id b" by (simp add: bucket_key_def)
  from cons have fin: "finite ?F" and cnt: "counters (view db) ?k
      = Some (wrap_i64 (int (card ?F)), wrap_i64 (\<Sum>f\<in>?F. f_size f))"
    by (simp_all add: bucket_consistent_def k)
  have upd: "counters (view db2) ?k = Some (add_counters x (dc, ds)) \<and> t_files (view db2) = t_files (view db1)"
    if "counters (view db1) ?k = Some x" "update_bucket_space c others b dc ds db1 = (Ok (), db2)"
    for db1 db2 x dc ds
    using cql_service.space_loop_uncontended
        [where others = others and n = QUERY_ATTEMPTS and dc = dc and ds = ds,
          OF svc quiet answers that(1)]
      that(2) by (simp add: update_bucket_space_def QUERY_ATTEMPTS_def)
  have ins: "bucket_consistent (view db') ?k"
    if new: "t_files (view db) (file_key f) = None" and ok: "insert_file c others f b db = (Ok (), db')"
  proof -
    obtain u db1 where i1: "ins_file c db f = (Ok u, db1)"
      and i2: "update_bucket_space c others b 1 (f_size f) db1 = (Ok (), db')"
      using ok by (auto simp: insert_file_def try_join_def split: prod.splits result.splits)
    have v1: "view db1 = (view db)\<lparr>t_files := (t_files (view db))(file_key f \<mapsto> f)\<rparr>"
      using cql_service.ins_file_ok [OF svc i1] .
    have c1: "counters (view db1) ?k = Some (wrap_i64 (int (card ?F)), wrap_i64 (sum f_size ?F))"
      by (simp add: v1 cnt)
    note u = upd [OF c1 i2]
    have F: "bucket_files (view db') (b_id b) = insert f ?F"
      using bucket_files_cong [OF conjunct2 [OF u]] v1 bucket_files_insert [OF new] b by simp
    have "f \<notin> ?F" using new by (simp add: bucket_files_def)
    then show ?thesis
      using conjunct1 [OF u] fin F
      by (simp add: bucket_consistent_def k add_counters_def i64_add_def wrap_i64_add_left)
        (simp add: add.commute)
  qed
  have del: "bucket_consistent (view db') ?k"
    if old: "t_files (view db) (file_key f) = Some f" and ok: "delete_file c others f b db = (Ok (), db')"
  proof -
    obtain u db1 where i1: "del_file c db f = (Ok u, db1)"
      and i2: "update_bucket_space c others b (-1) (wrap_i64 (- f_size f)) db1 = (Ok (), db')"
      using ok by (auto simp: delete_file_def try_join_def split: prod.splits result.splits)
    have v1: "view db1 = (view db)\<lparr>t_files := (t_files (view db))(file_key f := None)\<rparr>"
      using cql_service.del_file_ok [OF svc i1] .
    have c1: "counters (view db1) ?k = Some (wrap_i64 (int (card ?F)), wrap_i64 (sum f_size ?F))"
      by (simp add: v1 cnt)
    note u = upd [OF c1 i2]
    have F: "bucket_files (view db') (b_id b) = ?F - {f}"
      using bucket_files_cong [OF conjunct2 [OF u]] v1 bucket_files_delete [OF old] b by simp
    have f: "f \<in> ?F" using old b by (simp add: bucket_files_def)
    then have "card ?F = Suc (card (?F - {f}))" using fin by (rule card.remove [rotated])
    then have "int (card (?F - {f})) = int (card ?F) - 1" by simp
    moreover have "sum f_size (?F - {f}) = sum f_size ?F - f_size f"
      using fin f by (simp add: sum_diff1)
    ultimately have "int (card (?F - {f})) = int (card ?F) - 1"
      "sum f_size (?F - {f}) = sum f_size ?F - f_size f" by blast+
    then show ?thesis
      using conjunct1 [OF u] fin F
      by (simp add: bucket_consistent_def k add_counters_def i64_add_def wrap_i64_add_left
          wrap_i64_add_right wrap_i64_diff_left)
  qed
  from ins del show ?thesis by blast
qed

definition sample_file :: File where
  "sample_file = \<lparr>f_bucket_id = 2, f_directory = 0, f_name = ''a.txt'', f_id = 9, f_size = 5,
     f_chunk_ids = [], f_created = 0, f_last_modified = 0\<rparr>"

theorem bucket_accounting_witness:
  "let b = sample_bucket\<lparr>file_count := 0, space_taken := 0\<rparr>;
       db' = snd (insert_file mem_cql (\<lambda>_ db. db) sample_file b (sample_db [b]))
   in bucket_consistent (mem_view db') (1, 2)"
proof -
  let ?b = "sample_bucket\<lparr>file_count := 0, space_taken := 0\<rparr>"
  let ?r = "insert_file mem_cql (\<lambda>_ db. db) sample_file ?b (sample_db [?b])"
  have k: "bucket_key ?b = (1, 2)" by (simp add: bucket_key_def sample_bucket_def)
  have none: "bucket_files (mem_view (sample_db [?b])) 2 = {}"
    by (simp add: bucket_files_def mem_view_def sample_db_def rows_map_def)
  have cons: "bucket_consistent (mem_view (sample_db [?b])) (bucket_key ?b)"
    unfolding k bucket_consistent_def snd_conv none
    by (simp add: counters_def mem_view_def sample_db_def rows_map_def bucket_key_def
        sample_bucket_def in_i64_def)
  have q: "Suc 2047 = QUERY_ATTEMPTS" by (simp add: QUERY_ATTEMPTS_def)
  have loop: "fst (bucket_space_loop mem_cql (\<lambda>_ db. db) (Suc m) ?b 1 5
      (snd (ins_file mem_cql (sample_db [?b]) sample_file))) = Ok ()" for m
    by (simp add: mem_cql_sel sample_db_def rows_map_def bucket_key_def sample_bucket_def)
  have size: "f_size sample_file = 5" by (simp add: sample_file_def)
  have "fst ?r = Ok ()"
    using loop [of 2047, unfolded q]
    by (simp add: insert_file_def try_join_def update_bucket_space_def size mem_cql_sel split_beta split: result.splits)
  then have ok: "?r = (Ok (), snd ?r)" by (metis prod.collapse)
  have new: "t_files (mem_view (sample_db [?b])) (file_key sample_file) = None"
    by (simp add: mem_view_def sample_db_def rows_map_def)
  have b: "f_bucket_id sample_file = b_id ?b" by (simp add: sample_file_def sample_bucket_def)
  have "bucket_consistent (mem_view (snd ?r)) (bucket_key ?b)"
    using bucket_accounting [where others = "\<lambda>_ db. db" and db' = "snd ?r",
        OF mem_db.cql_service_axioms refl mem_lwt_answers cons b] new ok by blast
  then show ?thesis by (simp add: k Let_def)
qed

end
