(* ===== verification/Ledger_Boot.thy ===== *)
theory Ledger_Boot
  imports Ledger_Correctness File_Access
begin

section \<open>Starting the fragment ledger\<close>

text \<open>
  \<open>FragmentLedger::initialize\<close>, \<open>scan_fragments\<close> and
  \<open>scan_missing_fragment_metadata\<close>: how a node finds the chunks of its data directory.

  The entries of the directory come in the order the operating system lists them, and the set of
  chunks without metadata is a list in the order in which the code iterates over it. A panic is
  the value \<open>None\<close>. The files of the database arrive as a stream whose items may fail.
\<close>

fun scan_entries ::
    "'st ledger_env \<Rightarrow> 'st \<Rightarrow> chunk_path list \<Rightarrow> uuid list \<Rightarrow> 'st InternalLedger
      \<Rightarrow> uuid list io_result option \<times> 'st InternalLedger" where
  "scan_entries env st [] missing s = (Some (Ok missing), s)"
| "scan_entries env st (UncommitedFile i # entries) missing s =
    (case fs_remove env (UncommitedFile i) s of
       (Err _, s') \<Rightarrow> (Some (Err io_from_std_io), s')
     | (Ok _, s') \<Rightarrow> scan_entries env st entries missing s')"
| "scan_entries env st (StrayUncommited n # entries) missing s =
    (case fs_remove env (StrayUncommited n) s of
       (Err _, s') \<Rightarrow> (Some (Err io_from_std_io), s')
     | (Ok _, s') \<Rightarrow> scan_entries env st entries missing s')"
| "scan_entries env st (ForeignFile n # entries) missing s = scan_entries env st entries missing s"
| "scan_entries env st (ChunkFile i # entries) missing s =
    (case fs_read env (ChunkFile i) s of
       Err _ \<Rightarrow> scan_entries env st entries missing s
     | Ok bytes \<Rightarrow>
         (let chunk = \<lparr>content_size = of_nat (length bytes), physical_size = size_on_disk env bytes\<rparr>;
              s1 = s\<lparr>disk_content_size := disk_content_size s + content_size chunk,
                     disk_physical_size := disk_physical_size s + physical_size chunk\<rparr>;
              s2 = s1\<lparr>chunk_set := (chunk_set s1)(i \<mapsto> chunk)\<rparr>
          in case store_get (ext_ops env) st i of
               Ok _ \<Rightarrow> scan_entries env st entries missing s2
             | Err IoNotFound \<Rightarrow> scan_entries env st entries (List.insert i missing) s2
             | Err _ \<Rightarrow> (None, s1)))"

definition scan_fragments ::
    "'st ledger_env \<Rightarrow> chunk_path list io_result \<Rightarrow> 'st InternalLedger
      \<Rightarrow> uuid list io_result option \<times> 'st InternalLedger" where
  "scan_fragments env dir_scan s =
    (case dir_scan of
       Err e \<Rightarrow> (Some (Err e), s)
     | Ok entries \<Rightarrow>
         (case ext_metadata_store s of
            None \<Rightarrow> (None, s)
          | Some st \<Rightarrow> scan_entries env st entries [] s))"

fun attach_metadata ::
    "'st ledger_env \<Rightarrow> File data_result list \<Rightarrow> uuid list \<Rightarrow> 'st InternalLedger
      \<Rightarrow> uuid list io_result \<times> 'st InternalLedger" where
  "attach_metadata env [] missing s = (Ok missing, s)"
| "attach_metadata env (Err e # file_stream) missing s = (Err (IoInternal (Some DataAccessError)), s)"
| "attach_metadata env (Ok file # file_stream) missing s =
    (case find (\<lambda>it. chunk_id it \<in> set missing) (f_chunk_ids file) of
       None \<Rightarrow> attach_metadata env file_stream missing s
     | Some it \<Rightarrow>
         attach_metadata env file_stream (removeAll (chunk_id it) missing)
           (s\<lparr>ext_metadata_store := map_option (\<lambda>st. snd (store_insert (ext_ops env) st (chunk_id it)
               \<lparr>ext_bucket_id = to_u128_le (f_bucket_id file), ext_file_id = to_u128_le (f_id file)\<rparr>))
             (ext_metadata_store s)\<rparr>))"

definition scan_missing_fragment_metadata ::
    "'st ledger_env \<Rightarrow> File data_result list data_result \<Rightarrow> uuid list \<Rightarrow> 'st InternalLedger
      \<Rightarrow> unit io_result \<times> 'st InternalLedger" where
  "scan_missing_fragment_metadata env file_stream missing s =
    (case file_stream of
       Err e \<Rightarrow> (Err (IoInternal (Some DataAccessError)), s)
     | Ok files \<Rightarrow>
         (case attach_metadata env files missing s of
            (Err e, s') \<Rightarrow> (Err e, s')
          | (Ok orphans, s') \<Rightarrow> delete_chunks env orphans s'))"

text \<open>The data directory at start: missing (with whether it can be created), something else than a
  directory, or a directory.\<close>

datatype dir_status = DirMissing bool | DirNotDirectory | DirPresent

definition initialize ::
    "'st ledger_env \<Rightarrow> dir_status \<Rightarrow> u64 io_result \<Rightarrow> chunk_path list io_result
      \<Rightarrow> File data_result list data_result option \<Rightarrow> 'st InternalLedger
      \<Rightarrow> unit io_result option \<times> 'st InternalLedger" where
  "initialize env chunk_dir usage_free dir_scan session s =
    (if chunk_dir = DirMissing False then (Some (Err io_from_std_io), s)
     else if chunk_dir = DirNotDirectory then (Some (Err InvalidDataDir), s)
     else case validate_max_space usage_free s of
       Err e \<Rightarrow> (Some (Err e), s)
     | Ok _ \<Rightarrow>
         (case scan_fragments env dir_scan s of
            (None, s1) \<Rightarrow> (None, s1)
          | (Some (Err e), s1) \<Rightarrow> (Some (Err e), s1)
          | (Some (Ok missing), s1) \<Rightarrow>
              (case (missing, session) of
                 ([], _) \<Rightarrow> (Some (Ok ()), s1)
               | (_, None) \<Rightarrow> (Some (Ok ()), s1)
               | (_, Some files) \<Rightarrow>
                   (let (r, s2) = scan_missing_fragment_metadata env files missing s1
                    in (Some r, s2)))))"

subsection \<open>What a scan finds\<close>

lemma ledger_inv_discover:
  assumes "ledger_inv s" "chunk_set s i = None" "reservation_map s = Map.empty"
  shows "ledger_inv (s\<lparr>disk_content_size := disk_content_size s + content_size m,
      disk_physical_size := disk_physical_size s + physical_size m,
      chunk_set := (chunk_set s)(i \<mapsto> m)\<rparr>)"
  using assms by (auto simp: ledger_inv_def msum_insert)

definition scan_inv ::
    "'st ledger_env \<Rightarrow> (chunk_path \<rightharpoonup> u8 list) \<Rightarrow> chunk_path list \<Rightarrow> 'st InternalLedger \<Rightarrow> bool" where
  "scan_inv env dir todo s \<longleftrightarrow> ledger_inv s \<and> reservation_map s = Map.empty
   \<and> (\<forall>i. ChunkFile i \<in> set todo \<longrightarrow> chunk_set s i = None)
   \<and> (\<forall>i. ChunkFile i \<notin> set todo \<longrightarrow> chunk_set s i = (case dir (ChunkFile i) of
        None \<Rightarrow> None
      | Some bytes \<Rightarrow> Some \<lparr>content_size = of_nat (length bytes), physical_size = size_on_disk env bytes\<rparr>))
   \<and> (\<forall>i. data_dir s (ChunkFile i) = dir (ChunkFile i))
   \<and> (\<forall>i. data_dir s (UncommitedFile i) = (if UncommitedFile i \<in> set todo then dir (UncommitedFile i) else None))
   \<and> (\<forall>p \<in> set todo. data_dir s p \<noteq> None)"

lemma scan_inv_remove:
  assumes "scan_inv env dir (p # todo) s" "p \<notin> set todo" "\<And>i. p \<noteq> ChunkFile i"
  shows "scan_inv env dir todo (s\<lparr>data_dir := (data_dir s)(p := None)\<rparr>)"
proof -
  have "((data_dir s)(p := None)) q \<noteq> None" if "q \<in> set todo" for q
    using assms(1,2) that by (auto simp: scan_inv_def)
  moreover have "ChunkFile i \<noteq> p" for i using assms(3) by metis
  ultimately show ?thesis using assms unfolding scan_inv_def by auto
qed

lemma scan_inv_discover:
  assumes "scan_inv env dir (ChunkFile i # todo) s" "ChunkFile i \<notin> set todo"
    and "data_dir s (ChunkFile i) = Some bytes"
  defines "m \<equiv> \<lparr>content_size = of_nat (length bytes), physical_size = size_on_disk env bytes\<rparr>"
  shows "scan_inv env dir todo (s\<lparr>disk_content_size := disk_content_size s + content_size m,
      disk_physical_size := disk_physical_size s + physical_size m,
      chunk_set := (chunk_set s)(i \<mapsto> m)\<rparr>)"
proof -
  have "ledger_inv (s\<lparr>disk_content_size := disk_content_size s + content_size m,
      disk_physical_size := disk_physical_size s + physical_size m,
      chunk_set := (chunk_set s)(i \<mapsto> m)\<rparr>)"
    using assms(1) by (intro ledger_inv_discover) (simp_all add: scan_inv_def)
  then show ?thesis using assms(1-3) unfolding scan_inv_def m_def by auto
qed

lemma scan_inv_skip:
  "scan_inv env dir (ForeignFile n # todo) s \<Longrightarrow> scan_inv env dir todo s"
  by (auto simp: scan_inv_def)

lemma scan_entries_inv:
  assumes "scan_inv env dir entries s" "distinct entries" "\<And>p. \<not> fs_refuses env p"
    and "scan_entries env st entries missing s = (Some (Ok missing'), s')"
  shows "scan_inv env dir [] s'"
  using assms
proof (induction entries arbitrary: missing s)
  case (Cons p entries)
  have d: "data_dir s p \<noteq> None" using Cons.prems(1) by (simp add: scan_inv_def)
  show ?case
  proof (cases p)
    case (ChunkFile i)
    then obtain bytes where b: "data_dir s (ChunkFile i) = Some bytes" using d by auto
    then have rd: "fs_read env (ChunkFile i) s = Ok bytes" using Cons.prems(3) by (simp add: fs_read_def)
    have "scan_inv env dir entries (s\<lparr>disk_content_size := disk_content_size s + of_nat (length bytes),
        disk_physical_size := disk_physical_size s + size_on_disk env bytes,
        chunk_set := (chunk_set s)(i \<mapsto>
          \<lparr>content_size = of_nat (length bytes), physical_size = size_on_disk env bytes\<rparr>)\<rparr>)"
      using scan_inv_discover [of env dir i entries s bytes] Cons.prems(1,2) b ChunkFile by simp
    with Cons ChunkFile rd show ?thesis
      by (auto simp: Let_def split: result.splits MeowithIoError.splits)
  next
    case (UncommitedFile i)
    then have "fs_remove env p s = (Ok (), s\<lparr>data_dir := (data_dir s)(p := None)\<rparr>)"
      using d Cons.prems(3) by (simp add: fs_remove_def)
    moreover have "scan_inv env dir entries (s\<lparr>data_dir := (data_dir s)(p := None)\<rparr>)"
      using Cons.prems(1,2) UncommitedFile by (intro scan_inv_remove) auto
    ultimately show ?thesis using Cons UncommitedFile by simp
  next
    case (StrayUncommited n)
    then have "fs_remove env p s = (Ok (), s\<lparr>data_dir := (data_dir s)(p := None)\<rparr>)"
      using d Cons.prems(3) by (simp add: fs_remove_def)
    moreover have "scan_inv env dir entries (s\<lparr>data_dir := (data_dir s)(p := None)\<rparr>)"
      using Cons.prems(1,2) StrayUncommited by (intro scan_inv_remove) auto
    ultimately show ?thesis using Cons StrayUncommited by simp
  next
    case (ForeignFile n)
    with Cons.prems have "scan_inv env dir entries s" using scan_inv_skip by blast
    from Cons.IH [OF this] Cons.prems ForeignFile show ?thesis by simp
  qed
qed simp

text \<open>C26. A restart rebuilds the ledger from the data directory. When the scan of a new ledger
  finishes, every chunk file of the directory is listed with its length and its physical size and
  nothing else is, the counters are the sums over them, no reservation exists, every upload that was
  not committed is gone from the disk, and the committed files are unchanged.\<close>

theorem scan_rebuilds_ledger:
  assumes "scan_fragments env (Ok entries) (ledger_new max_space store dir) = (Some (Ok missing), s)"
    and "set entries = dom dir" "distinct entries" "\<And>p. \<not> fs_refuses env p"
  shows "ledger_inv s \<and> reservation_map s = Map.empty
    \<and> (\<forall>i. chunk_set s i = (case dir (ChunkFile i) of None \<Rightarrow> None
         | Some bytes \<Rightarrow> Some \<lparr>content_size = of_nat (length bytes), physical_size = size_on_disk env bytes\<rparr>))
    \<and> (\<forall>i. data_dir s (ChunkFile i) = dir (ChunkFile i) \<and> data_dir s (UncommitedFile i) = None)"
proof -
  let ?s = "ledger_new max_space store dir"
  have "scan_inv env dir entries ?s"
    using assms(2) ledger_inv_new [of max_space store dir]
    by (auto simp: scan_inv_def ledger_new_def dom_def)
  moreover have "scan_entries env store entries [] ?s = (Some (Ok missing), s)"
    using assms(1) by (simp add: scan_fragments_def ledger_new_def)
  ultimately have "scan_inv env dir [] s" using assms(3,4) by (blast intro: scan_entries_inv)
  then show ?thesis by (simp add: scan_inv_def)
qed

theorem scan_rebuilds_ledger_witness:
  "let dir = [ChunkFile 7 \<mapsto> [1, 2], UncommitedFile 8 \<mapsto> [3]];
       r = scan_fragments (plain_env 0) (Ok [UncommitedFile 8, ChunkFile 7])
         (ledger_new 100 Map.empty dir)
   in fst r = Some (Ok [7]) \<and> data_dir (snd r) (UncommitedFile 8) = None
    \<and> chunk_set (snd r) 7 = Some \<lparr>content_size = 2, physical_size = 2\<rparr>"
proof -
  let ?dir = "[ChunkFile 7 \<mapsto> [1, 2], UncommitedFile 8 \<mapsto> [3]]"
  let ?r = "scan_fragments (plain_env 0) (Ok [UncommitedFile 8, ChunkFile 7]) (ledger_new 100 Map.empty ?dir)"
  have f: "fst ?r = Some (Ok [7])"
    by (simp add: scan_fragments_def plain_defs fs_remove_def fs_read_def Let_def)
  then have r: "?r = (Some (Ok [7]), snd ?r)" by (metis prod.collapse)
  have dom: "set [UncommitedFile 8, ChunkFile 7] = dom ?dir" by auto
  have "\<not> fs_refuses (plain_env 0) p" for p by (simp add: plain_env_def)
  from scan_rebuilds_ledger [OF r dom _ this]
  have "chunk_set (snd ?r) 7 = Some \<lparr>content_size = 2, physical_size = 2\<rparr>"
    "data_dir (snd ?r) (UncommitedFile 8) = None"
    by (simp_all add: plain_env_def)
  with f show ?thesis unfolding Let_def by blast
qed

text \<open>Restoring metadata keeps one chunk per file. If two chunks of one file lie on this node
  without metadata, the restart attaches the file to the first of them only, takes the other for an
  orphan and deletes it, although the file still refers to it.\<close>

theorem missing_metadata_drops_second_chunk:
  assumes "f_chunk_ids f = [c1, c2]" "chunk_id c1 = i1" "chunk_id c2 = i2" "i1 \<noteq> i2"
    and "uncommited_map s i2 = None" "data_dir s (ChunkFile i2) \<noteq> None"
    and "chunk_set s i2 \<noteq> None" "\<not> fs_refuses env (ChunkFile i2)"
  shows "let (r, s') = scan_missing_fragment_metadata env (Ok [Ok f]) [i1, i2] s in
      r = Ok () \<and> data_dir s' (ChunkFile i2) = None \<and> chunk_set s' i2 = None
    \<and> data_dir s' (ChunkFile i1) = data_dir s (ChunkFile i1)"
  using assms
  by (auto simp: scan_missing_fragment_metadata_def delete_chunk_def Let_def ext_remove_def
      get_path_def fs_remove_def)

theorem missing_metadata_drops_second_chunk_witness:
  "let f = sample_file\<lparr>f_chunk_ids := [\<lparr>server_id = 1, chunk_id = 7, chunk_size = 1, chunk_order = 0\<rparr>,
         \<lparr>server_id = 1, chunk_id = 8, chunk_size = 1, chunk_order = 1\<rparr>]\<rparr>;
       s = (plain_ledger 100)\<lparr>chunk_set := [7 \<mapsto> \<lparr>content_size = 1, physical_size = 1\<rparr>,
         8 \<mapsto> \<lparr>content_size = 1, physical_size = 1\<rparr>],
         data_dir := [ChunkFile 7 \<mapsto> [1], ChunkFile 8 \<mapsto> [2]]\<rparr>
   in data_dir (snd (scan_missing_fragment_metadata (plain_env 0) (Ok [Ok f]) [7, 8] s)) (ChunkFile 8) = None"
  unfolding Let_def
  using missing_metadata_drops_second_chunk [where ?c1.0 = "\<lparr>server_id = 1, chunk_id = 7, chunk_size = 1, chunk_order = 0\<rparr>"
      and ?c2.0 = "\<lparr>server_id = 1, chunk_id = 8, chunk_size = 1, chunk_order = 1\<rparr>"
      and f = "sample_file\<lparr>f_chunk_ids := [\<lparr>server_id = 1, chunk_id = 7, chunk_size = 1, chunk_order = 0\<rparr>,
         \<lparr>server_id = 1, chunk_id = 8, chunk_size = 1, chunk_order = 1\<rparr>]\<rparr>"
      and s = "(plain_ledger 100)\<lparr>chunk_set := [7 \<mapsto> \<lparr>content_size = 1, physical_size = 1\<rparr>,
         8 \<mapsto> \<lparr>content_size = 1, physical_size = 1\<rparr>],
         data_dir := [ChunkFile 7 \<mapsto> [1], ChunkFile 8 \<mapsto> [2]]\<rparr>" and env = "plain_env 0"
      and ?i1.0 = 7 and ?i2.0 = 8]
  by (simp add: plain_env_def plain_ledger_def ledger_new_def split_beta)

end
