(* ===== verification/Mdsftp_Wire.thy ===== *)
theory Mdsftp_Wire
  imports Errors "HOL-Library.Monad_Syntax"
begin

unbundle bit_operations_syntax

section \<open>The MDSFTP wire format\<close>

text \<open>
  The packets nodes exchange over TLS: \<^verbatim>\<open>protocol/src/mdsftp/net/wire.rs\<close>,
  \<^verbatim>\<open>net/packet_type.rs\<close>, \<^verbatim>\<open>net/validate.rs\<close>, \<^verbatim>\<open>net/packet_writer.rs\<close> and the flag bytes and
  result structs of \<^verbatim>\<open>protocol/src/mdsftp/data.rs\<close>.

  A packet is a nine byte header (type, channel, payload length, big endian) and a payload. The
  writer produces bytes; \<open>read_packet\<close> is the part of the reader's loop that turns the front of
  the incoming stream into a packet or decides to close the connection. The lemmas show that the
  flag bytes and the header decode to what was encoded, and that the reader recovers the packets a
  writer wrote, in order, from the concatenated bytes.
\<close>

subsection \<open>Flags, errors and results (\<^verbatim>\<open>data.rs\<close>)\<close>

datatype LockKind = LkRead | LkWrite

definition lock_kind_from_u8 :: "u8 \<Rightarrow> LockKind" where
  "lock_kind_from_u8 value = (if value AND 1 = 0 then LkRead else LkWrite)"

fun lock_kind_into_u8 :: "LockKind \<Rightarrow> u8" where
  "lock_kind_into_u8 LkRead = 0"
| "lock_kind_into_u8 LkWrite = 1"

datatype ChunkErrorKind = NotAvailable | CkNotFound

fun mdsftp_from_chunk_error :: "ChunkErrorKind \<Rightarrow> MDSFTPError" where
  "mdsftp_from_chunk_error NotAvailable = RemoteError"
| "mdsftp_from_chunk_error CkNotFound = NoSuchChunkId"

definition chunk_error_from_u8 :: "u8 \<Rightarrow> ChunkErrorKind" where
  "chunk_error_from_u8 value =
     (if value AND 2 = 0 then NotAvailable
      else if value AND 2 = 2 then CkNotFound else NotAvailable)"

fun chunk_error_into_u8 :: "ChunkErrorKind \<Rightarrow> u8" where
  "chunk_error_into_u8 NotAvailable = 0"
| "chunk_error_into_u8 CkNotFound = 2"

record ReserveFlags =
  rf_auto_start :: bool
  rf_durable :: bool
  rf_temp :: bool
  rf_overwrite :: bool

definition bool_u8 :: "bool \<Rightarrow> u8" where
  "bool_u8 b = (if b then 1 else 0)"

definition reserve_flags_into_u8 :: "ReserveFlags \<Rightarrow> u8" where
  "reserve_flags_into_u8 value =
     bool_u8 (rf_auto_start value) + push_bit 1 (bool_u8 (rf_durable value))
     + push_bit 2 (bool_u8 (rf_temp value)) + push_bit 3 (bool_u8 (rf_overwrite value))"

definition reserve_flags_from_u8 :: "u8 \<Rightarrow> ReserveFlags" where
  "reserve_flags_from_u8 value =
     \<lparr>rf_auto_start = (value AND 1 \<noteq> 0), rf_durable = (value AND 2 \<noteq> 0),
      rf_temp = (value AND 4 \<noteq> 0), rf_overwrite = (value AND 8 \<noteq> 0)\<rparr>"

record PutFlags =
  put_append :: bool

definition put_flags_into_u8 :: "PutFlags \<Rightarrow> u8" where
  "put_flags_into_u8 value = bool_u8 (put_append value)"

definition put_flags_from_u8 :: "u8 \<Rightarrow> PutFlags" where
  "put_flags_from_u8 value = \<lparr>put_append = (value AND 1 \<noteq> 0)\<rparr>"

record CommitFlags =
  cf_reject :: bool
  cf_keep_alive :: bool
  cf_final :: bool

definition commit_reject :: CommitFlags where
  "commit_reject = \<lparr>cf_reject = True, cf_keep_alive = False, cf_final = False\<rparr>"

definition commit_keep_alive :: CommitFlags where
  "commit_keep_alive = \<lparr>cf_reject = False, cf_keep_alive = True, cf_final = False\<rparr>"

definition commit_final :: CommitFlags where
  "commit_final = \<lparr>cf_reject = False, cf_keep_alive = False, cf_final = True\<rparr>"

definition commit_flags_into_u8 :: "CommitFlags \<Rightarrow> u8" where
  "commit_flags_into_u8 value =
     (bool_u8 (cf_reject value) OR push_bit 1 (bool_u8 (cf_keep_alive value)))
     OR push_bit 2 (bool_u8 (cf_final value))"

definition commit_flags_from_u8 :: "u8 \<Rightarrow> CommitFlags" where
  "commit_flags_from_u8 value =
     \<lparr>cf_reject = (value AND 1 \<noteq> 0), cf_keep_alive = (value AND 2 \<noteq> 0),
      cf_final = (value AND 4 \<noteq> 0)\<rparr>"

record ReserveResult =
  rr_chunk_id :: uuid
  rr_chunk_buffer :: u16

record LockAcquireResult =
  la_kind :: LockKind
  la_chunk_id :: uuid

record PutResult =
  pr_chunk_buffer :: u16

record QueryResult =
  qr_size :: u64

datatype CommitResult = CommitResult

record ChunkRange =
  rng_start :: u64
  rng_end :: u64

definition chunk_range_new :: "u64 \<Rightarrow> u64 \<Rightarrow> (ChunkRange, MDSFTPError) result" where
  "chunk_range_new s e =
     (if s \<ge> e then Err BadChunkRange else Ok \<lparr>rng_start = s, rng_end = e\<rparr>)"

definition chunk_range_size :: "ChunkRange \<Rightarrow> u64" where
  "chunk_range_size r = rng_end r - rng_start r"

definition chunk_range_default :: ChunkRange where
  "chunk_range_default = \<lparr>rng_start = 0, rng_end = 0\<rparr>"

lemma lock_kind_round_trip [simp]: "lock_kind_from_u8 (lock_kind_into_u8 k) = k"
  by (cases k) (simp_all add: lock_kind_from_u8_def)

lemma chunk_error_round_trip [simp]: "chunk_error_from_u8 (chunk_error_into_u8 k) = k"
  by (cases k) (simp_all add: chunk_error_from_u8_def)

text \<open>\<open>LockErr\<close> packs the lock kind and the error into one byte; both can be read back.\<close>

lemma lock_err_byte [simp]:
  "chunk_error_from_u8 (lock_kind_into_u8 k OR chunk_error_into_u8 e) = e"
  "lock_kind_from_u8 (lock_kind_into_u8 k OR chunk_error_into_u8 e) = k"
  by (cases k; cases e; simp add: chunk_error_from_u8_def lock_kind_from_u8_def)+

lemma reserve_flags_round_trip [simp]: "reserve_flags_from_u8 (reserve_flags_into_u8 f) = f"
  by (cases f; rename_tac a d t ov)
    (case_tac a; case_tac d; case_tac t; case_tac ov;
      simp add: reserve_flags_from_u8_def reserve_flags_into_u8_def bool_u8_def)

lemma put_flags_round_trip [simp]: "put_flags_from_u8 (put_flags_into_u8 f) = f"
  by (cases f; rename_tac a)
    (case_tac a; simp add: put_flags_from_u8_def put_flags_into_u8_def bool_u8_def)

lemma commit_flags_round_trip [simp]: "commit_flags_from_u8 (commit_flags_into_u8 f) = f"
  by (cases f; rename_tac a d t)
    (case_tac a; case_tac d; case_tac t;
      simp add: commit_flags_from_u8_def commit_flags_into_u8_def bool_u8_def)

subsection \<open>Packet types (\<^verbatim>\<open>packet_type.rs\<close>)\<close>

datatype MDSFTPPacketType =
    PtFileChunk | PtRetrieve | PtPut | PtRecvAck | PtDeleteChunk
  | PtReserve | PtReserveCancel | PtReserveOk | PtReserveErr
  | PtLockReq | PtLockAcquire | PtLockErr
  | PtPutOk | PtPutErr | PtCommit | PtCommitOk | PtCommitErr
  | PtQuery | PtQueryResponse
  | PtChannelOpen | PtChannelClose | PtChannelErr

fun packet_type_into_u8 :: "MDSFTPPacketType \<Rightarrow> u8" where
  "packet_type_into_u8 PtFileChunk = 1"
| "packet_type_into_u8 PtRetrieve = 2"
| "packet_type_into_u8 PtPut = 3"
| "packet_type_into_u8 PtRecvAck = 4"
| "packet_type_into_u8 PtDeleteChunk = 5"
| "packet_type_into_u8 PtReserve = 6"
| "packet_type_into_u8 PtReserveCancel = 7"
| "packet_type_into_u8 PtReserveOk = 8"
| "packet_type_into_u8 PtReserveErr = 9"
| "packet_type_into_u8 PtLockReq = 10"
| "packet_type_into_u8 PtLockAcquire = 11"
| "packet_type_into_u8 PtLockErr = 12"
| "packet_type_into_u8 PtPutOk = 13"
| "packet_type_into_u8 PtPutErr = 14"
| "packet_type_into_u8 PtCommit = 15"
| "packet_type_into_u8 PtCommitOk = 16"
| "packet_type_into_u8 PtCommitErr = 17"
| "packet_type_into_u8 PtQuery = 18"
| "packet_type_into_u8 PtQueryResponse = 19"
| "packet_type_into_u8 PtChannelOpen = 128"
| "packet_type_into_u8 PtChannelClose = 129"
| "packet_type_into_u8 PtChannelErr = 130"

definition packet_types :: "MDSFTPPacketType list" where
  "packet_types =
     [PtFileChunk, PtRetrieve, PtPut, PtRecvAck, PtDeleteChunk, PtReserve, PtReserveCancel,
      PtReserveOk, PtReserveErr, PtLockReq, PtLockAcquire, PtLockErr, PtPutOk, PtPutErr, PtCommit,
      PtCommitOk, PtCommitErr, PtQuery, PtQueryResponse, PtChannelOpen, PtChannelClose,
      PtChannelErr]"

text \<open>The derived \<open>TryFromPrimitive\<close>: the variant with that discriminant, if there is one.\<close>

definition packet_type_try_from :: "u8 \<Rightarrow> MDSFTPPacketType option" where
  "packet_type_try_from i = find (\<lambda>t. packet_type_into_u8 t = i) packet_types"

definition is_system :: "MDSFTPPacketType \<Rightarrow> bool" where
  "is_system t = (packet_type_into_u8 t \<ge> 0x80)"

fun payload_size :: "MDSFTPPacketType \<Rightarrow> u32" where
  "payload_size PtFileChunk = 6"
| "payload_size PtRetrieve = 34"
| "payload_size PtPut = 25"
| "payload_size PtRecvAck = 4"
| "payload_size PtReserve = 41"
| "payload_size PtReserveCancel = 16"
| "payload_size PtReserveOk = 18"
| "payload_size PtReserveErr = 8"
| "payload_size PtLockReq = 17"
| "payload_size PtLockAcquire = 17"
| "payload_size PtLockErr = 17"
| "payload_size PtChannelOpen = 0"
| "payload_size PtChannelClose = 0"
| "payload_size PtChannelErr = 0"
| "payload_size PtDeleteChunk = 16"
| "payload_size PtPutOk = 2"
| "payload_size PtPutErr = 1"
| "payload_size PtCommit = 17"
| "payload_size PtQuery = 16"
| "payload_size PtQueryResponse = 9"
| "payload_size PtCommitOk = 0"
| "payload_size PtCommitErr = 1"

lemma packet_type_round_trip [simp]: "packet_type_try_from (packet_type_into_u8 t) = Some t"
  by (cases t) (simp_all add: packet_type_try_from_def packet_types_def)

subsection \<open>Headers, the writer and the reader's framing\<close>

definition HEADER_SIZE :: nat where
  "HEADER_SIZE = 9"

definition PAYLOAD_SIZE :: nat where
  "PAYLOAD_SIZE = 2 ^ 32 - 1"

record MDSFTPHeader =
  hd_packet_id :: u8
  hd_stream_id :: u32
  hd_payload_size :: u32

record MDSFTPRawPacket =
  rp_packet_type :: MDSFTPPacketType
  rp_stream_id :: u32
  rp_payload :: "u8 list"

definition read_header :: "u8 list \<Rightarrow> MDSFTPHeader" where
  "read_header raw =
     \<lparr>hd_packet_id = raw ! 0, hd_stream_id = from_be_bytes (take 4 (drop 1 raw)),
      hd_payload_size = from_be_bytes (take 4 (drop 5 raw))\<rparr>"

definition write_header :: "MDSFTPHeader \<Rightarrow> u8 list" where
  "write_header h =
     hd_packet_id h # to_be_bytes (hd_stream_id h) @ to_be_bytes (hd_payload_size h)"

fun pre_validate :: "MDSFTPPacketType \<Rightarrow> MDSFTPHeader \<Rightarrow> bool" where
  "pre_validate PtFileChunk h = (hd_payload_size h \<ge> payload_size PtFileChunk)"
| "pre_validate t h = (payload_size t = hd_payload_size h)"

text \<open>The writer panics (\<open>None\<close>) on a payload that does not fit the length field;
  \<open>write_chunk\<close> instead truncates the length.\<close>

definition write_raw_packet :: "MDSFTPRawPacket \<Rightarrow> u8 list option" where
  "write_raw_packet p =
     (if length (rp_payload p) > PAYLOAD_SIZE then None
      else Some (write_header
        \<lparr>hd_packet_id = packet_type_into_u8 (rp_packet_type p), hd_stream_id = rp_stream_id p,
         hd_payload_size = of_nat (length (rp_payload p))\<rparr> @ rp_payload p))"

definition write_chunk :: "u32 \<Rightarrow> u8 list \<Rightarrow> u8 list \<Rightarrow> u8 list" where
  "write_chunk stream_id payload_header payload =
     write_header \<lparr>hd_packet_id = packet_type_into_u8 PtFileChunk, hd_stream_id = stream_id,
       hd_payload_size = of_nat (length payload_header + length payload)\<rparr>
     @ payload_header @ payload"

text \<open>One round of the reader up to the point where the packet is dispatched: \<open>None\<close> is every
  early exit that closes the connection (end of stream, unknown type, failed pre-validation).\<close>

definition read_packet :: "u8 list \<Rightarrow> (MDSFTPRawPacket \<times> u8 list) option" where
  "read_packet stream =
     (if length stream < HEADER_SIZE then None
      else
        let header = read_header (take HEADER_SIZE stream);
            rest = drop HEADER_SIZE stream
        in case packet_type_try_from (hd_packet_id header) of
             None \<Rightarrow> None
           | Some packet_type \<Rightarrow>
               if \<not> pre_validate packet_type header then None
               else if length rest < unat (hd_payload_size header) then None
               else Some (\<lparr>rp_packet_type = packet_type, rp_stream_id = hd_stream_id header,
                           rp_payload = take (unat (hd_payload_size header)) rest\<rparr>,
                          drop (unat (hd_payload_size header)) rest))"

lemma read_packet_shorter: "read_packet s = Some (p, rest) \<Longrightarrow> length rest < length s"
  by (auto simp: read_packet_def Let_def HEADER_SIZE_def split: option.splits if_splits)

text \<open>A reader round hands out only packets of a validated length, so the decoders' slices are
  in range.\<close>

definition validated :: "MDSFTPRawPacket \<Rightarrow> bool" where
  "validated p \<longleftrightarrow>
     (if rp_packet_type p = PtFileChunk then 6 \<le> length (rp_payload p)
      else length (rp_payload p) = unat (payload_size (rp_packet_type p)))"

lemma pre_validate_iff:
  "pre_validate t h \<longleftrightarrow>
     (if t = PtFileChunk then 6 \<le> unat (hd_payload_size h)
      else unat (hd_payload_size h) = unat (payload_size t))"
proof (cases "t = PtFileChunk")
  case False
  then have "pre_validate t h \<longleftrightarrow> payload_size t = hd_payload_size h" by (cases t) simp_all
  with False show ?thesis by (auto simp only: word_unat_eq_iff if_False)
qed (simp add: word_le_nat_alt)

lemma read_packet_validated: "read_packet s = Some (p, rest) \<Longrightarrow> validated p"
  by (auto simp: read_packet_def Let_def validated_def pre_validate_iff
      split: option.splits if_splits)

lemma length_write_header [simp]: "length (write_header h) = HEADER_SIZE"
  by (simp add: write_header_def HEADER_SIZE_def)

lemma read_write_header [simp]: "read_header (write_header h) = h"
  using be_u32.dec_enc [of "hd_stream_id h"] be_u32.dec_enc [of "hd_payload_size h"]
  by (cases h) (simp add: read_header_def write_header_def)

lemma read_packet_write:
  assumes "write_raw_packet p = Some bytes" "validated p"
  shows "read_packet (bytes @ rest) = Some (p, rest)"
proof -
  define h where "h = \<lparr>hd_packet_id = packet_type_into_u8 (rp_packet_type p),
    hd_stream_id = rp_stream_id p, hd_payload_size = (of_nat (length (rp_payload p)) :: u32)\<rparr>"
  from assms have len: "length (rp_payload p) \<le> PAYLOAD_SIZE"
    and bytes: "bytes = write_header h @ rp_payload p"
    by (auto simp: write_raw_packet_def h_def split: if_splits)
  from len have sz: "unat (hd_payload_size h) = length (rp_payload p)"
    by (simp add: h_def PAYLOAD_SIZE_def unat_of_nat_small)
  with assms(2) have "pre_validate (rp_packet_type p) h"
    by (simp add: pre_validate_iff validated_def)
  moreover have "packet_type_try_from (hd_packet_id h) = Some (rp_packet_type p)"
    and "hd_stream_id h = rp_stream_id p" by (simp_all add: h_def)
  ultimately show ?thesis by (simp add: read_packet_def bytes Let_def sz)
qed

text \<open>A chunk written by \<open>write_chunk\<close> is framed as the raw packet with the same payload.\<close>

lemma write_chunk_raw:
  assumes "length payload_header + length payload \<le> PAYLOAD_SIZE"
  shows "write_raw_packet \<lparr>rp_packet_type = PtFileChunk, rp_stream_id = sid,
           rp_payload = payload_header @ payload\<rparr>
         = Some (write_chunk sid payload_header payload)"
  using assms by (simp add: write_raw_packet_def write_chunk_def)

text \<open>All the packets at the front of a stream, and what is left when the reader stops.\<close>

function read_packets :: "u8 list \<Rightarrow> MDSFTPRawPacket list \<times> u8 list" where
  "read_packets stream =
     (case read_packet stream of
        None \<Rightarrow> ([], stream)
      | Some (p, rest) \<Rightarrow> let (ps, left) = read_packets rest in (p # ps, left))"
  by pat_completeness auto
termination
  by (relation "measure length") (auto simp: read_packet_shorter)

declare read_packets.simps [simp del]

fun write_packets :: "MDSFTPRawPacket list \<Rightarrow> u8 list option" where
  "write_packets [] = Some []"
| "write_packets (p # ps) =
     do { b \<leftarrow> write_raw_packet p; bs \<leftarrow> write_packets ps; Some (b @ bs) }"

text \<open>C11. Framing: from the concatenated bytes of any sequence of packets, each of the length its
  type prescribes, followed by an incomplete packet, the reader's rounds recover exactly that
  sequence of packets in order and stop at the incomplete one.\<close>

theorem framing_round_trip:
  assumes "write_packets ps = Some bytes" and "list_all validated ps" and "read_packet rest = None"
  shows "read_packets (bytes @ rest) = (ps, rest)"
  using assms
proof (induction ps arbitrary: bytes)
  case Nil
  then show ?case by (simp add: read_packets.simps)
next
  case (Cons p ps)
  then obtain b bs where "write_raw_packet p = Some b" and "write_packets ps = Some bs"
    and bytes: "bytes = b @ bs" by (auto split: bind_splits)
  with Cons have "read_packet (b @ bs @ rest) = Some (p, bs @ rest)"
    and "read_packets (bs @ rest) = (ps, rest)" by (simp_all add: read_packet_write)
  then show ?case by (simp add: bytes read_packets.simps [of "b @ bs @ rest"])
qed

theorem framing_round_trip_witness:
  "read_packets (the (write_packets
      [\<lparr>rp_packet_type = PtRecvAck, rp_stream_id = 7, rp_payload = [0, 0, 0, 1]\<rparr>,
       \<lparr>rp_packet_type = PtCommitOk, rp_stream_id = 9, rp_payload = []\<rparr>]) @ [5, 0])
   = ([\<lparr>rp_packet_type = PtRecvAck, rp_stream_id = 7, rp_payload = [0, 0, 0, 1]\<rparr>,
       \<lparr>rp_packet_type = PtCommitOk, rp_stream_id = 9, rp_payload = []\<rparr>], [5, 0])"
proof -
  let ?ps = "[\<lparr>rp_packet_type = PtRecvAck, rp_stream_id = 7, rp_payload = [0, 0, 0, 1]\<rparr>,
       \<lparr>rp_packet_type = PtCommitOk, rp_stream_id = 9, rp_payload = []\<rparr>]"
  have "write_packets ?ps = Some (the (write_packets ?ps))"
    by (simp add: write_raw_packet_def PAYLOAD_SIZE_def)
  moreover have "list_all validated ?ps" by (simp add: validated_def)
  moreover have "read_packet [5, 0] = None" by (simp add: read_packet_def HEADER_SIZE_def)
  ultimately show ?thesis by (rule framing_round_trip)
qed

end
