(* ===== verification/Mdsftp_Channel.thy ===== *)
theory Mdsftp_Channel
  imports Mdsftp_Wire
begin

section \<open>MDSFTP channels\<close>

text \<open>
  One channel of a connection (\<^verbatim>\<open>protocol/src/mdsftp/channel.rs\<close>): the methods that send a packet
  and the dispatcher \<open>handle_packet\<close> that decodes an incoming one.

  A request method also parks a one-shot sender in the channel (\<open>lock_sender\<close>,
  \<open>reserve_sender\<close>, ...), through which the dispatcher later hands the answer over. Such a field
  is \<open>None\<close>, or \<open>Some b\<close> where \<open>b\<close> says whether the receiving end is still there: sending to a
  dropped receiver fails and the code unwraps that result. A panic is \<open>None\<close>, so is a slice out
  of range. The incoming handler is a parameter: the result its \<open>handle_...\<close> method returns.

  The lemmas show that every packet sent passes the other side's length validation (with the one
  exception of an empty file chunk), that dispatching it there yields the call or the answer the
  sender meant (with the one exception of a range whose ends wrap to zero), and that a validated
  packet cannot make the dispatcher panic while the waiters are alive.
\<close>

subsection \<open>The channel\<close>

type_synonym 'a mdsftp_result = "('a, MDSFTPError) result"

type_synonym sender = "bool option"

record InternalMDSFTPChannel =
  ch_id :: u32
  incoming_handler :: bool
  handler_sender :: sender
  lock_sender :: sender
  reserve_sender :: sender
  put_sender :: sender
  query_sender :: sender
  commit_sender :: sender

definition channel_new :: "u32 \<Rightarrow> InternalMDSFTPChannel" where
  "channel_new i =
     \<lparr>ch_id = i, incoming_handler = False, handler_sender = None, lock_sender = None,
      reserve_sender = None, put_sender = None, query_sender = None, commit_sender = None\<rparr>"

definition set_incoming_handler :: "InternalMDSFTPChannel \<Rightarrow> InternalMDSFTPChannel" where
  "set_incoming_handler ch = ch\<lparr>handler_sender := Some True, incoming_handler := True\<rparr>"

subsection \<open>Sending\<close>

definition packet :: "InternalMDSFTPChannel \<Rightarrow> MDSFTPPacketType \<Rightarrow> u8 list \<Rightarrow> MDSFTPRawPacket" where
  "packet ch t payload = \<lparr>rp_packet_type = t, rp_stream_id = ch_id ch, rp_payload = payload\<rparr>"

text \<open>The requests: the packet, and the channel now waiting for the answer.\<close>

definition request_lock ::
    "LockKind \<Rightarrow> uuid \<Rightarrow> InternalMDSFTPChannel \<Rightarrow> MDSFTPRawPacket \<times> InternalMDSFTPChannel" where
  "request_lock kind chunk_id ch =
     (packet ch PtLockReq (lock_kind_into_u8 kind # to_be_bytes chunk_id),
      ch\<lparr>lock_sender := Some True\<rparr>)"

definition channel_try_reserve ::
    "u64 \<Rightarrow> uuid \<Rightarrow> uuid \<Rightarrow> ReserveFlags \<Rightarrow> InternalMDSFTPChannel \<Rightarrow>
     MDSFTPRawPacket \<times> InternalMDSFTPChannel" where
  "channel_try_reserve desired associated_file_id associated_bucket_id flags ch =
     (packet ch PtReserve (reserve_flags_into_u8 flags # to_be_bytes desired
        @ to_be_bytes associated_file_id @ to_be_bytes associated_bucket_id),
      ch\<lparr>reserve_sender := Some True\<rparr>)"

definition channel_query_chunk ::
    "uuid \<Rightarrow> InternalMDSFTPChannel \<Rightarrow> MDSFTPRawPacket \<times> InternalMDSFTPChannel" where
  "channel_query_chunk chunk_id ch =
     (packet ch PtQuery (to_be_bytes chunk_id), ch\<lparr>query_sender := Some True\<rparr>)"

definition channel_commit ::
    "CommitFlags \<Rightarrow> uuid \<Rightarrow> InternalMDSFTPChannel \<Rightarrow> MDSFTPRawPacket \<times> InternalMDSFTPChannel" where
  "channel_commit flags chunk_id ch =
     (packet ch PtCommit (commit_flags_into_u8 flags # to_be_bytes chunk_id),
      ch\<lparr>commit_sender := Some True\<rparr>)"

definition request_put ::
    "PutFlags \<Rightarrow> uuid \<Rightarrow> u64 \<Rightarrow> InternalMDSFTPChannel \<Rightarrow>
     MDSFTPRawPacket \<times> InternalMDSFTPChannel" where
  "request_put flags chunk_id sz ch =
     (packet ch PtPut (put_flags_into_u8 flags # to_be_bytes chunk_id @ to_be_bytes sz),
      ch\<lparr>put_sender := Some True\<rparr>)"

text \<open>The messages that await no answer.\<close>

definition cancel_reserve :: "uuid \<Rightarrow> InternalMDSFTPChannel \<Rightarrow> MDSFTPRawPacket" where
  "cancel_reserve chunk_id ch = packet ch PtReserveCancel (to_be_bytes chunk_id)"

definition respond_lock_ok :: "uuid \<Rightarrow> LockKind \<Rightarrow> InternalMDSFTPChannel \<Rightarrow> MDSFTPRawPacket" where
  "respond_lock_ok chunk_id kind ch =
     packet ch PtLockAcquire (lock_kind_into_u8 kind # to_be_bytes chunk_id)"

definition respond_lock_err ::
    "uuid \<Rightarrow> LockKind \<Rightarrow> ChunkErrorKind \<Rightarrow> InternalMDSFTPChannel \<Rightarrow> MDSFTPRawPacket" where
  "respond_lock_err chunk_id kind error_kind ch =
     packet ch PtLockErr
       ((lock_kind_into_u8 kind OR chunk_error_into_u8 error_kind) # to_be_bytes chunk_id)"

definition respond_reserve_ok :: "uuid \<Rightarrow> u16 \<Rightarrow> InternalMDSFTPChannel \<Rightarrow> MDSFTPRawPacket" where
  "respond_reserve_ok chunk_id chunk_buffer ch =
     packet ch PtReserveOk (to_be_bytes chunk_id @ to_be_bytes chunk_buffer)"

definition respond_reserve_err :: "u64 \<Rightarrow> InternalMDSFTPChannel \<Rightarrow> MDSFTPRawPacket" where
  "respond_reserve_err available_space ch = packet ch PtReserveErr (to_be_bytes available_space)"

definition respond_receive_ack :: "u32 \<Rightarrow> InternalMDSFTPChannel \<Rightarrow> MDSFTPRawPacket" where
  "respond_receive_ack chunk_id ch = packet ch PtRecvAck (to_be_bytes chunk_id)"

definition respond_put_ok :: "u16 \<Rightarrow> InternalMDSFTPChannel \<Rightarrow> MDSFTPRawPacket" where
  "respond_put_ok chunk_buffer ch = packet ch PtPutOk (to_be_bytes chunk_buffer)"

definition respond_put_err :: "ChunkErrorKind \<Rightarrow> InternalMDSFTPChannel \<Rightarrow> MDSFTPRawPacket" where
  "respond_put_err err ch = packet ch PtPutErr [chunk_error_into_u8 err]"

definition respond_query :: "u64 \<Rightarrow> bool \<Rightarrow> InternalMDSFTPChannel \<Rightarrow> MDSFTPRawPacket" where
  "respond_query sz exists ch = packet ch PtQueryResponse (bool_u8 exists # to_be_bytes sz)"

definition retrieve_req ::
    "uuid \<Rightarrow> u16 \<Rightarrow> ChunkRange option \<Rightarrow> InternalMDSFTPChannel \<Rightarrow> MDSFTPRawPacket" where
  "retrieve_req chunk_id chunk_buffer rng ch =
     (let r = (case rng of Some r \<Rightarrow> r | None \<Rightarrow> chunk_range_default)
      in packet ch PtRetrieve (to_be_bytes chunk_id @ to_be_bytes chunk_buffer
           @ to_be_bytes (rng_start r) @ to_be_bytes (rng_end r)))"

definition channel_delete_chunk :: "uuid \<Rightarrow> InternalMDSFTPChannel \<Rightarrow> MDSFTPRawPacket" where
  "channel_delete_chunk chunk_id ch = packet ch PtDeleteChunk (to_be_bytes chunk_id)"

definition respond_commit_err :: "ChunkErrorKind \<Rightarrow> InternalMDSFTPChannel \<Rightarrow> MDSFTPRawPacket" where
  "respond_commit_err err ch = packet ch PtCommitErr [chunk_error_into_u8 err]"

definition respond_commit_ok :: "InternalMDSFTPChannel \<Rightarrow> MDSFTPRawPacket" where
  "respond_commit_ok ch = packet ch PtCommitOk []"

text \<open>\<open>send_chunk\<close> writes to the stream directly, with its own five byte header.\<close>

definition chunk_header :: "bool \<Rightarrow> u32 \<Rightarrow> u8 list" where
  "chunk_header is_last i = bool_u8 is_last # to_be_bytes i"

definition send_chunk :: "bool \<Rightarrow> u32 \<Rightarrow> u8 list \<Rightarrow> InternalMDSFTPChannel \<Rightarrow> u8 list" where
  "send_chunk is_last i content ch = write_chunk (ch_id ch) (chunk_header is_last i) content"

subsection \<open>Dispatching an incoming packet\<close>

datatype delivery =
    DeliverLock "LockAcquireResult mdsftp_result"
  | DeliverReserve "ReserveResult mdsftp_result"
  | DeliverPut "PutResult mdsftp_result"
  | DeliverQuery "QueryResult mdsftp_result"
  | DeliverCommit "CommitResult mdsftp_result"

datatype handler_call =
    HFileChunk "u8 list" u32 bool
  | HRetrieve uuid u16 "ChunkRange option"
  | HPut PutFlags uuid u64
  | HReserve u64 uuid uuid ReserveFlags \<comment> \<open>size, bucket, file, flags\<close>
  | HLockReq uuid LockKind
  | HReceiveAck u32
  | HReserveCancel uuid
  | HDeleteChunk uuid
  | HCommit uuid CommitFlags
  | HQuery uuid

datatype packet_effect = Delivered delivery | Called handler_call | Ignored

text \<open>Indexing and slicing of the payload, \<open>None\<close> where Rust panics.\<close>

definition byte_at :: "u8 list \<Rightarrow> nat \<Rightarrow> u8 option" where
  "byte_at payload i = (if i < length payload then Some (payload ! i) else None)"

definition slice :: "u8 list \<Rightarrow> nat \<Rightarrow> nat \<Rightarrow> u8 list option" where
  "slice payload a b = (if b \<le> length payload then Some (take (b - a) (drop a payload)) else None)"

definition field :: "u8 list \<Rightarrow> nat \<Rightarrow> nat \<Rightarrow> 'a::len word option" where
  "field payload a b = map_option from_be_bytes (slice payload a b)"

text \<open>An answer goes to the parked sender: nobody waiting, the packet is ignored; a waiter that is
  gone, the \<open>unwrap\<close> of the failed send panics.\<close>

definition answer :: "sender \<Rightarrow> delivery option \<Rightarrow> packet_effect option" where
  "answer tx d =
     (case tx of
        None \<Rightarrow> Some Ignored
      | Some alive \<Rightarrow> do { x \<leftarrow> d; if alive then Some (Delivered x) else None })"

definition decode_query_response :: "u8 list \<Rightarrow> delivery option" where
  "decode_query_response payload =
     do { e \<leftarrow> byte_at payload 0;
          if e = 1 then do { sz \<leftarrow> field payload 1 9; Some (DeliverQuery (Ok \<lparr>qr_size = sz\<rparr>)) }
          else Some (DeliverQuery (Err NoSuchChunkId)) }"

fun decode_delivery :: "MDSFTPPacketType \<Rightarrow> u8 list \<Rightarrow> delivery option" where
  "decode_delivery PtReserveOk payload =
     do { chunk_id \<leftarrow> field payload 0 16; chunk_buffer \<leftarrow> field payload 16 18;
          Some (DeliverReserve (Ok \<lparr>rr_chunk_id = chunk_id, rr_chunk_buffer = chunk_buffer\<rparr>)) }"
| "decode_delivery PtReserveErr payload =
     (if length payload = 8 then Some (DeliverReserve (Err (ReserveError (from_be_bytes payload))))
      else None)"
| "decode_delivery PtLockAcquire payload =
     do { chunk_id \<leftarrow> field payload 1 17; k \<leftarrow> byte_at payload 0;
          Some (DeliverLock (Ok \<lparr>la_kind = lock_kind_from_u8 k, la_chunk_id = chunk_id\<rparr>)) }"
| "decode_delivery PtLockErr payload =
     do { e \<leftarrow> byte_at payload 0;
          Some (DeliverLock (Err (mdsftp_from_chunk_error (chunk_error_from_u8 e)))) }"
| "decode_delivery PtPutErr payload =
     do { e \<leftarrow> byte_at payload 0;
          Some (DeliverPut (Err (mdsftp_from_chunk_error (chunk_error_from_u8 e)))) }"
| "decode_delivery PtPutOk payload =
     do { b \<leftarrow> field payload 0 2; Some (DeliverPut (Ok \<lparr>pr_chunk_buffer = b\<rparr>)) }"
| "decode_delivery PtCommitErr payload =
     do { e \<leftarrow> byte_at payload 0;
          Some (DeliverCommit (Err (mdsftp_from_chunk_error (chunk_error_from_u8 e)))) }"
| "decode_delivery PtCommitOk payload = Some (DeliverCommit (Ok CommitResult))"
| "decode_delivery PtQueryResponse payload = decode_query_response payload"
| "decode_delivery _ payload = None"

text \<open>The user-managed packets. \<open>Ok None\<close> is the catch-all arm; the inner error is the \<open>?\<close> on
  \<open>ChunkRange::new\<close>.\<close>

definition decode_range :: "u64 \<Rightarrow> u64 \<Rightarrow> ChunkRange option mdsftp_result" where
  "decode_range s e =
     (if s + e = 0 then Ok None else and_then (chunk_range_new s e) (\<lambda>r. Ok (Some r)))"

fun decode_call :: "MDSFTPPacketType \<Rightarrow> u8 list \<Rightarrow> handler_call option mdsftp_result option" where
  "decode_call PtFileChunk payload =
     do { l \<leftarrow> byte_at payload 0; chunk_id \<leftarrow> field payload 1 5;
          content \<leftarrow> slice payload 5 (length payload);
          Some (Ok (Some (HFileChunk content chunk_id (l = 1)))) }"
| "decode_call PtRetrieve payload =
     do { chunk_id \<leftarrow> field payload 0 16; chunk_buffer \<leftarrow> field payload 16 18;
          range_start \<leftarrow> field payload 18 26; range_end \<leftarrow> field payload 26 34;
          Some (and_then (decode_range range_start range_end)
                  (\<lambda>rng. Ok (Some (HRetrieve chunk_id chunk_buffer rng)))) }"
| "decode_call PtPut payload =
     do { f \<leftarrow> byte_at payload 0; chunk_id \<leftarrow> field payload 1 17; sz \<leftarrow> field payload 17 25;
          Some (Ok (Some (HPut (put_flags_from_u8 f) chunk_id sz))) }"
| "decode_call PtReserve payload =
     do { f \<leftarrow> byte_at payload 0; sz \<leftarrow> field payload 1 9;
          associated_file_id \<leftarrow> field payload 9 25; associated_bucket_id \<leftarrow> field payload 25 41;
          Some (Ok (Some (HReserve sz associated_bucket_id associated_file_id
                            (reserve_flags_from_u8 f)))) }"
| "decode_call PtReserveCancel payload =
     do { chunk_id \<leftarrow> field payload 0 16; Some (Ok (Some (HReserveCancel chunk_id))) }"
| "decode_call PtLockReq payload =
     do { k \<leftarrow> byte_at payload 0; chunk_id \<leftarrow> field payload 1 17;
          Some (Ok (Some (HLockReq chunk_id (lock_kind_from_u8 k)))) }"
| "decode_call PtRecvAck payload =
     do { chunk_id \<leftarrow> field payload 0 4; Some (Ok (Some (HReceiveAck chunk_id))) }"
| "decode_call PtDeleteChunk payload =
     do { chunk_id \<leftarrow> field payload 0 16; Some (Ok (Some (HDeleteChunk chunk_id))) }"
| "decode_call PtCommit payload =
     do { f \<leftarrow> byte_at payload 0; chunk_id \<leftarrow> field payload 1 17;
          Some (Ok (Some (HCommit chunk_id (commit_flags_from_u8 f)))) }"
| "decode_call PtQuery payload =
     do { chunk_id \<leftarrow> field payload 0 16; Some (Ok (Some (HQuery chunk_id))) }"
| "decode_call _ payload = Some (Ok None)"

text \<open>The sender an answer packet goes to, and the channel with that sender taken out.\<close>

fun answer_sender :: "MDSFTPPacketType \<Rightarrow> InternalMDSFTPChannel \<Rightarrow> sender option" where
  "answer_sender PtReserveOk ch = Some (reserve_sender ch)"
| "answer_sender PtReserveErr ch = Some (reserve_sender ch)"
| "answer_sender PtLockAcquire ch = Some (lock_sender ch)"
| "answer_sender PtLockErr ch = Some (lock_sender ch)"
| "answer_sender PtPutErr ch = Some (put_sender ch)"
| "answer_sender PtPutOk ch = Some (put_sender ch)"
| "answer_sender PtCommitErr ch = Some (commit_sender ch)"
| "answer_sender PtCommitOk ch = Some (commit_sender ch)"
| "answer_sender PtQueryResponse ch = Some (query_sender ch)"
| "answer_sender _ ch = None"

fun clear_sender :: "MDSFTPPacketType \<Rightarrow> InternalMDSFTPChannel \<Rightarrow> InternalMDSFTPChannel" where
  "clear_sender PtReserveOk ch = ch\<lparr>reserve_sender := None\<rparr>"
| "clear_sender PtReserveErr ch = ch\<lparr>reserve_sender := None\<rparr>"
| "clear_sender PtLockAcquire ch = ch\<lparr>lock_sender := None\<rparr>"
| "clear_sender PtLockErr ch = ch\<lparr>lock_sender := None\<rparr>"
| "clear_sender PtPutErr ch = ch\<lparr>put_sender := None\<rparr>"
| "clear_sender PtPutOk ch = ch\<lparr>put_sender := None\<rparr>"
| "clear_sender PtCommitErr ch = ch\<lparr>commit_sender := None\<rparr>"
| "clear_sender PtCommitOk ch = ch\<lparr>commit_sender := None\<rparr>"
| "clear_sender PtQueryResponse ch = ch\<lparr>query_sender := None\<rparr>"
| "clear_sender _ ch = ch"

definition handle_packet ::
    "(handler_call \<Rightarrow> unit mdsftp_result) \<Rightarrow> MDSFTPRawPacket \<Rightarrow> InternalMDSFTPChannel \<Rightarrow>
     (unit mdsftp_result \<times> packet_effect \<times> InternalMDSFTPChannel) option" where
  "handle_packet handler p ch =
     (case answer_sender (rp_packet_type p) ch of
        Some tx \<Rightarrow>
          do { e \<leftarrow> answer tx (decode_delivery (rp_packet_type p) (rp_payload p));
               Some (Ok (), e, clear_sender (rp_packet_type p) ch) }
      | None \<Rightarrow>
          if \<not> incoming_handler ch then Some (Ok (), Ignored, ch)
          else do { r \<leftarrow> decode_call (rp_packet_type p) (rp_payload p);
                    Some (case r of
                            Err e \<Rightarrow> (Err e, Ignored, ch)
                          | Ok None \<Rightarrow> (Ok (), Ignored, ch)
                          | Ok (Some c) \<Rightarrow> (handler c, Called c, ch)) })"

text \<open>The end of the incoming handler, and the end of the channel: an interrupted channel answers
  every parked request with \<open>Interrupted\<close>; whoever awaits the handler is told \<open>Ok(())\<close>.\<close>

definition mark_handler_closed ::
    "unit mdsftp_result \<Rightarrow> InternalMDSFTPChannel \<Rightarrow>
     unit mdsftp_result option \<times> InternalMDSFTPChannel" where
  "mark_handler_closed r ch =
     (case handler_sender ch of
        Some alive \<Rightarrow> (if alive then Some r else None, ch\<lparr>handler_sender := None\<rparr>)
      | None \<Rightarrow> (None, ch))"

definition interrupt_if :: "sender \<Rightarrow> delivery \<Rightarrow> delivery list" where
  "interrupt_if tx d = (case tx of Some True \<Rightarrow> [d] | _ \<Rightarrow> [])"

record interrupt_effect =
  int_deliveries :: "delivery list"
  int_handler_result :: "unit mdsftp_result option"
  int_handler_interrupted :: bool

definition interrupt :: "InternalMDSFTPChannel \<Rightarrow> interrupt_effect" where
  "interrupt ch =
     \<lparr>int_deliveries =
        interrupt_if (lock_sender ch) (DeliverLock (Err Interrupted))
        @ interrupt_if (reserve_sender ch) (DeliverReserve (Err Interrupted))
        @ interrupt_if (put_sender ch) (DeliverPut (Err Interrupted))
        @ interrupt_if (query_sender ch) (DeliverQuery (Err Interrupted))
        @ interrupt_if (commit_sender ch) (DeliverCommit (Err Interrupted)),
      int_handler_result = (if handler_sender ch = Some True then Some (Ok ()) else None),
      int_handler_interrupted = (handler_sender ch \<noteq> None \<and> incoming_handler ch)\<rparr>"

subsection \<open>What the other side sees\<close>

text \<open>The packet each sending method writes, by the handler call it asks for on the other side.\<close>

fun call_packet :: "handler_call \<Rightarrow> InternalMDSFTPChannel \<Rightarrow> MDSFTPRawPacket" where
  "call_packet (HFileChunk content i l) ch = packet ch PtFileChunk (chunk_header l i @ content)"
| "call_packet (HRetrieve i b r) ch = retrieve_req i b r ch"
| "call_packet (HPut f i s) ch = fst (request_put f i s ch)"
| "call_packet (HReserve s bucket f fl) ch = fst (channel_try_reserve s f bucket fl ch)"
| "call_packet (HLockReq i k) ch = fst (request_lock k i ch)"
| "call_packet (HReceiveAck i) ch = respond_receive_ack i ch"
| "call_packet (HReserveCancel i) ch = cancel_reserve i ch"
| "call_packet (HDeleteChunk i) ch = channel_delete_chunk i ch"
| "call_packet (HCommit i f) ch = fst (channel_commit f i ch)"
| "call_packet (HQuery i) ch = fst (channel_query_chunk i ch)"

text \<open>What the other side's handler is asked for when a channel sends a call: nothing for an empty
  file chunk, and the whole chunk for a range whose ends add up to zero, the encoding of \<open>no
  range\<close>.\<close>

fun received_call :: "handler_call \<Rightarrow> handler_call option" where
  "received_call (HFileChunk content i l) = (if content = [] then None else Some (HFileChunk content i l))"
| "received_call (HRetrieve i b (Some r)) =
     Some (HRetrieve i b (if rng_start r + rng_end r = 0 then None else Some r))"
| "received_call c = Some c"

text \<open>A range comes from \<open>ChunkRange::new\<close>.\<close>

fun well_ranged :: "handler_call \<Rightarrow> bool" where
  "well_ranged (HRetrieve _ _ (Some r)) = (rng_start r < rng_end r)"
| "well_ranged _ = True"

lemmas sender_defs = packet_def request_lock_def channel_try_reserve_def channel_query_chunk_def
  channel_commit_def request_put_def cancel_reserve_def respond_lock_ok_def respond_lock_err_def
  respond_reserve_ok_def respond_reserve_err_def respond_receive_ack_def respond_put_ok_def
  respond_put_err_def respond_query_def retrieve_req_def channel_delete_chunk_def
  respond_commit_err_def respond_commit_ok_def

lemmas payload_defs = field_def slice_def byte_at_def from_to_be_bytes

lemma call_packet_stream [simp]: "rp_stream_id (call_packet c ch) = ch_id ch"
  by (cases c) (simp_all add: sender_defs Let_def)

lemma call_packet_validated: "received_call c = Some c' \<Longrightarrow> validated (call_packet c ch)"
  by (cases c) (auto simp: sender_defs validated_def chunk_header_def Let_def Suc_le_eq
      split: option.splits if_splits)

lemma call_packet_rejected:
  assumes "received_call c = None" "write_raw_packet (call_packet c ch) = Some bytes"
  shows "read_packet (bytes @ rest) = None"
proof (cases c)
  case (HFileChunk content i l)
  with assms show ?thesis
    using packet_type_round_trip [of PtFileChunk]
    by (auto simp: write_raw_packet_def packet_def chunk_header_def read_packet_def split: if_splits)
next
  case (HRetrieve i b r)
  with assms(1) show ?thesis by (cases r) simp_all
qed (use assms(1) in simp_all)

lemma call_packet_no_sender: "answer_sender (rp_packet_type (call_packet c ch)) ch' = None"
  by (cases c) (simp_all add: sender_defs Let_def)

lemma decode_range_default [simp]: "decode_range 0 0 = Ok None"
  by (simp add: decode_range_def)

lemma decode_range_proper:
  "rng_start r < rng_end r \<Longrightarrow>
   decode_range (rng_start r) (rng_end r) = Ok (if rng_start r + rng_end r = 0 then None else Some r)"
  by (cases r) (auto simp: decode_range_def chunk_range_new_def)

lemma decode_call_packet:
  assumes "well_ranged c" "received_call c = Some c'"
  shows "decode_call (rp_packet_type (call_packet c ch)) (rp_payload (call_packet c ch))
         = Some (Ok (Some c'))"
proof (cases c)
  case (HRetrieve i b r)
  with assms show ?thesis
    by (cases r) (auto simp: sender_defs payload_defs chunk_range_default_def decode_range_proper)
qed (use assms in \<open>auto simp: sender_defs payload_defs chunk_header_def bool_u8_def split: if_splits\<close>)

text \<open>C9. What the other side makes of everything a channel sends. From the bytes of a call that the
  channel writes, the other side's reader recovers one packet for that channel, and the dispatcher
  there, with a handler installed, makes exactly the handler call the sender asked for with the same
  arguments and returns the handler's result. There are two exceptions, which \<open>received_call\<close> names:
  an empty file chunk is rejected by the reader, which closes the connection without calling
  anything, and a range whose ends wrap to zero arrives as the request for the whole chunk.\<close>

theorem request_reaches_handler:
  assumes "well_ranged c" and "write_raw_packet (call_packet c ch) = Some bytes"
    and "incoming_handler ch'"
  shows "case received_call c of
      None \<Rightarrow> (\<exists>i l. c = HFileChunk [] i l) \<and> read_packet (bytes @ rest) = None
    | Some c' \<Rightarrow> \<exists>p. read_packet (bytes @ rest) = Some (p, rest) \<and> rp_stream_id p = ch_id ch
             \<and> handle_packet h p ch' = Some (h c', Called c', ch')
             \<and> (c' = c \<or> (\<exists>i b r. c = HRetrieve i b (Some r) \<and> c' = HRetrieve i b None \<and> rng_start r + rng_end r = 0))"
proof (cases "received_call c")
  case None
  then have "\<exists>i l. c = HFileChunk [] i l"
    by (cases c rule: received_call.cases) (auto split: if_splits)
  with None call_packet_rejected [OF None assms(2)] show ?thesis by simp
next
  case (Some c')
  have "read_packet (bytes @ rest) = Some (call_packet c ch, rest)"
    using assms(2) call_packet_validated [OF Some] by (rule read_packet_write)
  moreover have "handle_packet h (call_packet c ch) ch' = Some (h c', Called c', ch')"
    using assms Some
    by (simp add: handle_packet_def call_packet_no_sender decode_call_packet)
  moreover have "c' = c \<or> (\<exists>i b r. c = HRetrieve i b (Some r) \<and> c' = HRetrieve i b None \<and> rng_start r + rng_end r = 0)"
    using Some by (cases c rule: received_call.cases) (auto split: if_splits)
  ultimately show ?thesis by (simp add: Some)
qed

theorem request_reaches_handler_witness:
  "\<exists>p. read_packet (the (write_raw_packet (call_packet (HPut \<lparr>put_append = True\<rparr> 5 77) (channel_new 3)))
                     @ [1])
        = Some (p, [1]) \<and> rp_stream_id p = ch_id (channel_new 3)
      \<and> handle_packet (\<lambda>_. Err NoSuchChunkId) p (set_incoming_handler (channel_new 3))
        = Some (Err NoSuchChunkId, Called (HPut \<lparr>put_append = True\<rparr> 5 77),
                set_incoming_handler (channel_new 3))"
proof -
  let ?c = "HPut \<lparr>put_append = True\<rparr> 5 77"
  have "write_raw_packet (call_packet ?c (channel_new 3)) = Some (the (write_raw_packet (call_packet ?c (channel_new 3))))"
    by (simp add: write_raw_packet_def PAYLOAD_SIZE_def sender_defs)
  from request_reaches_handler [of ?c, OF _ this, of "set_incoming_handler (channel_new 3)" "[1]" "\<lambda>_. Err NoSuchChunkId"]
  show ?thesis by (auto simp: set_incoming_handler_def)
qed

text \<open>The answers: what each \<open>respond_...\<close> method sends and what the waiting request gets.\<close>

datatype response =
    RespLockOk uuid LockKind | RespLockErr uuid LockKind ChunkErrorKind
  | RespReserveOk uuid u16 | RespReserveErr u64
  | RespPutOk u16 | RespPutErr ChunkErrorKind
  | RespQuery u64 bool
  | RespCommitOk | RespCommitErr ChunkErrorKind

fun response_packet :: "response \<Rightarrow> InternalMDSFTPChannel \<Rightarrow> MDSFTPRawPacket" where
  "response_packet (RespLockOk i k) ch = respond_lock_ok i k ch"
| "response_packet (RespLockErr i k e) ch = respond_lock_err i k e ch"
| "response_packet (RespReserveOk i b) ch = respond_reserve_ok i b ch"
| "response_packet (RespReserveErr s) ch = respond_reserve_err s ch"
| "response_packet (RespPutOk b) ch = respond_put_ok b ch"
| "response_packet (RespPutErr e) ch = respond_put_err e ch"
| "response_packet (RespQuery s x) ch = respond_query s x ch"
| "response_packet RespCommitOk ch = respond_commit_ok ch"
| "response_packet (RespCommitErr e) ch = respond_commit_err e ch"

fun awaited :: "response \<Rightarrow> delivery" where
  "awaited (RespLockOk i k) = DeliverLock (Ok \<lparr>la_kind = k, la_chunk_id = i\<rparr>)"
| "awaited (RespLockErr i k e) = DeliverLock (Err (mdsftp_from_chunk_error e))"
| "awaited (RespReserveOk i b) = DeliverReserve (Ok \<lparr>rr_chunk_id = i, rr_chunk_buffer = b\<rparr>)"
| "awaited (RespReserveErr s) = DeliverReserve (Err (ReserveError s))"
| "awaited (RespPutOk b) = DeliverPut (Ok \<lparr>pr_chunk_buffer = b\<rparr>)"
| "awaited (RespPutErr e) = DeliverPut (Err (mdsftp_from_chunk_error e))"
| "awaited (RespQuery s x) = DeliverQuery (if x then Ok \<lparr>qr_size = s\<rparr> else Err NoSuchChunkId)"
| "awaited RespCommitOk = DeliverCommit (Ok CommitResult)"
| "awaited (RespCommitErr e) = DeliverCommit (Err (mdsftp_from_chunk_error e))"

lemma response_stream [simp]: "rp_stream_id (response_packet r ch) = ch_id ch"
  by (cases r) (simp_all add: sender_defs)

lemma response_validated: "validated (response_packet r ch)"
  by (cases r) (simp_all add: sender_defs validated_def)

lemma decode_response:
  "decode_delivery (rp_packet_type (response_packet r ch)) (rp_payload (response_packet r ch))
   = Some (awaited r)"
  by (cases r)
    (simp_all add: sender_defs payload_defs decode_query_response_def bool_u8_def)

text \<open>C10. Every answer a handler sends reaches the request that waits for it: from its bytes the
  other side recovers one packet for the channel, the parked sender receives exactly the result or
  error the answer stands for, and the sender is taken out, so a second answer is ignored. A
  request that nobody awaits any more drops the answer.\<close>

theorem answer_reaches_waiter:
  assumes "write_raw_packet (response_packet r ch) = Some bytes"
    and "answer_sender (rp_packet_type (response_packet r ch)) ch' = Some tx" and "tx \<noteq> Some False"
  shows "\<exists>p. read_packet (bytes @ rest) = Some (p, rest) \<and> rp_stream_id p = ch_id ch
             \<and> handle_packet h p ch' =
                 Some (Ok (), if tx = None then Ignored else Delivered (awaited r),
                       clear_sender (rp_packet_type p) ch')
             \<and> answer_sender (rp_packet_type p) (clear_sender (rp_packet_type p) ch') = Some None"
proof -
  let ?p = "response_packet r ch"
  have "read_packet (bytes @ rest) = Some (?p, rest)"
    using assms(1) response_validated by (rule read_packet_write)
  moreover have "handle_packet h ?p ch' =
      Some (Ok (), if tx = None then Ignored else Delivered (awaited r),
            clear_sender (rp_packet_type ?p) ch')"
    using assms(2,3)
    by (cases tx) (auto simp: handle_packet_def answer_def decode_response)
  moreover have "answer_sender (rp_packet_type ?p) (clear_sender (rp_packet_type ?p) ch')
      = Some None" by (cases r) (simp_all add: sender_defs)
  ultimately show ?thesis by simp
qed

theorem answer_reaches_waiter_witness:
  "\<exists>p. read_packet (the (write_raw_packet (response_packet (RespReserveErr 12) (channel_new 4))) @ [])
        = Some (p, []) \<and> rp_stream_id p = ch_id (channel_new 4)
      \<and> handle_packet (\<lambda>_. Ok ()) p (snd (channel_try_reserve 40 1 2 (reserve_flags_from_u8 0) (channel_new 4)))
        = Some (Ok (), if Some True = None then Ignored else Delivered (awaited (RespReserveErr 12)),
                clear_sender (rp_packet_type p)
                  (snd (channel_try_reserve 40 1 2 (reserve_flags_from_u8 0) (channel_new 4))))
      \<and> answer_sender (rp_packet_type p) (clear_sender (rp_packet_type p)
          (snd (channel_try_reserve 40 1 2 (reserve_flags_from_u8 0) (channel_new 4)))) = Some None"
proof (rule answer_reaches_waiter)
  show "write_raw_packet (response_packet (RespReserveErr 12) (channel_new 4)) =
    Some (the (write_raw_packet (response_packet (RespReserveErr 12) (channel_new 4))))"
    by (simp add: write_raw_packet_def PAYLOAD_SIZE_def sender_defs)
qed (simp_all add: sender_defs)

text \<open>C23. No packet that passed the reader's length validation makes the dispatcher panic, as long
  as the request it answers, if there is one, has not been abandoned by its caller.\<close>

theorem dispatch_never_panics:
  assumes "read_packet stream = Some (p, rest)" and "\<forall>tx. answer_sender (rp_packet_type p) ch = Some tx \<longrightarrow> tx \<noteq> Some False"
  shows "handle_packet h p ch \<noteq> None"
proof -
  from assms(1) have v: "validated p" by (rule read_packet_validated)
  then have d: "answer_sender (rp_packet_type p) ch = Some tx \<Longrightarrow>
      \<exists>d. decode_delivery (rp_packet_type p) (rp_payload p) = Some d" for tx
    by (cases "rp_packet_type p")
      (auto simp: validated_def payload_defs decode_query_response_def)
  from v have c: "decode_call (rp_packet_type p) (rp_payload p) \<noteq> None"
    by (cases "rp_packet_type p") (auto simp: validated_def payload_defs)
  show ?thesis
  proof (cases "answer_sender (rp_packet_type p) ch")
    case None
    from c obtain r where "decode_call (rp_packet_type p) (rp_payload p) = Some r" by blast
    with None show ?thesis by (simp add: handle_packet_def del: not_None_eq)
  next
    case (Some tx)
    with d assms(2) show ?thesis
      by (cases tx) (fastforce simp: handle_packet_def answer_def)+
  qed
qed

theorem dispatch_never_panics_witness:
  "handle_packet (\<lambda>_. Ok ())
     \<lparr>rp_packet_type = PtPutErr, rp_stream_id = 1, rp_payload = [2]\<rparr>
     (snd (request_put \<lparr>put_append = False\<rparr> 5 77 (channel_new 1))) \<noteq> None"
proof (rule dispatch_never_panics)
  show "read_packet [14, 0, 0, 0, 1, 0, 0, 0, 1, 2] =
    Some (\<lparr>rp_packet_type = PtPutErr, rp_stream_id = 1, rp_payload = [2]\<rparr>, [])"
    by (simp add: read_packet_def HEADER_SIZE_def read_header_def from_be_bytes_def nat_of_be_def
        packet_type_try_from_def packet_types_def)
qed (simp add: sender_defs)

text \<open>An empty last chunk cannot be sent: the five byte chunk header alone is shorter than the
  six bytes the reader demands of a file chunk, so the receiving reader closes the whole
  connection.\<close>

theorem empty_chunk_closes_connection:
  "read_packet (send_chunk is_last i [] ch @ rest) = None"
  using packet_type_round_trip [of PtFileChunk]
  by (simp add: read_packet_def send_chunk_def write_chunk_def chunk_header_def)

end
