(* ===== verification/Mdsftp_Connection.thy ===== *)
theory Mdsftp_Connection
  imports Mdsftp_Channel
begin

section \<open>MDSFTP connections and the connection pool\<close>

text \<open>
  The reader task of a connection (\<^verbatim>\<open>net/packet_reader.rs\<close>), the connection with its channel
  factory (\<^verbatim>\<open>connection.rs\<close>) and the pool that keeps the connections to the other nodes
  (\<^verbatim>\<open>pool.rs\<close>).

  The reader owns the map of open channels and an atomic count of them. Its loop is \<open>reader_loop\<close>
  over the bytes that arrive; the incoming handlers are a parameter. Random channel ids and the
  TLS handshake of a new connection are arguments. The last part abstracts from the packets and
  models only who holds the writer of a shared connection, on both of its ends.

  The lemmas show that channel ids are fresh and that the two ends can never pick the same one,
  what the channel count counts, which connection the pool picks, and how requests and answers
  interlock over the writer.
\<close>

subsection \<open>The packet reader\<close>

record PacketReader =
  conn_map :: "u32 \<rightharpoonup> InternalMDSFTPChannel"
  pr_running :: bool
  pr_channel_count :: u64
  pr_last_read :: instant

definition packet_reader_new :: "instant \<Rightarrow> PacketReader" where
  "packet_reader_new t =
     \<lparr>conn_map = Map.empty, pr_running = False, pr_channel_count = 0, pr_last_read = t\<rparr>"

text \<open>\<open>close_map\<close> interrupts every channel; the interrupts are returned by channel.\<close>

definition close_map :: "PacketReader \<Rightarrow> (u32 \<rightharpoonup> interrupt_effect) \<times> PacketReader" where
  "close_map r =
     (\<lambda>i. map_option interrupt (conn_map r i),
      r\<lparr>conn_map := Map.empty, pr_channel_count := 0, pr_running := False\<rparr>)"

definition add_channel :: "u32 \<Rightarrow> InternalMDSFTPChannel \<Rightarrow> PacketReader \<Rightarrow> PacketReader" where
  "add_channel i ch r =
     (case conn_map r i of
        Some _ \<Rightarrow> r
      | None \<Rightarrow> r\<lparr>conn_map := (conn_map r)(i \<mapsto> ch), pr_channel_count := pr_channel_count r + 1\<rparr>)"

definition remove_channel :: "u32 \<Rightarrow> PacketReader \<Rightarrow> interrupt_effect option \<times> PacketReader" where
  "remove_channel i r =
     (case conn_map r i of
        Some removed \<Rightarrow>
          (Some (interrupt removed),
           r\<lparr>conn_map := (conn_map r)(i := None), pr_channel_count := pr_channel_count r - 1\<rparr>)
      | None \<Rightarrow> (None, r))"

text \<open>The system packets. \<open>GIncoming\<close>, \<open>GClose\<close> and \<open>GErr\<close> are the calls of the global packet
  handler, whose \<open>channel_incoming\<close> (\<^verbatim>\<open>node/src/file_transfer/packet_handler.rs\<close>) installs the
  incoming handler on the new channel.\<close>

datatype global_call = GIncoming u32 | GClose u32 interrupt_effect | GErr u32 | GNone

definition handle_global :: "MDSFTPRawPacket \<Rightarrow> PacketReader \<Rightarrow> global_call \<times> PacketReader" where
  "handle_global p r =
     (case rp_packet_type p of
        PtChannelOpen \<Rightarrow>
          (GIncoming (rp_stream_id p),
           add_channel (rp_stream_id p) (set_incoming_handler (channel_new (rp_stream_id p))) r)
      | PtChannelClose \<Rightarrow>
          (case conn_map r (rp_stream_id p) of
             Some removed \<Rightarrow>
               (GClose (rp_stream_id p) (interrupt removed),
                r\<lparr>conn_map := (conn_map r)(rp_stream_id p := None)\<rparr>)
           | None \<Rightarrow> (GNone, r))
      | PtChannelErr \<Rightarrow> (GErr (rp_stream_id p), r)
      | _ \<Rightarrow> (GNone, r))"

text \<open>What one packet does: a system packet goes to the global handler, any other to its channel,
  where \<open>ConnectionError\<close> poisons the connection. \<open>None\<close> is a panic of the dispatcher.\<close>

definition dispatch ::
    "(u32 \<Rightarrow> handler_call \<Rightarrow> unit mdsftp_result) \<Rightarrow> MDSFTPRawPacket \<Rightarrow> PacketReader \<Rightarrow>
     PacketReader option" where
  "dispatch handlers p r =
     (if is_system (rp_packet_type p) then Some (snd (handle_global p r))
      else
        case conn_map r (rp_stream_id p) of
          None \<Rightarrow> Some r
        | Some ch \<Rightarrow>
            do { (res, _, ch') \<leftarrow> handle_packet (handlers (rp_stream_id p)) p ch;
                 if res = Err ConnectionError then Some (snd (close_map r))
                 else Some (r\<lparr>conn_map := (conn_map r)(rp_stream_id p \<mapsto> ch')\<rparr>) })"

text \<open>\<open>clock rest\<close> is the time at which the reader gets to the bytes \<open>rest\<close>.\<close>

function reader_loop ::
    "(u32 \<Rightarrow> handler_call \<Rightarrow> unit mdsftp_result) \<Rightarrow> (u8 list \<Rightarrow> instant) \<Rightarrow> u8 list \<Rightarrow>
     PacketReader \<Rightarrow> PacketReader option" where
  "reader_loop handlers clock stream r =
     (if \<not> pr_running r then Some r
      else
        case read_packet stream of
          None \<Rightarrow> Some (snd (close_map r))
        | Some (p, rest) \<Rightarrow>
            do { r' \<leftarrow> dispatch handlers p (r\<lparr>pr_last_read := clock rest\<rparr>);
                 reader_loop handlers clock rest r' })"
  by pat_completeness auto
termination
  by (relation "measure (\<lambda>(_, _, s, _). length s)") (auto simp: read_packet_shorter)

declare reader_loop.simps [simp del]

subsection \<open>Connections\<close>

record MDSFTPConnection =
  cn_reader :: PacketReader
  cn_local :: bool
  cn_is_closing :: bool
  cn_local_id :: uuid
  cn_last_write :: instant

text \<open>\<open>gen_range(1..0x80000000)\<close> is drawn up to five times; \<open>draws\<close> are the numbers drawn.\<close>

definition remote_offset :: "bool \<Rightarrow> u32" where
  "remote_offset is_local = (if is_local then 0 else 0x80000000)"

fun try_ids :: "nat \<Rightarrow> u32 list \<Rightarrow> u32 \<Rightarrow> (u32 \<rightharpoonup> 'c) \<Rightarrow> u32 mdsftp_result" where
  "try_ids 0 draws offset m = Err MaxChannels"
| "try_ids (Suc n) [] offset m = Err MaxChannels"
| "try_ids (Suc n) (d # draws) offset m =
     (if m (d + offset) = None then Ok (d + offset) else try_ids n draws offset m)"

definition generate_id :: "u32 list \<Rightarrow> MDSFTPConnection \<Rightarrow> u32 mdsftp_result" where
  "generate_id draws c =
     (if card (dom (conn_map (cn_reader c))) \<ge> 1000000 then Err MaxChannels
      else try_ids 5 draws (remote_offset (cn_local c)) (conn_map (cn_reader c)))"

definition connection_channel_count :: "MDSFTPConnection \<Rightarrow> u64" where
  "connection_channel_count c = pr_channel_count (cn_reader c)"

definition safe_to_close :: "MDSFTPConnection \<Rightarrow> bool" where
  "safe_to_close c \<longleftrightarrow> connection_channel_count c = 0"

definition last_access :: "MDSFTPConnection \<Rightarrow> instant" where
  "last_access c =
     (let last_read = pr_last_read (cn_reader c); last_write = pr_last_read (cn_reader c)
      in max last_read last_write)"

text \<open>Opening a channel: the id, the channel registered with the reader, and the \<open>ChannelOpen\<close>
  packet for the other side, whose write may fail.\<close>

definition materialize_channel ::
    "bool \<Rightarrow> u32 \<Rightarrow> MDSFTPConnection \<Rightarrow> u32 mdsftp_result \<times> MDSFTPConnection" where
  "materialize_channel write_ok i c =
     (if write_ok then Ok i else Err ConnectionError,
      c\<lparr>cn_reader := add_channel i (channel_new i) (cn_reader c)\<rparr>)"

definition create_channel ::
    "u32 list \<Rightarrow> bool \<Rightarrow> MDSFTPConnection \<Rightarrow> u32 mdsftp_result \<times> MDSFTPConnection" where
  "create_channel draws write_ok c =
     (if \<not> pr_running (cn_reader c) then (Err ConnectionError, c)
      else if cn_is_closing c then (Err Interrupted, c)
      else case generate_id draws c of
             Err e \<Rightarrow> (Err e, c)
           | Ok i \<Rightarrow> materialize_channel write_ok i c)"

definition connection_close :: "MDSFTPConnection \<Rightarrow> MDSFTPConnection" where
  "connection_close c = c\<lparr>cn_is_closing := True, cn_reader := snd (close_map (cn_reader c))\<rparr>"

subsection \<open>The pool\<close>

definition STALE_TIMEOUT :: nat where
  "STALE_TIMEOUT = 5 * 60 * 1000000000"

record InternalMDSFTPPool =
  connection_map :: "uuid \<Rightarrow> MDSFTPConnection list"
  packet_handler :: bool
  shutting_down :: bool
  node_addr_map :: "uuid \<rightharpoonup> string"

text \<open>\<open>Iterator::min_by_key\<close>: the first element with the least key.\<close>

fun min_by_key :: "('a \<Rightarrow> 'b::linorder) \<Rightarrow> 'a \<Rightarrow> 'a list \<Rightarrow> 'a" where
  "min_by_key k x [] = x"
| "min_by_key k x (y # ys) = min_by_key k (if k y < k x then y else x) ys"

text \<open>\<open>connect\<close> is the TCP connection and TLS handshake to an address.\<close>

definition create_connection ::
    "(string \<Rightarrow> MDSFTPConnection mdsftp_result) \<Rightarrow> uuid \<Rightarrow> InternalMDSFTPPool \<Rightarrow>
     MDSFTPConnection mdsftp_result" where
  "create_connection connect target p =
     (if shutting_down p then Err ShuttingDown
      else case node_addr_map p target of
             None \<Rightarrow> Err NoSuchNode
           | Some addr \<Rightarrow> connect addr)"

definition get_connection ::
    "(string \<Rightarrow> MDSFTPConnection mdsftp_result) \<Rightarrow> uuid \<Rightarrow> InternalMDSFTPPool \<Rightarrow>
     MDSFTPConnection mdsftp_result \<times> InternalMDSFTPPool" where
  "get_connection connect node_id p =
     (case connection_map p node_id of
        c # cs \<Rightarrow> (Ok (min_by_key connection_channel_count c cs), p)
      | [] \<Rightarrow>
          if \<not> packet_handler p then (Err NoPacketHandler, p)
          else case create_connection connect node_id p of
                 Err e \<Rightarrow> (Err e, p)
               | Ok c \<Rightarrow> (Ok c, p\<lparr>connection_map := (connection_map p)(node_id := [c])\<rparr>))"

text \<open>The channel is opened on a clone of the connection handle, that is on the shared connection:
  \<open>replace_connection\<close> writes the changed connection back to where it is listed.\<close>

definition replace_connection ::
    "MDSFTPConnection \<Rightarrow> MDSFTPConnection list \<Rightarrow> MDSFTPConnection list" where
  "replace_connection c cs = map (\<lambda>d. if cn_local_id d = cn_local_id c then c else d) cs"

definition pool_channel ::
    "(string \<Rightarrow> MDSFTPConnection mdsftp_result) \<Rightarrow> u32 list \<Rightarrow> bool \<Rightarrow> uuid \<Rightarrow>
     InternalMDSFTPPool \<Rightarrow> u32 mdsftp_result \<times> InternalMDSFTPPool" where
  "pool_channel connect draws write_ok node_id p =
     (case get_connection connect node_id p of
        (Err e, p') \<Rightarrow> (Err e, p')
      | (Ok c, p') \<Rightarrow>
          (let (r, c') = create_channel draws write_ok c
           in (r, p'\<lparr>connection_map := (connection_map p')
                      (node_id := replace_connection c' (connection_map p' node_id))\<rparr>)))"

definition add_connection ::
    "uuid \<Rightarrow> MDSFTPConnection \<Rightarrow> InternalMDSFTPPool \<Rightarrow> unit mdsftp_result \<times> InternalMDSFTPPool" where
  "add_connection i c p =
     (if shutting_down p then (Err ShuttingDown, p)
      else if \<not> packet_handler p then (Err NoPacketHandler, p)
      else (Ok (), p\<lparr>connection_map := (connection_map p)(i := connection_map p i @ [c])\<rparr>))"

text \<open>One round of the stale connection watcher: the connections it closes leave the pool.\<close>

definition is_stale :: "instant \<Rightarrow> MDSFTPConnection \<Rightarrow> bool" where
  "is_stale t c \<longleftrightarrow> t - last_access c > STALE_TIMEOUT \<and> safe_to_close c"

definition sweep_stale :: "instant \<Rightarrow> InternalMDSFTPPool \<Rightarrow> InternalMDSFTPPool" where
  "sweep_stale t p =
     p\<lparr>connection_map := (\<lambda>i.
        let mark = map cn_local_id (List.filter (is_stale t) (connection_map p i))
        in List.filter (\<lambda>c. cn_local_id c \<notin> set mark) (connection_map p i))\<rparr>"

definition pool_close :: "InternalMDSFTPPool \<Rightarrow> InternalMDSFTPPool" where
  "pool_close p = p\<lparr>shutting_down := True, connection_map := (\<lambda>_. [])\<rparr>"

subsection \<open>Channel ids\<close>

lemma try_ids_Ok:
  "try_ids n draws offset m = Ok i \<Longrightarrow> m i = None \<and> (\<exists>d\<in>set draws. i = d + offset)"
  by (induction n draws offset m rule: try_ids.induct) (auto split: if_splits)

text \<open>A channel id a connection generates is not in use on that connection, and the ids the
  two ends of a connection generate come from disjoint halves: those of the end that connected are
  below 2^31 (and not 0), those of the end that accepted are above.\<close>

theorem generate_id_fresh:
  assumes "generate_id draws c = Ok i"
    and "list_all (\<lambda>d. 1 \<le> unat d \<and> unat d < 2 ^ 31) draws"
  shows "conn_map (cn_reader c) i = None \<and> (cn_local c \<longleftrightarrow> unat i < 2 ^ 31) \<and> 0 < unat i"
proof -
  from assms(1) have "try_ids 5 draws (remote_offset (cn_local c)) (conn_map (cn_reader c)) = Ok i"
    by (auto simp: generate_id_def split: if_splits)
  from try_ids_Ok [OF this] obtain d where fresh: "conn_map (cn_reader c) i = None"
    and d: "d \<in> set draws" "i = d + remote_offset (cn_local c)" by blast
  from d(1) assms(2) have range: "1 \<le> unat d" "unat d < 2 ^ 31" by (auto simp: list_all_iff)
  have "unat i = unat d + (if cn_local c then 0 else 2 ^ 31)"
    using range by (simp add: d(2) remote_offset_def unat_add_lem [THEN iffD1])
  with fresh range show ?thesis by auto
qed

definition idle_connection :: "bool \<Rightarrow> uuid \<Rightarrow> MDSFTPConnection" where
  "idle_connection is_local i =
     \<lparr>cn_reader = (packet_reader_new 0)\<lparr>pr_running := True\<rparr>, cn_local = is_local,
      cn_is_closing = False, cn_local_id = i, cn_last_write = 0\<rparr>"

theorem generate_id_fresh_witness:
  "conn_map (cn_reader (idle_connection False 1)) (17 + 0x80000000) = None
   \<and> (cn_local (idle_connection False 1) \<longleftrightarrow> unat (17 + 0x80000000 :: u32) < 2 ^ 31)
   \<and> 0 < unat (17 + 0x80000000 :: u32)"
proof -
  have g: "generate_id [17] (idle_connection False 1) = Ok (17 + 0x80000000)"
    using try_ids.simps(3) [of 4 17 "[]" "0x80000000" Map.empty]
    by (simp add: generate_id_def idle_connection_def packet_reader_new_def remote_offset_def)
  have d: "list_all (\<lambda>d::u32. 1 \<le> unat d \<and> unat d < 2 ^ 31) [17]" by simp
  show ?thesis using generate_id_fresh [OF g d] .
qed

subsection \<open>What the channel count counts\<close>

datatype reader_op = OpAdd u32 | OpRemove u32 | OpGlobal MDSFTPRawPacket

fun apply_op :: "reader_op \<Rightarrow> PacketReader \<Rightarrow> PacketReader" where
  "apply_op (OpAdd i) r = add_channel i (channel_new i) r"
| "apply_op (OpRemove i) r = snd (remove_channel i r)"
| "apply_op (OpGlobal p) r = snd (handle_global p r)"

definition remote_close :: "reader_op \<Rightarrow> PacketReader \<Rightarrow> bool" where
  "remote_close opn r =
     (case opn of
        OpGlobal p \<Rightarrow> rp_packet_type p = PtChannelClose \<and> conn_map r (rp_stream_id p) \<noteq> None
      | _ \<Rightarrow> False)"

fun run_ops :: "reader_op list \<Rightarrow> PacketReader \<Rightarrow> PacketReader" where
  "run_ops [] r = r"
| "run_ops (x # xs) r = run_ops xs (apply_op x r)"

fun remote_closes :: "reader_op list \<Rightarrow> PacketReader \<Rightarrow> nat" where
  "remote_closes [] r = 0"
| "remote_closes (x # xs) r = (if remote_close x r then 1 else 0) + remote_closes xs (apply_op x r)"

definition counted :: "nat \<Rightarrow> PacketReader \<Rightarrow> bool" where
  "counted n r \<longleftrightarrow>
     finite (dom (conn_map r)) \<and> pr_channel_count r = of_nat (card (dom (conn_map r)) + n)"

lemma counted_add: "counted n r \<Longrightarrow> counted n (add_channel i ch r)"
  by (auto simp: counted_def add_channel_def domIff split: option.splits)

lemma card_dom_delete:
  "finite (dom m) \<Longrightarrow> m i = Some x \<Longrightarrow> card (dom m) = Suc (card (dom m - {i}))"
  by (metis card_Suc_Diff1 domI)

lemma counted_remove: "counted n r \<Longrightarrow> counted n (snd (remove_channel i r))"
  by (auto simp: counted_def remove_channel_def card_dom_delete split: option.splits)

lemma counted_close:
  "counted n r \<Longrightarrow> conn_map r i = Some x \<Longrightarrow> counted (Suc n) (r\<lparr>conn_map := (conn_map r)(i := None)\<rparr>)"
  by (auto simp: counted_def card_dom_delete)

lemma counted_op:
  "counted n r \<Longrightarrow> counted (n + (if remote_close x r then 1 else 0)) (apply_op x r)"
  by (cases x; auto simp: remote_close_def handle_global_def counted_add counted_remove counted_close
      split: MDSFTPPacketType.split option.split)

lemma counted_run: "counted n r \<Longrightarrow> counted (n + remote_closes ops r) (run_ops ops r)"
proof (induction ops arbitrary: n r)
  case (Cons x xs)
  from Cons.IH [OF counted_op [OF Cons.prems, of x]] show ?case by (simp add: add.assoc)
qed simp

text \<open>The channel count of a connection is the number of its open channels plus the number of
  channels the other side has closed so far: a channel that the remote closes leaves the map but
  is never subtracted. A connection that has seen fewer than 2^64 of them and at least one is
  therefore never considered safe to close, even with no channel open.\<close>

theorem channel_count_leaks:
  assumes "cn_reader c = run_ops ops (packet_reader_new t)"
  shows "connection_channel_count c =
           of_nat (card (dom (conn_map (cn_reader c))) + remote_closes ops (packet_reader_new t))
         \<and> (dom (conn_map (cn_reader c)) = {} \<and> 0 < remote_closes ops (packet_reader_new t)
             \<and> remote_closes ops (packet_reader_new t) < 2 ^ 64 \<longrightarrow> \<not> safe_to_close c)"
proof -
  have "counted 0 (packet_reader_new t)" by (simp add: counted_def packet_reader_new_def)
  from counted_run [OF this, of ops] assms
  have "connection_channel_count c =
      of_nat (card (dom (conn_map (cn_reader c))) + remote_closes ops (packet_reader_new t))"
    by (simp add: counted_def connection_channel_count_def)
  then show ?thesis
    using unat_of_nat_small [of "remote_closes ops (packet_reader_new t)", where ?'a = 64]
    by (auto simp: safe_to_close_def)
qed

definition remote_open_close :: "reader_op list" where
  "remote_open_close =
     [OpGlobal \<lparr>rp_packet_type = PtChannelOpen, rp_stream_id = 9, rp_payload = []\<rparr>,
      OpGlobal \<lparr>rp_packet_type = PtChannelClose, rp_stream_id = 9, rp_payload = []\<rparr>]"

theorem channel_count_leaks_witness:
  "\<not> safe_to_close ((idle_connection True 1)
       \<lparr>cn_reader := run_ops remote_open_close (packet_reader_new 0)\<rparr>)"
  using channel_count_leaks [of "(idle_connection True 1)
       \<lparr>cn_reader := run_ops remote_open_close (packet_reader_new 0)\<rparr>" remote_open_close 0]
  by (simp add: remote_open_close_def handle_global_def packet_reader_new_def add_channel_def
    remote_close_def)

subsection \<open>Which connection the pool picks\<close>

lemma min_by_key_in: "min_by_key k x ys \<in> insert x (set ys)"
  by (induction ys arbitrary: x) auto

lemma min_by_key_le: "z \<in> insert x (set ys) \<Longrightarrow> k (min_by_key k x ys) \<le> k z"
proof (induction ys arbitrary: x z)
  case (Cons y ys)
  let ?x = "if k y < k x then y else x"
  have "k (min_by_key k ?x ys) \<le> k ?x" "w \<in> set ys \<Longrightarrow> k (min_by_key k ?x ys) \<le> k w" for w
    using Cons.IH [of ?x ?x] Cons.IH [of w ?x] by auto
  with Cons.prems show ?case by (auto split: if_splits)
qed simp

text \<open>A closed connection is never replaced and is preferred to a busy one. As long as the pool
  lists a connection to a node whose reader has stopped (which sets its channel count to zero) and
  every connection to it that still runs has a channel open, every attempt to open a channel to
  that node fails with \<open>ConnectionError\<close>; no new connection is made, even if the node can be
  reached.\<close>

theorem closed_connection_blocks_node:
  assumes "c \<in> set (connection_map p node_id)" and "connection_channel_count c = 0"
    and "\<forall>d. d \<in> set (connection_map p node_id) \<and> pr_running (cn_reader d)
           \<longrightarrow> connection_channel_count d > 0"
  shows "fst (pool_channel connect draws write_ok node_id p) = Err ConnectionError
         \<and> snd (get_connection connect node_id p) = p"
proof -
  from assms(1) obtain x xs where conns: "connection_map p node_id = x # xs"
    by (cases "connection_map p node_id") auto
  let ?d = "min_by_key connection_channel_count x xs"
  have "?d \<in> set (connection_map p node_id)" using min_by_key_in [of _ x xs] by (simp add: conns)
  moreover have "connection_channel_count ?d \<le> connection_channel_count c"
    using assms(1) by (intro min_by_key_le) (simp add: conns)
  ultimately have "\<not> pr_running (cn_reader ?d)" using assms(2,3) by force
  then show ?thesis
    by (simp add: pool_channel_def get_connection_def conns create_channel_def)
qed

definition sample_pool :: InternalMDSFTPPool where
  "sample_pool =
     \<lparr>connection_map = (\<lambda>_. [connection_close (idle_connection True 1)]), packet_handler = True,
      shutting_down = False, node_addr_map = (\<lambda>_. Some ''10.0.0.2'')\<rparr>"

theorem closed_connection_blocks_node_witness:
  "fst (pool_channel (\<lambda>_. Ok (idle_connection True 2)) [17] True 5 sample_pool) = Err ConnectionError
   \<and> snd (get_connection (\<lambda>_. Ok (idle_connection True 2)) 5 sample_pool) = sample_pool"
proof (rule closed_connection_blocks_node)
  show "connection_close (idle_connection True 1) \<in> set (connection_map sample_pool 5)"
    by (simp add: sample_pool_def)
qed (simp_all add: sample_pool_def connection_close_def close_map_def connection_channel_count_def)

subsection \<open>Requests and answers over one writer\<close>

text \<open>A request method locks the connection's writer, sends the packet and awaits the answer with
  the writer still locked. The reader task of the other side runs the handler, which locks its own
  writer for the answer. Not every handler answers: a granted \<open>LockReq\<close> is stored without a word, and
  a \<open>Put\<close> or \<open>Reserve\<close> whose stream cannot be opened returns its error to the reader only. An end
  of a connection is then: whether one of its requests holds the writer, and the packets on their way
  to its reader; a request packet carries whether the handler that will run on it answers.\<close>

datatype duplex_packet = RequestPacket bool | AnswerPacket

record endpoint =
  writer_held :: bool
  inbox :: "duplex_packet list"

definition start_request :: "bool \<Rightarrow> endpoint \<times> endpoint \<Rightarrow> (endpoint \<times> endpoint) option" where
  "start_request answers s =
     (case s of (a, b) \<Rightarrow>
        if writer_held a then None
        else Some (a\<lparr>writer_held := True\<rparr>, b\<lparr>inbox := inbox b @ [RequestPacket answers]\<rparr>))"

definition reader_round :: "endpoint \<times> endpoint \<Rightarrow> (endpoint \<times> endpoint) option" where
  "reader_round s =
     (case s of (a, b) \<Rightarrow>
        (case inbox a of
           [] \<Rightarrow> None
         | RequestPacket answers # ps \<Rightarrow>
             if \<not> answers then Some (a\<lparr>inbox := ps\<rparr>, b)
             else if writer_held a then None
             else Some (a\<lparr>inbox := ps\<rparr>, b\<lparr>inbox := inbox b @ [AnswerPacket]\<rparr>)
         | AnswerPacket # ps \<Rightarrow> Some (a\<lparr>inbox := ps, writer_held := False\<rparr>, b)))"

definition swap_ends :: "'a \<times> 'a \<Rightarrow> 'a \<times> 'a" where
  "swap_ends s = (snd s, fst s)"

inductive duplex_step :: "endpoint \<times> endpoint \<Rightarrow> endpoint \<times> endpoint \<Rightarrow> bool" where
  request: "start_request answers s = Some s' \<Longrightarrow> duplex_step s s'"
| request_back: "start_request answers (swap_ends s) = Some s' \<Longrightarrow> duplex_step s (swap_ends s')"
| reads: "reader_round s = Some s' \<Longrightarrow> duplex_step s s'"
| reads_back: "reader_round (swap_ends s) = Some s' \<Longrightarrow> duplex_step s (swap_ends s')"

definition quiet_ends :: "endpoint \<times> endpoint" where
  "quiet_ends = (\<lparr>writer_held = False, inbox = []\<rparr>, \<lparr>writer_held = False, inbox = []\<rparr>)"

lemmas duplex_defs = start_request_def reader_round_def swap_ends_def quiet_ends_def

inductive_simps duplex_step_iff: "duplex_step s s'"

text \<open>C39. Crossing requests block a connection for good. From an idle connection, if both ends send
  a request before either reads the other's, both readers wait for the writer that their own
  request holds, and no step is possible any more: neither request is ever answered.\<close>

theorem crossing_requests_deadlock:
  "\<exists>s. duplex_step\<^sup>*\<^sup>* quiet_ends s \<and> writer_held (fst s) \<and> writer_held (snd s)
       \<and> (\<nexists>s'. duplex_step s s')"
proof -
  let ?a = "(\<lparr>writer_held = True, inbox = []\<rparr>, \<lparr>writer_held = False, inbox = [RequestPacket True]\<rparr>)"
  let ?b = "(\<lparr>writer_held = True, inbox = [RequestPacket True]\<rparr>,
             \<lparr>writer_held = True, inbox = [RequestPacket True]\<rparr>)"
  have "duplex_step quiet_ends ?a" by (rule request [of True]) (simp add: duplex_defs)
  moreover have "duplex_step ?a ?b"
    using request_back [of True ?a "swap_ends ?b"] by (simp add: duplex_defs)
  ultimately have "duplex_step\<^sup>*\<^sup>* quiet_ends ?b" by (meson r_into_rtranclp rtranclp.rtrancl_into_rtrancl)
  moreover have "\<nexists>s'. duplex_step ?b s'" by (simp add: duplex_step_iff duplex_defs)
  ultimately show ?thesis by force
qed

text \<open>A request that is not answered blocks its end of the connection for good: nothing is on its way
  back, the writer stays locked, and no later request of that end ever starts.\<close>

definition stranded :: "endpoint \<times> endpoint \<Rightarrow> bool" where
  "stranded s \<longleftrightarrow> writer_held (fst s) \<and> AnswerPacket \<notin> set (inbox (fst s))
     \<and> RequestPacket True \<notin> set (inbox (snd s))"

lemma stranded_step: "duplex_step s s' \<Longrightarrow> stranded s \<Longrightarrow> stranded s'"
  by (cases s; erule duplex_step.cases)
    (auto simp: duplex_defs stranded_def split: if_splits list.splits duplex_packet.splits)

lemma stranded_for_good: "duplex_step\<^sup>*\<^sup>* s s' \<Longrightarrow> stranded s \<Longrightarrow> stranded s' \<and> start_request answers s' = None"
proof (induction rule: rtranclp_induct)
  case base
  then show ?case by (auto simp: stranded_def start_request_def split: prod.splits)
next
  case (step y z)
  then show ?case using stranded_step by (fastforce simp: stranded_def start_request_def split: prod.splits)
qed

theorem unanswered_request_blocks:
  assumes "start_request False s = Some s1" "inbox (fst s) = []" "inbox (snd s) = []" "duplex_step\<^sup>*\<^sup>* s1 s'"
  shows "writer_held (fst s') \<and> start_request answers s' = None"
proof -
  have "stranded s1" using assms(1-3) by (auto simp: start_request_def stranded_def split: prod.splits if_splits)
  with stranded_for_good [OF assms(4)] show ?thesis by (auto simp: stranded_def)
qed

end
