(* ===== verification/Mdsftp_Transfer.thy ===== *)
theory Mdsftp_Transfer
  imports Mdsftp_Channel
begin

section \<open>Sending a chunk over a channel\<close>

text \<open>
  \<^verbatim>\<open>node/src/file_transfer/transfer_manager.rs\<close>: a chunk (or a range of it) is cut into fragments of
  a fixed size, each sent as a \<open>FileChunk\<close> packet; the sender keeps a window of unacknowledged
  fragments.

  \<open>mdsftp_upload\<close> is what is sent and how the upload ends, when the channel works: the fragments in
  order, or the fragments sent before the source ran out of bytes. A division by a fragment size
  of zero is the panic \<open>None\<close>. \<open>transfer_step\<close> is the window: sender, receiver and the packets in
  between as an interleaving. The lemmas show that the fragments put together are the requested
  bytes, that the window bounds what is in flight, and that the transfer always runs to its end.
\<close>

subsection \<open>Fragments\<close>

record SizeParams =
  sp_size :: u64
  sp_range :: "ChunkRange option"

definition size_params_size :: "SizeParams \<Rightarrow> u64" where
  "size_params_size p = (case sp_range p of Some r \<Rightarrow> chunk_range_size r | None \<Rightarrow> sp_size p)"

definition size_params_offset :: "SizeParams \<Rightarrow> u64" where
  "size_params_offset p = (case sp_range p of Some r \<Rightarrow> rng_start r | None \<Rightarrow> 0)"

type_synonym fragment = "bool \<times> u32 \<times> u8 list" \<comment> \<open>is last, id, content\<close>

text \<open>\<open>read_exact\<close> fails at the end of the source; an I/O error becomes an \<open>SSLError\<close>.\<close>

definition read_exact :: "nat \<Rightarrow> u8 list \<Rightarrow> (u8 list \<times> u8 list) mdsftp_result" where
  "read_exact n src =
     (if length src < n then Err (SSLError (Some StdIoError)) else Ok (take n src, drop n src))"

fun full_fragments ::
    "nat \<Rightarrow> nat \<Rightarrow> nat \<Rightarrow> nat \<Rightarrow> u8 list \<Rightarrow> fragment list \<times> u8 list mdsftp_result" where
  "full_fragments 0 fragments frag_size last_size src = ([], Ok src)"
| "full_fragments (Suc k) fragments frag_size last_size src =
     (case read_exact frag_size src of
        Err e \<Rightarrow> ([], Err e)
      | Ok (buf, rest) \<Rightarrow>
          let i = fragments - Suc k;
              (cs, r) = full_fragments k fragments frag_size last_size rest
          in ((i + 1 = fragments \<and> last_size = 0, of_nat i, buf) # cs, r))"

definition transfer_fragments ::
    "nat \<Rightarrow> nat \<Rightarrow> nat \<Rightarrow> u8 list \<Rightarrow> fragment list \<times> unit mdsftp_result" where
  "transfer_fragments fragments frag_size last_size src =
     (case full_fragments fragments fragments frag_size last_size src of
        (cs, Err e) \<Rightarrow> (cs, Err e)
      | (cs, Ok rest) \<Rightarrow>
          if last_size \<noteq> 0 \<or> fragments = 0 then
            (case read_exact last_size rest of
               Err e \<Rightarrow> (cs, Err e)
             | Ok (buf, _) \<Rightarrow> (cs @ [(True, of_nat fragments, buf)], Ok ()))
          else (cs, Ok ()))"

text \<open>The source is a file, which can seek to the start of the range, or a stream, which cannot.\<close>

definition mdsftp_upload ::
    "bool \<Rightarrow> u8 list \<Rightarrow> SizeParams \<Rightarrow> u32 \<Rightarrow> (fragment list \<times> unit mdsftp_result) option" where
  "mdsftp_upload seekable src params fragment_size =
     (let sz = unat (size_params_size params);
          frag_size = unat fragment_size;
          src' = (if seekable then drop (unat (size_params_offset params)) src else src)
      in if frag_size = 0 then None
         else if sz div frag_size > 2 ^ 32 - 2 then Some ([], Err Interrupted)
         else Some (transfer_fragments (sz div frag_size) frag_size (sz mod frag_size) src'))"

lemma full_fragments_Ok:
  assumes "k * frag_size \<le> length src" "k \<le> fragments"
  shows "full_fragments k fragments frag_size last_size src =
    (map (\<lambda>j. (j + 1 = fragments \<and> last_size = 0, of_nat j,
               take frag_size (drop ((j - (fragments - k)) * frag_size) src)))
         [fragments - k..<fragments],
     Ok (drop (k * frag_size) src))"
  using assms
proof (induction k arbitrary: src)
  case (Suc k)
  let ?i = "fragments - Suc k"
  have i: "[?i..<fragments] = ?i # [fragments - k..<fragments]"
    using Suc.prems(2) by (simp add: upt_conv_Cons Suc_diff_Suc)
  have IH: "full_fragments k fragments frag_size last_size (drop frag_size src) =
    (map (\<lambda>j. (j + 1 = fragments \<and> last_size = 0, of_nat j,
               take frag_size (drop ((j - (fragments - k)) * frag_size) (drop frag_size src))))
         [fragments - k..<fragments],
     Ok (drop (k * frag_size) (drop frag_size src)))"
    using Suc by simp
  have "drop ((j - (fragments - k)) * frag_size) (drop frag_size src) = drop ((j - ?i) * frag_size) src"
    if "j \<in> set [fragments - k..<fragments]" for j
  proof -
    from that Suc.prems(2) have "j - ?i = Suc (j - (fragments - k))" by auto
    then show ?thesis by (simp add: add.commute)
  qed
  with IH Suc.prems show ?case by (simp add: i read_exact_def add.commute)
qed simp

lemma concat_blocks:
  "concat (map (\<lambda>j. take n (drop (j * n) xs)) [0..<k]) = take (k * n) xs"
proof (induction k)
  case (Suc k)
  have "take (k * n) xs @ take n (drop (k * n) xs) = take (k * n + n) xs"
    by (simp add: take_add)
  with Suc show ?case by (simp add: add.commute)
qed simp

lemma transfer_fragments_Ok:
  assumes "fragments * frag_size + last_size \<le> length src"
  shows "\<exists>cs. transfer_fragments fragments frag_size last_size src = (cs, Ok ())
    \<and> concat (map (\<lambda>(_, _, c). c) cs) = take (fragments * frag_size + last_size) src
    \<and> map (\<lambda>(_, i, _). i) cs = map of_nat [0..<length cs]
    \<and> map (\<lambda>(l, _, _). l) cs = replicate (length cs - 1) False @ [True]
    \<and> length cs = fragments + (if last_size \<noteq> 0 \<or> fragments = 0 then 1 else 0)"
proof -
  let ?full = "map (\<lambda>j. (j + 1 = fragments \<and> last_size = 0, of_nat j :: u32,
               take frag_size (drop (j * frag_size) src))) [0..<fragments]"
  have full: "full_fragments fragments fragments frag_size last_size src =
      (?full, Ok (drop (fragments * frag_size) src))"
    using full_fragments_Ok [of fragments frag_size src fragments last_size] assms by simp
  have content: "concat (map (\<lambda>(_, _, c). c) ?full) = take (fragments * frag_size) src"
    using concat_blocks [of frag_size src fragments] by (simp add: comp_def)
  have ids: "map (\<lambda>(_, i, _). i) ?full = map of_nat [0..<fragments]" by simp
  show ?thesis
  proof (cases "last_size \<noteq> 0 \<or> fragments = 0")
    case True
    have "transfer_fragments fragments frag_size last_size src =
      (?full @ [(True, of_nat fragments, take last_size (drop (fragments * frag_size) src))], Ok ())"
      using True assms by (auto simp: transfer_fragments_def full read_exact_def)
    moreover have "map (\<lambda>(l, _, _). l) ?full = replicate fragments False"
      using True by (auto simp: map_replicate_const [symmetric] comp_def intro!: nth_equalityI)
    ultimately show ?thesis using content ids True by (simp add: take_add)
  next
    case False
    then obtain k where k: "fragments = Suc k" by (cases fragments) auto
    have "transfer_fragments fragments frag_size last_size src = (?full, Ok ())"
      unfolding transfer_fragments_def full using False by simp
    moreover have "map (\<lambda>(l, _, _). l) ?full = replicate k False @ [True]"
      using False by (intro nth_equalityI) (auto simp: k nth_append simp del: upt_Suc)
    ultimately show ?thesis using content ids False by (simp add: k del: upt_Suc)
  qed
qed

lemma upload_fragments:
  assumes "mdsftp_upload seekable src params fragment_size = Some (cs, r)"
    and "unat (size_params_size params) div unat fragment_size \<le> 2 ^ 32 - 2"
    and "(if seekable then unat (size_params_offset params) else 0)
           + unat (size_params_size params) \<le> length src"
  shows "r = Ok ()
    \<and> concat (map (\<lambda>(_, _, c). c) cs)
        = take (unat (size_params_size params))
            (drop (if seekable then unat (size_params_offset params) else 0) src)
    \<and> map (\<lambda>(_, i, _). i) cs = map of_nat [0..<length cs]
    \<and> map (\<lambda>(l, _, _). l) cs = replicate (length cs - 1) False @ [True]"
proof -
  let ?sz = "unat (size_params_size params)" and ?n = "unat fragment_size"
  let ?src = "drop (if seekable then unat (size_params_offset params) else 0) src"
  from assms(1,2) have "?n \<noteq> 0"
    and run: "transfer_fragments (?sz div ?n) ?n (?sz mod ?n) ?src = (cs, r)"
    by (auto simp: mdsftp_upload_def Let_def split: if_splits)
  have "?sz div ?n * ?n + ?sz mod ?n = ?sz" by simp
  with assms(3) have "?sz div ?n * ?n + ?sz mod ?n \<le> length ?src" by simp
  from transfer_fragments_Ok [OF this] run show ?thesis by auto
qed

lemma transfer_fragments_nonempty:
  assumes "fragments * frag_size + last_size \<le> length src" "0 < frag_size"
    and "0 < fragments * frag_size + last_size"
  shows "list_all (\<lambda>(_, _, c). c \<noteq> []) (fst (transfer_fragments fragments frag_size last_size src))"
proof -
  have full: "full_fragments fragments fragments frag_size last_size src =
      (map (\<lambda>j. (j + 1 = fragments \<and> last_size = 0, of_nat j, take frag_size (drop (j * frag_size) src)))
         [0..<fragments], Ok (drop (fragments * frag_size) src))"
    using full_fragments_Ok [of fragments frag_size src fragments last_size] assms(1) by simp
  have block: "\<not> length src \<le> j * frag_size" if "j < fragments" for j
  proof -
    from that assms(2) have "j * frag_size < fragments * frag_size" by simp
    with assms(1) show ?thesis by linarith
  qed
  show ?thesis
    using assms unfolding transfer_fragments_def full
    by (auto simp: read_exact_def list_all_iff dest: block)
qed

lemma upload_fragments_nonempty:
  assumes "mdsftp_upload seekable src params fragment_size = Some (cs, r)"
    and "unat (size_params_size params) div unat fragment_size \<le> 2 ^ 32 - 2"
    and "(if seekable then unat (size_params_offset params) else 0)
           + unat (size_params_size params) \<le> length src"
    and "size_params_size params \<noteq> 0"
  shows "list_all (\<lambda>(_, _, c). c \<noteq> []) cs"
proof -
  let ?sz = "unat (size_params_size params)" and ?n = "unat fragment_size"
  let ?src = "drop (if seekable then unat (size_params_offset params) else 0) src"
  from assms(1,2) have n: "0 < ?n"
    and run: "transfer_fragments (?sz div ?n) ?n (?sz mod ?n) ?src = (cs, r)"
    by (auto simp: mdsftp_upload_def Let_def split: if_splits)
  have sz: "?sz div ?n * ?n + ?sz mod ?n = ?sz" and pos: "0 < ?sz" and len: "?sz \<le> length ?src"
    using assms(3,4) by (auto simp: unat_gt_0)
  from transfer_fragments_nonempty [of "?sz div ?n" ?n "?sz mod ?n" ?src] sz pos len n run
  show ?thesis by simp
qed

text \<open>C13. What a node sends for a retrieve request is the range that was asked for. For a range
  within the chunk that makes at most 2^32 - 2 full fragments, the upload succeeds, the contents of
  its fragments put together are exactly the bytes of the range, the fragments are numbered from
  zero, and only the last one is marked as last.\<close>

theorem upload_sends_range:
  assumes "mdsftp_upload True bytes \<lparr>sp_size = of_nat (length bytes), sp_range = Some rng\<rparr> fragment_size
             = Some (cs, r)"
    and "rng_start rng \<le> rng_end rng" "unat (rng_end rng) \<le> length bytes"
    and "unat (chunk_range_size rng) div unat fragment_size \<le> 2 ^ 32 - 2"
  shows "r = Ok ()
    \<and> concat (map (\<lambda>(_, _, c). c) cs)
        = take (unat (rng_end rng) - unat (rng_start rng)) (drop (unat (rng_start rng)) bytes)
    \<and> map (\<lambda>(_, i, _). i) cs = map of_nat [0..<length cs]
    \<and> map (\<lambda>(l, _, _). l) cs = replicate (length cs - 1) False @ [True]"
proof -
  have "unat (chunk_range_size rng) = unat (rng_end rng) - unat (rng_start rng)"
    using assms(2) by (simp add: chunk_range_size_def unat_sub)
  moreover have "unat (rng_start rng) \<le> unat (rng_end rng)" using assms(2) by (simp add: word_le_nat_alt)
  ultimately show ?thesis
    using upload_fragments [OF assms(1)] assms(3,4)
    by (simp add: size_params_size_def size_params_offset_def)
qed

theorem upload_sends_range_witness:
  "concat (map (\<lambda>(_, _, c). c)
     [(False, 0, [2, 3]), (False, 1, [4, 5]), (True, 2, [6 :: u8])])
   = take (6 - 1) (drop 1 [1, 2, 3, 4, 5, 6, 7, 8, 9])"
proof -
  let ?bytes = "[1, 2, 3, 4, 5, 6, 7, 8, 9] :: u8 list" and ?r = "\<lparr>rng_start = 1, rng_end = 6\<rparr>"
  have t: "transfer_fragments (Suc (Suc 0)) (Suc (Suc 0)) (Suc 0) [2, 3, 4, 5, 6, 7, 8, 9]
      = ([(False, 0, [2, 3]), (False, 1, [4, 5]), (True, 2, [6])], Ok ())"
    by (simp add: transfer_fragments_def read_exact_def)
  have "mdsftp_upload True ?bytes \<lparr>sp_size = of_nat (length ?bytes), sp_range = Some ?r\<rparr> 2
      = Some ([(False, 0, [2, 3]), (False, 1, [4, 5]), (True, 2, [6])], Ok ())"
    using t by (simp add: mdsftp_upload_def size_params_size_def size_params_offset_def
        chunk_range_size_def numeral_2_eq_2 [symmetric] Let_def)
  from upload_sends_range [OF this] show ?thesis by (simp add: chunk_range_size_def)
qed

subsection \<open>The window\<close>

text \<open>Fragments travel to the receiver and acknowledgements back, both in order. \<open>tr_next\<close> is the
  id of the next fragment to send, \<open>tr_recv\<close> the sender's \<open>recv\<close>, \<open>tr_got\<close> how many fragments
  the receiver has written. After each fragment the sender takes acknowledgements until the id it
  just sent is within the window, and after the last one until all are acknowledged.\<close>

record transfer =
  tr_next :: nat
  tr_recv :: nat
  tr_wire :: "nat list"
  tr_acks :: "nat list"
  tr_got :: nat

definition transfer_start :: transfer where
  "transfer_start = \<lparr>tr_next = 0, tr_recv = 0, tr_wire = [], tr_acks = [], tr_got = 0\<rparr>"

definition window_blocked :: "u16 \<Rightarrow> nat \<Rightarrow> nat \<Rightarrow> bool" where
  "window_blocked chunk_buffer i recv \<longleftrightarrow> (of_nat i :: u32) \<ge> of_nat recv + of_nat (unat chunk_buffer)"

definition may_send :: "u16 \<Rightarrow> transfer \<Rightarrow> bool" where
  "may_send cb s \<longleftrightarrow> tr_next s = 0 \<or> \<not> window_blocked cb (tr_next s - 1) (tr_recv s)"

inductive transfer_step :: "u16 \<Rightarrow> nat \<Rightarrow> transfer \<Rightarrow> transfer \<Rightarrow> bool" for cb cnt where
  send_fragment: "tr_next s < cnt \<Longrightarrow> may_send cb s \<Longrightarrow>
     transfer_step cb cnt s (s\<lparr>tr_next := Suc (tr_next s), tr_wire := tr_wire s @ [tr_next s]\<rparr>)"
| receive_fragment: "tr_wire s = i # w \<Longrightarrow>
     transfer_step cb cnt s (s\<lparr>tr_wire := w, tr_acks := tr_acks s @ [i], tr_got := Suc (tr_got s)\<rparr>)"
| take_ack: "tr_acks s = i # a \<Longrightarrow> \<not> may_send cb s \<or> tr_next s = cnt \<and> tr_recv s \<noteq> cnt \<Longrightarrow>
     transfer_step cb cnt s (s\<lparr>tr_acks := a, tr_recv := Suc i\<rparr>)"

definition transfer_inv :: "u16 \<Rightarrow> nat \<Rightarrow> transfer \<Rightarrow> bool" where
  "transfer_inv cb cnt s \<longleftrightarrow>
     tr_recv s \<le> tr_got s \<and> tr_got s \<le> tr_next s \<and> tr_next s \<le> cnt
   \<and> tr_acks s = [tr_recv s..<tr_got s] \<and> tr_wire s = [tr_got s..<tr_next s]
   \<and> tr_next s \<le> tr_recv s + unat cb + 1"

lemma upt_Cons_D: "i # w = [a..<b] \<Longrightarrow> a < b \<and> i = a \<and> w = [Suc a..<b]"
  by (cases "a < b") (simp_all add: upt_conv_Cons)

lemma upt_Nil_iff: "[] = [a..<b] \<longleftrightarrow> b \<le> (a::nat)"
  by (subst eq_commute) auto

lemma window_blocked_iff:
  assumes "i < 2 ^ 32" "recv + unat cb < 2 ^ 32"
  shows "window_blocked cb i recv \<longleftrightarrow> recv + unat cb \<le> i"
proof -
  have "unat (of_nat recv + of_nat (unat cb) :: u32) = recv + unat cb"
    using assms(2) unat_of_nat_small [of "recv + unat cb", where ?'a = 32] by simp
  moreover have "unat (of_nat i :: u32) = i" using assms(1) by (simp add: unat_of_nat)
  ultimately show ?thesis by (simp add: window_blocked_def word_le_nat_alt)
qed

lemma transfer_inv_step:
  assumes "transfer_step cb cnt s s'" "transfer_inv cb cnt s" "cnt + unat cb < 2 ^ 32"
  shows "transfer_inv cb cnt s'
    \<and> tr_next s' + tr_got s' + tr_recv s' = Suc (tr_next s + tr_got s + tr_recv s)"
  using assms
proof (cases rule: transfer_step.cases)
  case send_fragment
  have "tr_next s \<le> tr_recv s + unat cb"
    using send_fragment assms(2,3)
      window_blocked_iff [of "tr_next s - 1" "tr_recv s" cb]
    by (auto simp: may_send_def transfer_inv_def)
  with send_fragment assms(2) show ?thesis by (auto simp: transfer_inv_def)
next
  case (receive_fragment i w)
  with assms(2) have "tr_got s < tr_next s" "i = tr_got s" "w = [Suc (tr_got s)..<tr_next s]"
    by (auto simp: transfer_inv_def dest!: upt_Cons_D)
  with receive_fragment assms(2) show ?thesis by (auto simp: transfer_inv_def)
next
  case (take_ack i a)
  with assms(2) have "tr_recv s < tr_got s" "i = tr_recv s" "a = [Suc (tr_recv s)..<tr_got s]"
    by (auto simp: transfer_inv_def dest!: upt_Cons_D)
  with take_ack assms(2) show ?thesis by (auto simp: transfer_inv_def)
qed

lemma transfer_inv_run:
  assumes "(transfer_step cb cnt ^^ n) transfer_start s" "cnt + unat cb < 2 ^ 32"
  shows "transfer_inv cb cnt s \<and> n = tr_next s + tr_got s + tr_recv s"
  using assms
proof (induction n arbitrary: s)
  case 0
  then show ?case by (auto simp: transfer_start_def transfer_inv_def)
next
  case (Suc n)
  then obtain t where "(transfer_step cb cnt ^^ n) transfer_start t" "transfer_step cb cnt t s"
    by auto
  with Suc.IH [of t] Suc.prems(2) transfer_inv_step [of cb cnt t s] show ?case by simp
qed

lemma transfer_progress:
  assumes "transfer_inv cb cnt s" "cnt + unat cb < 2 ^ 32"
    and "tr_next s + tr_got s + tr_recv s < 3 * cnt"
  shows "\<exists>s'. transfer_step cb cnt s s'"
proof (cases "tr_wire s")
  case (Cons i w)
  then show ?thesis by (blast intro: receive_fragment)
next
  case Nil
  with assms(1) have got: "tr_got s = tr_next s" by (simp add: transfer_inv_def upt_Nil_iff)
  show ?thesis
  proof (cases "tr_acks s")
    case (Cons i a)
    with assms(1) have "tr_recv s < tr_got s" by (auto simp: transfer_inv_def dest!: upt_Cons_D)
    with assms(1) have "tr_recv s \<noteq> cnt" by (simp add: transfer_inv_def)
    then have "\<not> may_send cb s \<or> tr_next s = cnt \<and> tr_recv s \<noteq> cnt \<or> may_send cb s \<and> tr_next s < cnt"
      using assms(1) by (auto simp: transfer_inv_def)
    with Cons show ?thesis using send_fragment take_ack by blast
  next
    case Nil
    with assms(1) got have recv: "tr_recv s = tr_next s"
      by (simp add: transfer_inv_def upt_Nil_iff)
    with assms(3) got have less: "tr_next s < cnt" by simp
    have "may_send cb s"
      using window_blocked_iff [of "tr_next s - 1" "tr_recv s" cb] assms(2) less recv
      by (auto simp: may_send_def)
    with less show ?thesis by (blast intro: send_fragment)
  qed
qed

text \<open>C14. The window protocol delivers every fragment in order and always finishes. In every run of
  \<open>n\<close> steps, what is in flight are consecutive fragments and acknowledgements in order, at most one
  more than the window is unacknowledged, another step is possible exactly as long as \<open>n\<close> is less
  than three times the number of fragments, and when none is possible the receiver has written
  every fragment and the sender has seen every acknowledgement.\<close>

theorem window_transfer_completes:
  assumes "(transfer_step cb cnt ^^ n) transfer_start s" and "cnt + unat cb < 2 ^ 32"
  shows "tr_wire s = [tr_got s..<tr_next s] \<and> tr_acks s = [tr_recv s..<tr_got s]
    \<and> tr_next s - tr_recv s \<le> unat cb + 1
    \<and> ((\<exists>s'. transfer_step cb cnt s s') \<longleftrightarrow> n < 3 * cnt)
    \<and> (n = 3 * cnt \<longleftrightarrow> tr_got s = cnt \<and> tr_recv s = cnt)"
proof -
  from transfer_inv_run [OF assms] have inv: "transfer_inv cb cnt s"
    and n: "n = tr_next s + tr_got s + tr_recv s" by blast+
  have "n < 3 * cnt" if "transfer_step cb cnt s s'" for s'
    using transfer_inv_step [OF that inv assms(2)] n by (auto simp: transfer_inv_def)
  moreover have "\<exists>s'. transfer_step cb cnt s s'" if "n < 3 * cnt"
    using transfer_progress [OF inv assms(2)] that n by simp
  ultimately show ?thesis using inv n by (auto simp: transfer_inv_def)
qed

theorem window_transfer_completes_witness:
  "tr_wire (\<lparr>tr_next = 1, tr_recv = 0, tr_wire = [0], tr_acks = [], tr_got = 0\<rparr>) = [0..<1]
   \<and> (\<exists>s'. transfer_step 16 5 \<lparr>tr_next = 1, tr_recv = 0, tr_wire = [0], tr_acks = [], tr_got = 0\<rparr> s')"
proof -
  let ?s = "\<lparr>tr_next = 1, tr_recv = 0, tr_wire = [0], tr_acks = [], tr_got = 0\<rparr>"
  have "transfer_step 16 5 transfer_start ?s"
    using send_fragment [of transfer_start 5 16] by (simp add: transfer_start_def may_send_def)
  then have "(transfer_step 16 5 ^^ Suc 0) transfer_start ?s"
    using relpowp_Suc_I [of 0 "transfer_step 16 5"] by simp
  from window_transfer_completes [OF this] show ?thesis by simp
qed

end
