(* ===== verification/File_Locks.thy ===== *)
theory File_Locks
  imports Errors
begin

section \<open>The file lock table\<close>

text \<open>
  \<open>node/src/locking\<close>: reader/writer locks on chunks. A \<open>FileLockTable\<close> maps a key to a
  \<open>Locker\<close>, whose semaphore starts with \<open>max_readers\<close> permits; a read guard takes one
  permit, a write guard takes all of them.

  Lockers are numbered; \<open>sem l\<close> is the number of permits the semaphore of locker \<open>l\<close> has
  left. The table entry is the only strong reference to a locker, so a guard's \<open>Weak\<close> upgrades
  exactly while its locker is the entry of its key. Dropping a guard takes two steps, as in Rust:
  \<open>Drop::drop\<close> (\<open>start_drop\<close>) runs \<open>release_read\<close> or \<open>release_write\<close>, which may
  spawn a task that will remove the table entry, and only then the permit field is dropped
  (\<open>finish_drop\<close>). The spawned tasks are the list \<open>pending\<close>; \<open>run_removal\<close> is one of
  them getting the table mutex. The blocking \<open>read\<close> and \<open>write\<close> hold that mutex while they
  wait, so they act when the permits are there, and then like the \<open>try_\<close> variants.

  \<open>lock_step\<close> is every interleaving of these. Each locker excludes properly in all of them; the
  table as a whole does so only if removals run before the key is locked again
  (\<open>quiet_step\<close>), and a run that violates this ends with two writers of one chunk.
\<close>

definition MAX_READERS :: nat where "MAX_READERS = 256"

datatype lock_kind = ReadLock | WriteLock

record 'k guard =
  g_key :: 'k
  g_lock :: nat
  g_kind :: lock_kind
  g_dropping :: bool

record 'k lock_table =
  max_readers :: nat
  entries :: "'k \<rightharpoonup> nat"
  sem :: "nat \<Rightarrow> nat"
  next_lock :: nat
  guards :: "nat \<rightharpoonup> 'k guard"
  pending :: "'k list"

fun cost :: "nat \<Rightarrow> lock_kind \<Rightarrow> nat" where
  "cost m ReadLock = 1"
| "cost m WriteLock = m"

definition lock_table_new :: "nat \<Rightarrow> 'k lock_table" where
  "lock_table_new m = \<lparr>max_readers = m, entries = Map.empty, sem = (\<lambda>_. 0), next_lock = 0,
     guards = Map.empty, pending = []\<rparr>"

definition guard_new ::
    "lock_kind \<Rightarrow> 'k \<Rightarrow> nat \<Rightarrow> nat \<Rightarrow> 'k lock_table \<Rightarrow> (nat, FileLockError) result \<times> 'k lock_table" where
  "guard_new kind key l gid s =
    (if cost (max_readers s) kind \<le> sem s l
     then (Ok gid, s\<lparr>sem := (sem s)(l := sem s l - cost (max_readers s) kind),
                     guards := (guards s)(gid \<mapsto>
                       \<lparr>g_key = key, g_lock = l, g_kind = kind, g_dropping = False\<rparr>)\<rparr>)
     else (Err LockTaken, s))"

definition file_lock_new :: "'k lock_table \<Rightarrow> nat \<times> 'k lock_table" where
  "file_lock_new s =
    (let l = next_lock s
     in (l, s\<lparr>next_lock := Suc l, sem := (sem s)(l := max_readers s)\<rparr>))"

definition try_lock ::
    "lock_kind \<Rightarrow> 'k \<Rightarrow> nat \<Rightarrow> 'k lock_table \<Rightarrow> (nat, FileLockError) result \<times> 'k lock_table" where
  "try_lock kind key gid s =
    (case entries s key of
       Some l \<Rightarrow> guard_new kind key l gid s
     | None \<Rightarrow>
         (let (l, s1) = file_lock_new s;
              (r, s2) = guard_new kind key l gid s1
          in (r, s2\<lparr>entries := (entries s2)(key \<mapsto> l)\<rparr>)))"

definition try_read :: "'k \<Rightarrow> nat \<Rightarrow> 'k lock_table \<Rightarrow> (nat, FileLockError) result \<times> 'k lock_table" where
  "try_read key gid s = try_lock ReadLock key gid s"

definition try_write :: "'k \<Rightarrow> nat \<Rightarrow> 'k lock_table \<Rightarrow> (nat, FileLockError) result \<times> 'k lock_table" where
  "try_write key gid s = try_lock WriteLock key gid s"

definition release_read :: "'k guard \<Rightarrow> 'k lock_table \<Rightarrow> 'k lock_table" where
  "release_read g s =
    (if entries s (g_key g) = Some (g_lock g) \<and> sem s (g_lock g) + 1 = max_readers s
     then s\<lparr>pending := g_key g # pending s\<rparr> else s)"

definition release_write :: "'k guard \<Rightarrow> 'k lock_table \<Rightarrow> 'k lock_table" where
  "release_write g s =
    (if entries s (g_key g) = Some (g_lock g)
     then s\<lparr>pending := g_key g # pending s\<rparr> else s)"

definition start_drop :: "nat \<Rightarrow> 'k lock_table \<Rightarrow> 'k lock_table" where
  "start_drop gid s =
    (case guards s gid of
       Some g \<Rightarrow>
         (if g_dropping g then s
          else
            (let s1 = (case g_kind g of ReadLock \<Rightarrow> release_read g s | WriteLock \<Rightarrow> release_write g s)
             in s1\<lparr>guards := (guards s1)(gid \<mapsto> g\<lparr>g_dropping := True\<rparr>)\<rparr>))
     | None \<Rightarrow> s)"

definition finish_drop :: "nat \<Rightarrow> 'k lock_table \<Rightarrow> 'k lock_table" where
  "finish_drop gid s =
    (case guards s gid of
       Some g \<Rightarrow>
         (if g_dropping g
          then s\<lparr>sem := (sem s)(g_lock g := sem s (g_lock g) + cost (max_readers s) (g_kind g)),
                 guards := (guards s)(gid := None)\<rparr>
          else s)
     | None \<Rightarrow> s)"

definition run_removal :: "'k \<Rightarrow> 'k lock_table \<Rightarrow> 'k lock_table" where
  "run_removal key s =
    (if key \<in> set (pending s)
     then s\<lparr>pending := remove1 key (pending s), entries := (entries s)(key := None)\<rparr> else s)"

inductive lock_step :: "'k lock_table \<Rightarrow> 'k lock_table \<Rightarrow> bool" where
  acquire: "guards s gid = None \<Longrightarrow> lock_step s (snd (try_lock kind key gid s))"
| start: "lock_step s (start_drop gid s)"
| finish: "lock_step s (finish_drop gid s)"
| removal: "lock_step s (run_removal key s)"

subsection \<open>Every locker excludes\<close>

definition weight :: "nat \<Rightarrow> nat \<Rightarrow> 'k guard \<Rightarrow> nat" where
  "weight m l g = (if g_lock g = l then cost m (g_kind g) else 0)"

definition held :: "'k lock_table \<Rightarrow> nat \<Rightarrow> nat" where
  "held s l = msum (weight (max_readers s) l) (guards s)"

definition lock_inv :: "nat \<Rightarrow> 'k lock_table \<Rightarrow> bool" where
  "lock_inv m s \<longleftrightarrow> max_readers s = m \<and> finite (dom (guards s))
   \<and> (\<forall>l < next_lock s. sem s l + held s l = m)
   \<and> (\<forall>k l. entries s k = Some l \<longrightarrow> l < next_lock s)
   \<and> (\<forall>gid g. guards s gid = Some g \<longrightarrow> g_lock g < next_lock s)"

lemma held_cong: "guards s' = guards s \<Longrightarrow> max_readers s' = max_readers s \<Longrightarrow> held s' = held s"
  by (rule ext) (simp add: held_def)

lemma held_insert:
  assumes "finite (dom (guards s))" "guards s gid = None"
  shows "held (s\<lparr>guards := (guards s)(gid \<mapsto> g)\<rparr>) l
     = weight (max_readers s) l g + held s l"
  using assms by (simp add: held_def msum_insert)

lemma held_remove:
  assumes "finite (dom (guards s))" "guards s gid = Some g"
  shows "held s l = weight (max_readers s) l g + held (s\<lparr>guards := (guards s)(gid := None)\<rparr>) l"
  using msum_remove [OF assms] by (simp add: held_def)

lemma held_fresh:
  assumes "lock_inv m s" "next_lock s \<le> l" shows "held s l = 0"
proof -
  have "g_lock (the (guards s gid)) \<noteq> l" if "gid \<in> dom (guards s)" for gid
    using assms that by (fastforce simp: lock_inv_def)
  then show ?thesis by (simp add: held_def msum_def weight_def)
qed

lemma inv_guard_new:
  assumes "lock_inv m s" "guards s gid = None" "l < next_lock s"
  shows "lock_inv m (snd (guard_new kind key l gid s))"
proof (cases "cost (max_readers s) kind \<le> sem s l")
  case True
  let ?g = "\<lparr>g_key = key, g_lock = l, g_kind = kind, g_dropping = False\<rparr>"
  let ?s' = "s\<lparr>sem := (sem s)(l := sem s l - cost (max_readers s) kind),
      guards := (guards s)(gid \<mapsto> ?g)\<rparr>"
  have "held ?s' j = (if l = j then cost (max_readers s) kind else 0) + held s j" for j
    using held_insert [of s gid ?g j] assms
      held_cong [of ?s' "s\<lparr>guards := (guards s)(gid \<mapsto> ?g)\<rparr>"]
    by (simp add: lock_inv_def weight_def)
  then show ?thesis using True assms by (auto simp: guard_new_def lock_inv_def)
qed (use assms in \<open>simp add: guard_new_def\<close>)

lemma inv_file_lock_new:
  assumes "lock_inv m s" shows "lock_inv m (snd (file_lock_new s))"
proof -
  have "held (snd (file_lock_new s)) = held s"
    by (intro held_cong) (simp_all add: file_lock_new_def Let_def)
  with assms held_fresh [OF assms, of "next_lock s"] show ?thesis
    by (auto simp: lock_inv_def file_lock_new_def Let_def less_Suc_eq)
qed

lemma guard_new_next [simp]:
  "next_lock (snd (guard_new kind key l gid s)) = next_lock s"
  "entries (snd (guard_new kind key l gid s)) = entries s"
  by (simp_all add: guard_new_def)

lemma inv_entries:
  "lock_inv m s \<Longrightarrow> l < next_lock s \<Longrightarrow> lock_inv m (s\<lparr>entries := (entries s)(key \<mapsto> l)\<rparr>)"
  using held_cong [of "s\<lparr>entries := (entries s)(key \<mapsto> l)\<rparr>" s] by (auto simp: lock_inv_def)

lemma inv_try_lock:
  assumes "lock_inv m s" "guards s gid = None"
  shows "lock_inv m (snd (try_lock kind key gid s))"
proof (cases "entries s key")
  case None
  let ?s1 = "snd (file_lock_new s)"
  have l: "fst (file_lock_new s) = next_lock s" "next_lock ?s1 = Suc (next_lock s)" "guards ?s1 = guards s"
    by (simp_all add: file_lock_new_def Let_def)
  have "lock_inv m (snd (guard_new kind key (next_lock s) gid ?s1))"
    using inv_file_lock_new [OF assms(1)] assms(2) l by (intro inv_guard_new) simp_all
  from inv_entries [OF this, of "next_lock s" key] None l show ?thesis
    by (simp add: try_lock_def Let_def split_beta)
next
  case (Some l)
  then have "l < next_lock s" using assms(1) by (simp add: lock_inv_def)
  with Some assms show ?thesis by (simp add: try_lock_def inv_guard_new)
qed

lemma inv_release:
  "lock_inv m (release_read g s) = lock_inv m s" "lock_inv m (release_write g s) = lock_inv m s"
  using held_cong [of "s\<lparr>pending := p\<rparr>" s for p]
  by (simp_all add: release_read_def release_write_def lock_inv_def)

lemma release_guards [simp]:
  "guards (release_read g s) = guards s" "guards (release_write g s) = guards s"
  by (simp_all add: release_read_def release_write_def)

lemma inv_mark_dropping:
  assumes "lock_inv m s" "guards s gid = Some g"
  shows "lock_inv m (s\<lparr>guards := (guards s)(gid \<mapsto> g\<lparr>g_dropping := True\<rparr>)\<rparr>)"
proof -
  have "held (s\<lparr>guards := (guards s)(gid \<mapsto> g\<lparr>g_dropping := True\<rparr>)\<rparr>) l = held s l" for l
    using assms by (simp add: held_def lock_inv_def msum_update_same weight_def)
  then show ?thesis using assms by (auto simp: lock_inv_def)
qed

lemma inv_start_drop: "lock_inv m s \<Longrightarrow> lock_inv m (start_drop gid s)"
  by (auto simp: start_drop_def Let_def inv_release inv_mark_dropping
      split: option.splits lock_kind.splits)

lemma inv_finish_drop:
  assumes "lock_inv m s" shows "lock_inv m (finish_drop gid s)"
proof (cases "\<exists>g. guards s gid = Some g \<and> g_dropping g")
  case True
  then obtain g where g: "guards s gid = Some g" "g_dropping g" by blast
  have s': "finish_drop gid s = s\<lparr>sem := (sem s)(g_lock g := sem s (g_lock g) + cost (max_readers s) (g_kind g)),
      guards := (guards s)(gid := None)\<rparr>" (is "_ = ?s'")
    using g by (simp add: finish_drop_def)
  have "held s l = weight (max_readers s) l g + held ?s' l" for l
    using held_remove [of s gid g l] held_cong [of ?s' "s\<lparr>guards := (guards s)(gid := None)\<rparr>"] assms g
    by (simp add: lock_inv_def)
  with assms show ?thesis unfolding s' by (auto simp: lock_inv_def weight_def split: if_splits)
qed (use assms in \<open>auto simp: finish_drop_def split: option.splits\<close>)

lemma inv_run_removal: "lock_inv m s \<Longrightarrow> lock_inv m (run_removal key s)"
  using held_cong [of "run_removal key s" s] by (auto simp: run_removal_def lock_inv_def)

lemmas lock_inv_ops = inv_try_lock inv_start_drop inv_finish_drop inv_run_removal

lemma lock_step_inv: "lock_step s s' \<Longrightarrow> lock_inv m s \<Longrightarrow> lock_inv m s'"
  by (induction rule: lock_step.induct) (simp_all add: lock_inv_ops)

lemma lock_steps_inv: "lock_step\<^sup>*\<^sup>* s s' \<Longrightarrow> lock_inv m s \<Longrightarrow> lock_inv m s'"
  by (induction rule: rtranclp_induct) (auto intro: lock_step_inv)

lemma lock_inv_new: "lock_inv m (lock_table_new m)"
  by (simp add: lock_inv_def lock_table_new_def)

lemma held_two:
  assumes "finite (dom (guards s))" "guards s i = Some g" "guards s j = Some h" "i \<noteq> j"
  shows "weight (max_readers s) l g + weight (max_readers s) l h \<le> held s l"
proof -
  have "held s l = weight (max_readers s) l g + held (s\<lparr>guards := (guards s)(i := None)\<rparr>) l"
    using held_remove [OF assms(1,2)] .
  moreover have "held (s\<lparr>guards := (guards s)(i := None)\<rparr>) l \<ge> weight (max_readers s) l h"
    using held_remove [of "s\<lparr>guards := (guards s)(i := None)\<rparr>" j h l] assms by simp
  ultimately show ?thesis by simp
qed

lemma locker_excludes:
  assumes "lock_inv m s" "0 < m" "guards s i = Some g" "guards s j = Some h" "i \<noteq> j"
    and "g_lock g = g_lock h"
  shows "g_kind g = ReadLock \<and> g_kind h = ReadLock"
proof -
  have "weight m (g_lock g) g + weight m (g_lock g) h \<le> held s (g_lock g)"
    using held_two [of s i g j h] assms by (simp add: lock_inv_def)
  moreover have "held s (g_lock g) \<le> m"
    using assms(1,3) unfolding lock_inv_def by (metis le_add2)
  ultimately show ?thesis
    using assms(2,6) by (cases "g_kind g"; cases "g_kind h") (simp_all add: weight_def)
qed

text \<open>C21. A locker never admits a writer beside anyone else. In every reachable state of the lock
  table, under any interleaving of acquisitions, two-step guard drops and deferred removals, two
  different guards on the same locker are both readers, and its guards together never hold more
  permits than \<open>max_readers\<close>.\<close>

theorem locker_mutual_exclusion:
  assumes "lock_step\<^sup>*\<^sup>* (lock_table_new m) s" "0 < m"
    and "guards s i = Some g" "guards s j = Some h" "i \<noteq> j" "g_lock g = g_lock h"
  shows "g_kind g = ReadLock \<and> g_kind h = ReadLock \<and> held s (g_lock g) \<le> max_readers s"
proof -
  have inv: "lock_inv m s" using lock_steps_inv [OF assms(1) lock_inv_new] .
  then have "held s (g_lock g) \<le> max_readers s"
    using assms(3) unfolding lock_inv_def by (metis le_add2)
  with locker_excludes [OF inv assms(2-6)] show ?thesis by simp
qed

theorem locker_mutual_exclusion_witness:
  "let s = snd (try_read ''c'' 1 (snd (try_read ''c'' 0 (lock_table_new 256)))) in
     held s 0 \<le> 256 \<and> fst (try_write ''c'' 2 s) = Err LockTaken"
proof -
  let ?s1 = "snd (try_lock ReadLock ''c'' 0 (lock_table_new 256))"
  let ?s = "snd (try_lock ReadLock ''c'' 1 ?s1)"
  note eval = try_lock_def guard_new_def file_lock_new_def lock_table_new_def Let_def split_beta
  have "lock_step (lock_table_new 256) ?s1" by (rule acquire) (simp add: lock_table_new_def)
  moreover have "lock_step ?s1 ?s" by (rule acquire) (simp add: eval)
  ultimately have run: "lock_step\<^sup>*\<^sup>* (lock_table_new 256) ?s" by simp
  have g: "guards ?s 0 = Some \<lparr>g_key = ''c'', g_lock = 0, g_kind = ReadLock, g_dropping = False\<rparr>"
    "guards ?s 1 = Some \<lparr>g_key = ''c'', g_lock = 0, g_kind = ReadLock, g_dropping = False\<rparr>"
    "max_readers ?s = 256" "fst (try_lock WriteLock ''c'' 2 ?s) = Err LockTaken"
    by (simp_all add: eval)
  from locker_mutual_exclusion [OF run _ g(1,2)] g(3,4) show ?thesis
    by (simp add: try_read_def try_write_def Let_def)
qed

subsection \<open>Quiet runs: the table excludes too\<close>

text \<open>A run in which a key is locked only when no removal of its entry is pending and no guard of it
  is half dropped.\<close>

inductive quiet_step :: "'k lock_table \<Rightarrow> 'k lock_table \<Rightarrow> bool" where
  quiet_acquire: "\<lbrakk>guards s gid = None; key \<notin> set (pending s);
      \<forall>j g. guards s j = Some g \<longrightarrow> g_key g = key \<longrightarrow> \<not> g_dropping g\<rbrakk> \<Longrightarrow>
    quiet_step s (snd (try_lock kind key gid s))"
| quiet_start: "quiet_step s (start_drop gid s)"
| quiet_finish: "quiet_step s (finish_drop gid s)"
| quiet_removal: "quiet_step s (run_removal key s)"

definition quiet_inv :: "'k lock_table \<Rightarrow> bool" where
  "quiet_inv s \<longleftrightarrow>
     (\<forall>i g. guards s i = Some g \<and> \<not> g_dropping g \<longrightarrow>
        entries s (g_key g) = Some (g_lock g) \<and> g_key g \<notin> set (pending s))"

lemma quiet_try_lock:
  assumes "quiet_inv s" "guards s gid = None" "key \<notin> set (pending s)"
    and "\<forall>j g. guards s j = Some g \<longrightarrow> g_key g = key \<longrightarrow> \<not> g_dropping g"
  shows "quiet_inv (snd (try_lock kind key gid s))"
proof (cases "entries s key")
  case None
  have "g_key g \<noteq> key" if "guards s j = Some g" for j g
    using assms(1,4) None that by (auto simp: quiet_inv_def)
  with None assms show ?thesis
    by (auto simp: quiet_inv_def try_lock_def guard_new_def file_lock_new_def Let_def)
next
  case (Some l)
  with assms show ?thesis by (auto simp: quiet_inv_def try_lock_def guard_new_def)
qed

lemma quiet_same_lock:
  assumes "quiet_inv s" "guards s i = Some g" "guards s j = Some h"
    and "\<not> g_dropping g" "\<not> g_dropping h" "g_key g = g_key h"
  shows "g_lock g = g_lock h"
proof -
  have "entries s (g_key g) = Some (g_lock g)" "entries s (g_key h) = Some (g_lock h)"
    using assms(1-5) unfolding quiet_inv_def by blast+
  with assms(6) show ?thesis by simp
qed

lemma only_guard:
  assumes "lock_inv m s" "quiet_inv s" "0 < m" "guards s i = Some g" "\<not> g_dropping g"
    and "g_kind g = WriteLock \<or> sem s (g_lock g) + 1 = m"
    and "guards s j = Some h" "\<not> g_dropping h" "g_key h = g_key g"
  shows "j = i"
proof (rule ccontr)
  assume ne: "j \<noteq> i"
  have same: "g_lock g = g_lock h" using quiet_same_lock [OF assms(2,4,7,5,8)] assms(9) by simp
  then have reads: "g_kind g = ReadLock" "g_kind h = ReadLock"
    using locker_excludes [OF assms(1,3,4,7)] ne by simp_all
  have "weight m (g_lock g) g + weight m (g_lock g) h \<le> held s (g_lock g)"
    using held_two [of s i g j h] assms(1,4,7) ne by (simp add: lock_inv_def)
  moreover have "sem s (g_lock g) + held s (g_lock g) = m"
    using assms(1,4) by (simp add: lock_inv_def)
  ultimately show False using assms(6) reads same by (simp add: weight_def)
qed

lemma quiet_start_drop:
  assumes "lock_inv m s" "quiet_inv s" "0 < m"
  shows "quiet_inv (start_drop gid s)"
proof (cases "\<exists>g. guards s gid = Some g \<and> \<not> g_dropping g")
  case True
  then obtain g where g: "guards s gid = Some g" "\<not> g_dropping g" by blast
  have m: "max_readers s = m" using assms(1) by (simp add: lock_inv_def)
  define rel where "rel = (case g_kind g of ReadLock \<Rightarrow> release_read g s | WriteLock \<Rightarrow> release_write g s)"
  have sd: "start_drop gid s = rel\<lparr>guards := (guards rel)(gid \<mapsto> g\<lparr>g_dropping := True\<rparr>)\<rparr>"
    unfolding start_drop_def g(1) option.case rel_def Let_def using g(2) by (simp only: if_False)
  have "rel = s \<or> rel = s\<lparr>pending := g_key g # pending s\<rparr>
      \<and> (g_kind g = WriteLock \<or> sem s (g_lock g) + 1 = m)"
  proof (cases "g_kind g")
    case ReadLock
    show ?thesis unfolding rel_def ReadLock lock_kind.case release_read_def m by (simp only: split: if_split) blast
  next
    case WriteLock
    show ?thesis unfolding rel_def WriteLock lock_kind.case release_write_def by (simp only: split: if_split) blast
  qed
  then consider (plain) "rel = s"
    | (spawn) "rel = s\<lparr>pending := g_key g # pending s\<rparr>"
      "g_kind g = WriteLock \<or> sem s (g_lock g) + 1 = m"
    by blast
  then show ?thesis
  proof cases
    case plain
    show ?thesis using assms(2) unfolding sd plain quiet_inv_def by auto
  next
    case spawn
    have "g_key h \<noteq> g_key g" if "guards s j = Some h" "\<not> g_dropping h" "j \<noteq> gid" for j h
      using only_guard [OF assms g spawn(2) that(1,2)] that(3) by blast
    then show ?thesis using assms(2) unfolding sd spawn(1) quiet_inv_def by auto
  qed
next
  case False
  then have "start_drop gid s = s" by (auto simp: start_drop_def split: option.splits)
  with assms(2) show ?thesis by simp
qed

lemma quiet_finish_drop: "quiet_inv s \<Longrightarrow> quiet_inv (finish_drop gid s)"
  by (auto simp: quiet_inv_def finish_drop_def split: option.splits)

lemma quiet_run_removal: "quiet_inv s \<Longrightarrow> quiet_inv (run_removal key s)"
  by (auto simp: quiet_inv_def run_removal_def dest: notin_set_remove1)

lemma quiet_step_inv:
  "quiet_step s s' \<Longrightarrow> 0 < m \<Longrightarrow> lock_inv m s \<and> quiet_inv s \<Longrightarrow> lock_inv m s' \<and> quiet_inv s'"
  by (induction rule: quiet_step.induct)
    (auto intro: lock_inv_ops quiet_try_lock quiet_start_drop quiet_finish_drop quiet_run_removal)

lemma quiet_steps_inv:
  assumes "quiet_step\<^sup>*\<^sup>* s s'" "0 < m" "lock_inv m s \<and> quiet_inv s"
  shows "lock_inv m s' \<and> quiet_inv s'"
  using assms(1)
proof (induction rule: rtranclp_induct)
  case (step y z)
  show ?case using quiet_step_inv [OF step(2) assms(2) step.IH] .
qed (rule assms(3))

text \<open>C22. If deferred removals run in time, the table gives exclusive access. In every run in which
  a key is locked again only after the removals its earlier guards spawned have run, two live
  guards of the same key are both readers.\<close>

theorem table_mutual_exclusion_quiet:
  assumes "quiet_step\<^sup>*\<^sup>* (lock_table_new m) s" "0 < m"
    and "guards s i = Some g" "guards s j = Some h" "i \<noteq> j"
    and "\<not> g_dropping g" "\<not> g_dropping h" "g_key g = g_key h"
  shows "g_kind g = ReadLock \<and> g_kind h = ReadLock"
proof -
  have "quiet_inv (lock_table_new m)" by (simp add: quiet_inv_def lock_table_new_def)
  then have inv: "lock_inv m s" "quiet_inv s"
    using quiet_steps_inv [OF assms(1,2)] lock_inv_new by blast+
  have "g_lock g = g_lock h" using quiet_same_lock [OF inv(2) assms(3,4,6-8)] .
  then show ?thesis by (rule locker_excludes [OF inv(1) assms(2-5)])
qed

lemmas lock_eval = try_lock_def guard_new_def file_lock_new_def lock_table_new_def
  start_drop_def finish_drop_def run_removal_def release_write_def

theorem table_mutual_exclusion_quiet_witness:
  "let s = snd (try_lock ReadLock ''c'' 1 (snd (try_lock ReadLock ''c'' 0 (lock_table_new 256))))
   in map_option g_kind (guards s 0) = Some ReadLock \<and> map_option g_kind (guards s 1) = Some ReadLock"
proof -
  let ?s1 = "snd (try_lock ReadLock ''c'' 0 (lock_table_new 256))"
  let ?s = "snd (try_lock ReadLock ''c'' 1 ?s1)"
  let ?g = "\<lparr>g_key = ''c'', g_lock = 0, g_kind = ReadLock, g_dropping = False\<rparr>"
  have s1: "guards ?s1 = [0 \<mapsto> ?g]" "pending ?s1 = []" by (simp_all add: lock_eval)
  have "quiet_step (lock_table_new 256) ?s1"
    by (rule quiet_acquire) (simp_all add: lock_table_new_def)
  moreover have "quiet_step ?s1 ?s" by (rule quiet_acquire) (simp_all add: s1)
  ultimately have run: "quiet_step\<^sup>*\<^sup>* (lock_table_new 256) ?s" by simp
  have g: "guards ?s 0 = Some ?g" "guards ?s 1 = Some ?g" by (simp_all add: lock_eval)
  from table_mutual_exclusion_quiet [OF run _ g] g show ?thesis by (simp add: Let_def)
qed

text \<open>Without that, two writers can hold one chunk. A writer drops its guard, which schedules the
  removal of the entry; a second writer locks the entry, which is still there; the removal runs; a
  third writer finds no entry and gets a fresh locker: both now hold a write lock on the same key.\<close>

theorem table_exclusion_violated:
  "\<exists>(s :: string lock_table) g h. lock_step\<^sup>*\<^sup>* (lock_table_new MAX_READERS) s \<and> guards s 1 = Some g \<and> guards s 2 = Some h
     \<and> g_key g = g_key h \<and> g_kind g = WriteLock \<and> g_kind h = WriteLock
     \<and> \<not> g_dropping g \<and> \<not> g_dropping h"
proof -
  let ?k = "''chunk''" and ?m = MAX_READERS
  define s1 where "s1 = snd (try_lock WriteLock ?k 0 (lock_table_new ?m))"
  define s2 where "s2 = finish_drop 0 (start_drop 0 s1)"
  define s3 where "s3 = snd (try_lock WriteLock ?k 1 s2)"
  define s4 where "s4 = snd (try_lock WriteLock ?k 2 (run_removal ?k s3))"
  let ?g = "\<lambda>l. \<lparr>g_key = ?k, g_lock = l, g_kind = WriteLock, g_dropping = False\<rparr>"
  have v1: "s1 = \<lparr>max_readers = ?m, entries = [?k \<mapsto> 0], sem = (\<lambda>_. 0)(0 := 0), next_lock = 1,
      guards = [0 \<mapsto> ?g 0], pending = []\<rparr>"
    by (simp add: s1_def lock_eval)
  have v2: "s2 = \<lparr>max_readers = ?m, entries = [?k \<mapsto> 0], sem = (\<lambda>_. 0)(0 := ?m), next_lock = 1,
      guards = Map.empty, pending = [?k]\<rparr>"
    by (simp add: s2_def v1 lock_eval fun_eq_iff)
  have v3: "s3 = \<lparr>max_readers = ?m, entries = [?k \<mapsto> 0], sem = (\<lambda>_. 0), next_lock = 1,
      guards = [1 \<mapsto> ?g 0], pending = [?k]\<rparr>"
    by (simp add: s3_def v2 lock_eval fun_eq_iff)
  have v4: "guards s4 = [1 \<mapsto> ?g 0, 2 \<mapsto> ?g 1]"
    by (simp add: s4_def v3 lock_eval fun_eq_iff)
  have "lock_step (lock_table_new ?m) s1"
    unfolding s1_def by (rule acquire) (simp add: lock_table_new_def)
  moreover have "lock_step\<^sup>*\<^sup>* s1 s2"
    using lock_step.start [of s1 0] lock_step.finish [of "start_drop 0 s1" 0]
    unfolding s2_def by simp
  moreover have "lock_step s2 s3" unfolding s3_def by (rule acquire) (simp add: v2)
  moreover have "lock_step s3 (run_removal ?k s3)" by (rule removal)
  moreover have "lock_step (run_removal ?k s3) s4"
    unfolding s4_def by (rule acquire) (simp add: v3 run_removal_def)
  ultimately have "lock_step\<^sup>*\<^sup>* (lock_table_new ?m) s4"
    using rtranclp.rtrancl_into_rtrancl [of lock_step] rtranclp_trans [of lock_step] r_into_rtranclp
    by (meson r_into_rtranclp rtranclp_trans)
  then show ?thesis using v4 by (intro exI [of _ s4] exI [of _ "?g 0"] exI [of _ "?g 1"]) simp
qed

end
