(* ===== verification/Channel_Handler.thy ===== *)
theory Channel_Handler
  imports Mdsftp_Transfer Ledger_Correctness File_Locks
begin

section \<open>The node's side of a channel\<close>

text \<open>
  \<^verbatim>\<open>node/src/file_transfer/channel_handler.rs\<close>: what a node does with the packets of a channel
  another node opened, on its ledger and its lock table.

  \<open>node_state\<close> is the ledger, the lock table, the handler struct and what the call leaves outside:
  the packets it sent, the result the handler was closed with, the bytes written to the output of
  a download and the upload it started. What a call gets from outside is \<open>node_env\<close>: the ledger's
  environment, a fresh chunk id, a fresh guard, and whether writes to the connection, writes to
  the output and ending the stream (\<open>True\<close> a shutdown, \<open>False\<close> a flush) succeed. \<open>handle_call\<close> is the dispatch of \<open>handler_call\<close>, so that it composes with
  \<open>handle_packet\<close>.

  The lemmas show that a remote upload, from the sender's \<open>mdsftp_upload\<close> over this handler to the
  ledger, stores exactly the source bytes, and what an interruption records.
\<close>

subsection \<open>State\<close>

record ReservationDetails =
  rd_id :: uuid
  rd_size :: u64
  rd_durable :: bool

datatype stream_target = FileTarget chunk_path | OutputTarget

record packet_handler =
  h_read_guard :: "nat option"
  h_write_guard :: "nat option"
  h_recv_ack_sender :: bool
  h_chunk_buffer :: u16
  h_fragment_size :: u32
  h_reservation_details :: "ReservationDetails option"
  h_auto_close :: bool
  h_receive_file_stream :: "stream_target option"
  h_data_transferred :: u64

datatype out_packet = OutResponse response | OutAck u32

record upload_task =
  ut_source :: "u8 list"
  ut_seekable :: bool
  ut_params :: SizeParams
  ut_chunk_buffer :: u16

record 'st node_state =
  ns_ledger :: "'st InternalLedger"
  ns_locks :: "uuid lock_table"
  ns_handler :: packet_handler
  ns_sent :: "out_packet list"
  ns_closed :: "unit mdsftp_result option"
  ns_output :: "u8 list"
  ns_upload :: "upload_task option"

record 'st node_env =
  ne_ledger :: "'st ledger_env"
  ne_fresh :: uuid
  ne_guard :: nat
  ne_write_ok :: bool
  ne_output_ok :: bool
  ne_finish_ok :: "bool \<Rightarrow> bool"

definition packet_handler_new :: "u16 \<Rightarrow> u32 \<Rightarrow> packet_handler" where
  "packet_handler_new cb fs =
     \<lparr>h_read_guard = None, h_write_guard = None, h_recv_ack_sender = False, h_chunk_buffer = cb,
      h_fragment_size = fs, h_reservation_details = None, h_auto_close = True,
      h_receive_file_stream = None, h_data_transferred = 0\<rparr>"

type_synonym 'st handler_result = "unit mdsftp_result \<times> 'st node_state"

subsection \<open>Answering, closing and guards\<close>

definition send_out :: "'st node_env \<Rightarrow> out_packet \<Rightarrow> 'st node_state \<Rightarrow> 'st handler_result" where
  "send_out env p s =
     (if ne_write_ok env then (Ok (), s\<lparr>ns_sent := ns_sent s @ [p]\<rparr>) else (Err ConnectionError, s))"

definition close_channel :: "unit mdsftp_result \<Rightarrow> 'st node_state \<Rightarrow> 'st node_state" where
  "close_channel r s = (case ns_closed s of None \<Rightarrow> s\<lparr>ns_closed := Some r\<rparr> | Some _ \<Rightarrow> s)"

text \<open>Sequencing with the \<open>?\<close> operator, and \<open>channel.respond_...(..).await?; channel.close(r)\<close>.\<close>

definition try_then :: "'st handler_result \<Rightarrow> ('st node_state \<Rightarrow> 'st handler_result) \<Rightarrow> 'st handler_result" where
  "try_then m k = (case m of (Ok _, s) \<Rightarrow> k s | (Err e, s) \<Rightarrow> (Err e, s))"

definition respond_close ::
    "'st node_env \<Rightarrow> response \<Rightarrow> unit mdsftp_result \<Rightarrow> 'st node_state \<Rightarrow> 'st handler_result" where
  "respond_close env r c s =
     try_then (send_out env (OutResponse r) s) (\<lambda>s. (Ok (), close_channel c s))"

definition drop_guard :: "nat option \<Rightarrow> uuid lock_table \<Rightarrow> uuid lock_table" where
  "drop_guard g l = (case g of None \<Rightarrow> l | Some i \<Rightarrow> finish_drop i (start_drop i l))"

definition store_write_guard :: "nat \<Rightarrow> 'st node_state \<Rightarrow> 'st node_state" where
  "store_write_guard g s =
     s\<lparr>ns_locks := drop_guard (h_write_guard (ns_handler s)) (ns_locks s),
       ns_handler := (ns_handler s)\<lparr>h_write_guard := Some g\<rparr>\<rparr>"

definition store_read_guard :: "nat \<Rightarrow> 'st node_state \<Rightarrow> 'st node_state" where
  "store_read_guard g s =
     s\<lparr>ns_locks := drop_guard (h_read_guard (ns_handler s)) (ns_locks s),
       ns_handler := (ns_handler s)\<lparr>h_read_guard := Some g\<rparr>\<rparr>"

subsection \<open>Receiving and sending content\<close>

definition start_receiving :: "'st node_env \<Rightarrow> uuid \<Rightarrow> bool \<Rightarrow> 'st node_state \<Rightarrow> 'st handler_result" where
  "start_receiving env i appending s =
     (case try_write i (ne_guard env) (ns_locks s) of
        (Err _, l) \<Rightarrow> (Err ReservationError, s\<lparr>ns_locks := l\<rparr>)
      | (Ok g, l) \<Rightarrow>
          (let s1 = store_write_guard g (s\<lparr>ns_locks := l\<rparr>);
               (r, ledger) = (if appending then fragment_append_stream (ne_ledger env) i (ns_ledger s1)
                              else fragment_write_stream (ne_ledger env) i (ns_ledger s1));
               s2 = s1\<lparr>ns_ledger := ledger\<rparr>
           in case r of
                Err _ \<Rightarrow> (Err RemoteError, s2)
              | Ok path \<Rightarrow>
                  (Ok (), s2\<lparr>ns_handler := (ns_handler s2)\<lparr>h_receive_file_stream := Some (FileTarget path)\<rparr>\<rparr>)))"

definition start_uploading ::
    "u8 list \<Rightarrow> bool \<Rightarrow> u64 \<Rightarrow> u16 \<Rightarrow> ChunkRange option \<Rightarrow> 'st node_state \<Rightarrow> 'st handler_result" where
  "start_uploading src seekable sz cb rng s =
     (Ok (), s\<lparr>ns_handler := (ns_handler s)\<lparr>h_recv_ack_sender := True\<rparr>,
               ns_upload := Some \<lparr>ut_source = src, ut_seekable = seekable,
                 ut_params = \<lparr>sp_size = sz, sp_range = rng\<rparr>, ut_chunk_buffer = cb\<rparr>\<rparr>)"

text \<open>Writing a fragment to where the channel receives to; the state, or the failed write.\<close>

definition write_target ::
    "'st node_env \<Rightarrow> stream_target \<Rightarrow> u8 list \<Rightarrow> 'st node_state \<Rightarrow> 'st node_state option" where
  "write_target env t chunk s =
     (case t of
        FileTarget path \<Rightarrow>
          if fs_refuses (ne_ledger env) path then None
          else Some (s\<lparr>ns_ledger := stream_write path chunk (ns_ledger s)\<rparr>)
      | OutputTarget \<Rightarrow> if ne_output_ok env then Some (s\<lparr>ns_output := ns_output s @ chunk\<rparr>) else None)"

definition release_details :: "'st node_env \<Rightarrow> u64 option \<Rightarrow> 'st node_state \<Rightarrow> 'st handler_result" where
  "release_details env sz s =
     (case h_reservation_details (ns_handler s) of
        None \<Rightarrow> (Ok (), s)
      | Some d \<Rightarrow>
          (let (r, ledger) = release_reservation (ne_ledger env) (rd_id d)
                 (case sz of None \<Rightarrow> rd_size d | Some n \<Rightarrow> n) (ns_ledger s)
           in (map_err (\<lambda>_. ReservationError) r, s\<lparr>ns_ledger := ledger\<rparr>)))"

definition handle_file_chunk ::
    "'st node_env \<Rightarrow> u8 list \<Rightarrow> u32 \<Rightarrow> bool \<Rightarrow> 'st node_state \<Rightarrow> 'st handler_result" where
  "handle_file_chunk env chunk i is_last s =
     (case h_receive_file_stream (ns_handler s) of
        None \<Rightarrow> (Err ConnectionError, s)
      | Some t \<Rightarrow>
          (case write_target env t chunk s of
             None \<Rightarrow> (Err MdsftpInternal, close_channel (Err (SSLError (Some StdIoError))) s)
           | Some s1 \<Rightarrow>
               (let s2 = s1\<lparr>ns_handler := (ns_handler s1)
                     \<lparr>h_data_transferred := h_data_transferred (ns_handler s1) + of_nat (length chunk)\<rparr>\<rparr>
                in if is_last then
                     if \<not> ne_finish_ok env (h_auto_close (ns_handler s2))
                     then (Err MdsftpInternal, close_channel (Err (SSLError (Some StdIoError))) s2)
                     else (let s3 = s2\<lparr>ns_handler := (ns_handler s2)\<lparr>h_receive_file_stream := None\<rparr>\<rparr>
                      in try_then (release_details env None s3) (\<lambda>s4.
                           try_then (send_out env (OutAck i) s4) (\<lambda>s5.
                             (Ok (), close_channel (Ok ()) s5))))
                   else send_out env (OutAck i) s2)))"

definition handle_retrieve ::
    "'st node_env \<Rightarrow> uuid \<Rightarrow> u16 \<Rightarrow> ChunkRange option \<Rightarrow> 'st node_state \<Rightarrow> 'st handler_result" where
  "handle_retrieve env i cb rng s =
     (case existing_fragment_meta i (ns_ledger s) of
        None \<Rightarrow> (Err NoSuchChunkId, s)
      | Some meta \<Rightarrow>
          (case try_read i (ne_guard env) (ns_locks s) of
             (Err _, l) \<Rightarrow> (Err ReservationError, s\<lparr>ns_locks := l\<rparr>)
           | (Ok g, l) \<Rightarrow>
               (let s1 = store_read_guard g (s\<lparr>ns_locks := l\<rparr>)
                in case fragment_read_stream (ne_ledger env) i (ns_ledger s1) of
                     Err _ \<Rightarrow> (Err RemoteError, s1)
                   | Ok bytes \<Rightarrow> start_uploading bytes True (content_size meta) cb rng s1)))"

definition handle_put ::
    "'st node_env \<Rightarrow> PutFlags \<Rightarrow> uuid \<Rightarrow> u64 \<Rightarrow> 'st node_state \<Rightarrow> 'st handler_result" where
  "handle_put env flags chunk_id sz s =
     (let (r, ledger) = resume_reservation (ne_ledger env) chunk_id (ns_ledger s);
          s1 = s\<lparr>ns_ledger := ledger\<rparr>
      in case r of
           Ok reservation \<Rightarrow>
             if sz = file_space reservation - completed reservation then
               (let s2 = s1\<lparr>ns_handler := (ns_handler s1)\<lparr>h_reservation_details :=
                     Some \<lparr>rd_id = chunk_id, rd_size = file_space reservation,
                           rd_durable = durable reservation\<rparr>\<rparr>\<rparr>
                in try_then (start_receiving env chunk_id (put_append flags) s2) (\<lambda>s3.
                     send_out env (OutResponse (RespPutOk (h_chunk_buffer (ns_handler s3)))) s3))
             else respond_close env (RespPutErr NotAvailable) (Ok ()) s1
         | Err IoNotFound \<Rightarrow> respond_close env (RespPutErr CkNotFound) (Ok ()) s1
         | Err _ \<Rightarrow> respond_close env (RespPutErr NotAvailable) (Ok ()) s1)"

definition handle_reserve ::
    "'st node_env \<Rightarrow> u64 \<Rightarrow> uuid \<Rightarrow> uuid \<Rightarrow> ReserveFlags \<Rightarrow> 'st node_state \<Rightarrow> 'st handler_result" where
  "handle_reserve env desired_size bucket_id file_id flags s =
     (let (r, ledger) = try_reserve (ne_ledger env) (ne_fresh env) desired_size bucket_id file_id
                          (rf_durable flags) (ns_ledger s);
          s1 = s\<lparr>ns_ledger := ledger\<rparr>
      in case r of
           Ok i \<Rightarrow>
             (let s2 = s1\<lparr>ns_handler := (ns_handler s1)\<lparr>h_reservation_details :=
                    Some \<lparr>rd_id = i, rd_size = desired_size, rd_durable = rf_durable flags\<rparr>\<rparr>\<rparr>
              in try_then (if rf_auto_start flags then start_receiving env i False s2 else (Ok (), s2)) (\<lambda>s3.
                   try_then (send_out env (OutResponse (RespReserveOk i (h_chunk_buffer (ns_handler s3)))) s3) (\<lambda>s4.
                     if rf_temp flags then
                       (let (p, ledger') = pause_reservation (ne_ledger env) i (ns_ledger s4);
                            s5 = s4\<lparr>ns_ledger := ledger'\<rparr>
                        in (Ok (), close_channel (if is_ok p then Ok () else Err MdsftpInternal) s5))
                     else (Ok (), s4))))
         | Err _ \<Rightarrow> respond_close env (RespReserveErr (get_available_space (ns_ledger s1))) (Ok ()) s1)"

definition handle_lock_req ::
    "'st node_env \<Rightarrow> uuid \<Rightarrow> LockKind \<Rightarrow> 'st node_state \<Rightarrow> 'st handler_result" where
  "handle_lock_req env chunk_id kind s =
     (if \<not> fragment_exists chunk_id (ns_ledger s)
      then respond_close env (RespLockErr chunk_id kind CkNotFound) (Ok ()) s
      else case kind of
             LkRead \<Rightarrow>
               (case try_read chunk_id (ne_guard env) (ns_locks s) of
                  (Ok g, l) \<Rightarrow> (Ok (), store_read_guard g (s\<lparr>ns_locks := l\<rparr>))
                | (Err _, l) \<Rightarrow>
                    send_out env (OutResponse (RespLockErr chunk_id kind NotAvailable)) (s\<lparr>ns_locks := l\<rparr>))
           | LkWrite \<Rightarrow>
               (case try_write chunk_id (ne_guard env) (ns_locks s) of
                  (Ok g, l) \<Rightarrow> (Ok (), store_write_guard g (s\<lparr>ns_locks := l\<rparr>))
                | (Err _, l) \<Rightarrow>
                    send_out env (OutResponse (RespLockErr chunk_id kind NotAvailable)) (s\<lparr>ns_locks := l\<rparr>)))"

definition handle_receive_ack :: "u32 \<Rightarrow> 'st node_state \<Rightarrow> 'st handler_result" where
  "handle_receive_ack i s =
     (if h_recv_ack_sender (ns_handler s) then (Ok (), s) else (Err ConnectionError, s))"

definition handle_reserve_cancel :: "'st node_env \<Rightarrow> uuid \<Rightarrow> 'st node_state \<Rightarrow> 'st handler_result" where
  "handle_reserve_cancel env i s =
     (Ok (), close_channel (Ok ())
       (s\<lparr>ns_ledger := snd (cancel_reservation (ne_ledger env) i (ns_ledger s))\<rparr>))"

definition handle_delete_chunk :: "'st node_env \<Rightarrow> uuid \<Rightarrow> 'st node_state \<Rightarrow> 'st handler_result" where
  "handle_delete_chunk env i s =
     (Ok (), close_channel (Ok ())
       (s\<lparr>ns_ledger := snd (delete_chunk (ne_ledger env) i (ns_ledger s))\<rparr>))"

definition apply_commit ::
    "'st ledger_env \<Rightarrow> uuid \<Rightarrow> CommitFlags \<Rightarrow> 'st InternalLedger \<Rightarrow> 'st InternalLedger" where
  "apply_commit env i flags l =
     (if cf_final flags then snd (commit_chunk env i l)
      else if cf_keep_alive flags then snd (commit_alive env i l)
      else if cf_reject flags then snd (delete_chunk env i l)
      else l)"

definition handle_commit ::
    "'st node_env \<Rightarrow> uuid \<Rightarrow> CommitFlags \<Rightarrow> 'st node_state \<Rightarrow> 'st handler_result" where
  "handle_commit env i flags s =
     respond_close env RespCommitOk (Ok ())
       (s\<lparr>ns_ledger := apply_commit (ne_ledger env) i flags (ns_ledger s)\<rparr>)"

definition handle_query :: "'st node_env \<Rightarrow> uuid \<Rightarrow> 'st node_state \<Rightarrow> 'st handler_result" where
  "handle_query env i s =
     (case existing_or_reserved_fragment_meta i (ns_ledger s) of
        Some meta \<Rightarrow> respond_close env (RespQuery (content_size meta) True) (Ok ()) s
      | None \<Rightarrow> respond_close env (RespQuery 0 False) (Ok ()) s)"

definition handle_interrupt :: "'st node_env \<Rightarrow> 'st node_state \<Rightarrow> 'st handler_result" where
  "handle_interrupt env s =
     release_details env (Some (h_data_transferred (ns_handler s)))
       (s\<lparr>ns_upload := None, ns_handler := (ns_handler s)\<lparr>h_receive_file_stream := None\<rparr>\<rparr>)"

definition delegate_upload ::
    "u8 list \<Rightarrow> u64 \<Rightarrow> u16 \<Rightarrow> 'st node_state \<Rightarrow> 'st handler_result" where
  "delegate_upload src sz cb s = start_uploading src False sz cb None s"

definition delegate_download :: "bool \<Rightarrow> 'st node_state \<Rightarrow> 'st handler_result" where
  "delegate_download auto_close s =
     (Ok (), s\<lparr>ns_handler := (ns_handler s)
        \<lparr>h_receive_file_stream := Some OutputTarget, h_auto_close := auto_close\<rparr>\<rparr>)"

fun handle_call :: "'st node_env \<Rightarrow> handler_call \<Rightarrow> 'st node_state \<Rightarrow> 'st handler_result" where
  "handle_call env (HFileChunk chunk i l) s = handle_file_chunk env chunk i l s"
| "handle_call env (HRetrieve i cb r) s = handle_retrieve env i cb r s"
| "handle_call env (HPut f i sz) s = handle_put env f i sz s"
| "handle_call env (HReserve sz b f fl) s = handle_reserve env sz b f fl s"
| "handle_call env (HLockReq i k) s = handle_lock_req env i k s"
| "handle_call env (HReceiveAck i) s = handle_receive_ack i s"
| "handle_call env (HReserveCancel i) s = handle_reserve_cancel env i s"
| "handle_call env (HDeleteChunk i) s = handle_delete_chunk env i s"
| "handle_call env (HCommit i fl) s = handle_commit env i fl s"
| "handle_call env (HQuery i) s = handle_query env i s"

subsection \<open>A remote upload\<close>

text \<open>The fragments of an upload as they arrive. The reader in front of the handler rejects a file
  chunk without content, which is shorter than the minimum length of its packet type, and closes the
  connection (see \<open>received_call\<close>).\<close>

fun receive_fragments :: "'st node_env \<Rightarrow> fragment list \<Rightarrow> 'st node_state \<Rightarrow> 'st handler_result" where
  "receive_fragments env [] s = (Ok (), s)"
| "receive_fragments env ((l, i, c) # cs) s =
     (if received_call (HFileChunk c i l) = None then (Err ConnectionError, s)
      else try_then (handle_call env (HFileChunk c i l) s) (receive_fragments env cs))"

text \<open>The calls a remote upload makes on this node: reserve with \<open>auto_start\<close>, then the fragments.\<close>

definition remote_upload ::
    "'st node_env \<Rightarrow> u64 \<Rightarrow> uuid \<Rightarrow> uuid \<Rightarrow> ReserveFlags \<Rightarrow> fragment list \<Rightarrow> 'st node_state \<Rightarrow>
     'st handler_result" where
  "remote_upload env sz b f flags cs s =
     try_then (handle_call env (HReserve sz b f flags) s) (receive_fragments env cs)"

abbreviation contents :: "fragment list \<Rightarrow> u8 list" where
  "contents cs \<equiv> concat (map (\<lambda>(_, _, c). c) cs)"

abbreviation filled :: "fragment list \<Rightarrow> bool" where
  "filled cs \<equiv> list_all (\<lambda>(_, _, c). c \<noteq> []) cs"

lemma try_then_simps [simp]:
  "try_then (Ok u, s) k = k s" "try_then (Err e, s) k = (Err e, s)"
  by (simp_all add: try_then_def)

lemma receive_fragments_append:
  "receive_fragments env (cs @ ds) s = try_then (receive_fragments env cs s) (receive_fragments env ds)"
proof (induction cs arbitrary: s)
  case (Cons c cs)
  obtain l i b where c: "c = (l, i, b)" by (cases c)
  show ?case
  proof (cases "handle_file_chunk env b i l s")
    case (Pair r s')
    then show ?thesis using Cons by (cases r) (simp_all add: c)
  qed
qed simp

lemma receive_open:
  assumes "h_receive_file_stream (ns_handler s) = Some (FileTarget path)"
    and "\<not> fs_refuses (ne_ledger env) path" "ne_write_ok env"
    and "data_dir (ns_ledger s) path = Some b" "list_all (\<lambda>(l, _, _). \<not> l) cs" "filled cs"
  shows "receive_fragments env cs s = (Ok (),
    s\<lparr>ns_ledger := (ns_ledger s)\<lparr>data_dir := (data_dir (ns_ledger s))(path \<mapsto> b @ contents cs)\<rparr>,
      ns_handler := (ns_handler s)\<lparr>h_data_transferred :=
        h_data_transferred (ns_handler s) + of_nat (length (contents cs))\<rparr>,
      ns_sent := ns_sent s @ map (\<lambda>(_, i, _). OutAck i) cs\<rparr>)"
  using assms
proof (induction cs arbitrary: s b)
  case Nil
  then show ?case by (simp add: fun_upd_idem)
next
  case (Cons c cs)
  obtain l i x where c: "c = (l, i, x)" by (cases c)
  with Cons.prems have l: "\<not> l" "x \<noteq> []" by simp_all
  let ?s = "s\<lparr>ns_ledger := stream_write path x (ns_ledger s),
      ns_handler := (ns_handler s)\<lparr>h_data_transferred :=
        h_data_transferred (ns_handler s) + of_nat (length x)\<rparr>,
      ns_sent := ns_sent s @ [OutAck i]\<rparr>"
  have "handle_file_chunk env x i l s = (Ok (), ?s)"
    using Cons.prems l by (simp add: handle_file_chunk_def write_target_def send_out_def Let_def)
  moreover have "stream_write path x (ns_ledger s) =
      (ns_ledger s)\<lparr>data_dir := (data_dir (ns_ledger s))(path \<mapsto> b @ x)\<rparr>"
    using Cons.prems by (simp add: stream_write_def)
  ultimately show ?case
    using Cons.IH [of ?s "b @ x"] Cons.prems by (simp add: c add.assoc cong: if_cong)
qed

lemma fragments_split:
  assumes "map (\<lambda>(l, _, _). l) cs = replicate (length cs - 1) False @ [True]"
  obtains ds i c where "cs = ds @ [(True, i, c)]" "list_all (\<lambda>(l, _, _). \<not> l) ds"
proof (cases cs rule: rev_cases)
  case Nil
  with assms show ?thesis by simp
next
  case (snoc ds x)
  with assms have m: "map (\<lambda>(l, _, _). l) ds = replicate (length ds) False" and x: "fst x"
    by (simp_all add: split_beta)
  have "list_all (\<lambda>l. \<not> l) (map (\<lambda>(l, _, _). l) ds)" unfolding m by (simp add: list_all_iff)
  then have "list_all (\<lambda>(l, _, _). \<not> l) ds" by (auto simp: list_all_iff)
  with snoc x that show ?thesis by (cases x) simp
qed

lemma try_reserve_OkD:
  assumes "try_reserve env fresh sz b f d s = (Ok i, l)"
  shows "i = fresh \<and> uncommited_map l i \<noteq> None \<and>
    reservation_map l i = Some \<lparr>file_space = sz, completed = 0, durable = d, last_update = now env\<rparr>"
  using assms by (auto simp: try_reserve_def split: if_splits option.splits prod.splits result.splits)

lemma handle_reserve_auto_start:
  assumes "try_reserve (ne_ledger env) (ne_fresh env) sz b f (rf_durable flags) (ns_ledger s) = (Ok i, l1)"
    and "try_write i (ne_guard env) (ns_locks s) = (Ok g, k)" "h_write_guard (ns_handler s) = None"
    and "\<not> fs_refuses (ne_ledger env) (UncommitedFile i)" "ne_write_ok env"
    and "rf_auto_start flags" "\<not> rf_temp flags"
  shows "handle_reserve env sz b f flags s = (Ok (),
    s\<lparr>ns_ledger := l1\<lparr>data_dir := (data_dir l1)(UncommitedFile i \<mapsto> [])\<rparr>, ns_locks := k,
      ns_handler := (ns_handler s)\<lparr>h_reservation_details :=
          Some \<lparr>rd_id = i, rd_size = sz, rd_durable = rf_durable flags\<rparr>,
        h_write_guard := Some g, h_receive_file_stream := Some (FileTarget (UncommitedFile i))\<rparr>,
      ns_sent := ns_sent s @ [OutResponse (RespReserveOk i (h_chunk_buffer (ns_handler s)))]\<rparr>)"
  using assms
  by (simp add: handle_reserve_def start_receiving_def store_write_guard_def drop_guard_def
      fragment_write_stream_def get_path_def send_out_def Let_def)

lemma handle_last_chunk:
  assumes "h_receive_file_stream (ns_handler s) = Some (FileTarget (UncommitedFile i))"
    and "h_reservation_details (ns_handler s) = Some \<lparr>rd_id = i, rd_size = sz, rd_durable = d\<rparr>"
    and "\<not> fs_refuses (ne_ledger env) (UncommitedFile i)" "ne_write_ok env" "ns_closed s = None"
    and "ne_finish_ok env (h_auto_close (ns_handler s))"
    and "release_reservation (ne_ledger env) i sz (stream_write (UncommitedFile i) c (ns_ledger s))
           = (Ok (), l')"
  shows "handle_file_chunk env c n True s = (Ok (),
    s\<lparr>ns_ledger := l',
      ns_handler := (ns_handler s)\<lparr>h_data_transferred :=
        h_data_transferred (ns_handler s) + of_nat (length c), h_receive_file_stream := None\<rparr>,
      ns_sent := ns_sent s @ [OutAck n], ns_closed := Some (Ok ())\<rparr>)"
  using assms
  by (simp add: handle_file_chunk_def write_target_def release_details_def send_out_def
      close_channel_def Let_def)

lemma receive_output:
  assumes "h_receive_file_stream (ns_handler s) = Some OutputTarget" "ne_output_ok env" "ne_write_ok env"
    and "list_all (\<lambda>(l, _, _). \<not> l) cs" "filled cs"
  shows "receive_fragments env cs s = (Ok (),
    s\<lparr>ns_output := ns_output s @ contents cs,
      ns_handler := (ns_handler s)\<lparr>h_data_transferred :=
        h_data_transferred (ns_handler s) + of_nat (length (contents cs))\<rparr>,
      ns_sent := ns_sent s @ map (\<lambda>(_, i, _). OutAck i) cs\<rparr>)"
  using assms
proof (induction cs arbitrary: s)
  case (Cons x cs)
  obtain l i c where x: "x = (l, i, c)" by (cases x)
  let ?s = "s\<lparr>ns_output := ns_output s @ c,
      ns_handler := (ns_handler s)\<lparr>h_data_transferred :=
        h_data_transferred (ns_handler s) + of_nat (length c)\<rparr>,
      ns_sent := ns_sent s @ [OutAck i]\<rparr>"
  have "handle_file_chunk env c i l s = (Ok (), ?s)"
    using Cons.prems by (simp add: x handle_file_chunk_def write_target_def send_out_def Let_def)
  moreover have "receive_fragments env cs ?s = (Ok (),
      ?s\<lparr>ns_output := ns_output ?s @ contents cs,
        ns_handler := (ns_handler ?s)\<lparr>h_data_transferred :=
          h_data_transferred (ns_handler ?s) + of_nat (length (contents cs))\<rparr>,
        ns_sent := ns_sent ?s @ map (\<lambda>(_, i, _). OutAck i) cs\<rparr>)"
    using Cons.prems by (intro Cons.IH) auto
  moreover have "c \<noteq> []" using Cons.prems(5) x by simp
  ultimately show ?case using Cons.prems by (simp add: x add.assoc)
qed simp

lemma receive_download:
  assumes "h_receive_file_stream (ns_handler s) = Some OutputTarget" "ne_output_ok env" "ne_write_ok env"
    and "map (\<lambda>(l, _, _). l) cs = replicate (length cs - 1) False @ [True]"
    and "h_reservation_details (ns_handler s) = None" "ns_closed s = None"
    and "ne_finish_ok env (h_auto_close (ns_handler s))" "filled cs"
  shows "\<exists>s'. receive_fragments env cs s = (Ok (), s') \<and> ns_output s' = ns_output s @ contents cs
    \<and> ns_closed s' = Some (Ok ())"
proof -
  obtain ds n c where cs: "cs = ds @ [(True, n, c)]" and ds: "list_all (\<lambda>(l, _, _). \<not> l) ds"
    using assms(4) by (rule fragments_split)
  have "filled ds" "c \<noteq> []" using assms(8) by (simp_all add: cs)
  then show ?thesis
    using receive_output [OF assms(1-3) ds] assms
    by (simp add: cs receive_fragments_append handle_file_chunk_def write_target_def
        release_details_def send_out_def close_channel_def Let_def)
qed

text \<open>C6. A remote upload is a local upload. Let another node cut a source that is not empty into
  fragments with \<open>mdsftp_upload\<close> and send them after a reservation with \<open>auto_start\<close>. If this node
  admits the reservation, has the chunk unlocked and can write the file, the reader passes every
  fragment, every call succeeds, every fragment is acknowledged in order after the reservation was
  confirmed, the channel closes with \<open>Ok\<close>, and the commit that follows leaves the ledger that a
  local upload of the whole source leaves. (The only fragment of an empty source is rejected by the
  reader.)\<close>

theorem remote_upload_refines_local:
  assumes "mdsftp_upload False src \<lparr>sp_size = of_nat (length src), sp_range = None\<rparr> fragment_size
             = Some (cs, r)"
    and "length src < 2 ^ 64" "length src div unat fragment_size \<le> 2 ^ 32 - 2"
    and "try_reserve (ne_ledger env) (ne_fresh env) (of_nat (length src)) b f (rf_durable flags)
           (ns_ledger s) = (Ok i, l1)"
    and "try_write i (ne_guard env) (ns_locks s) = (Ok g, k)"
    and "\<not> fs_refuses (ne_ledger env) (UncommitedFile i)" "\<not> fs_refuses (ne_ledger env) (ChunkFile i)"
    and "ne_write_ok env" "rf_auto_start flags" "\<not> rf_temp flags"
    and "ns_handler s = packet_handler_new cb fs" "ns_closed s = None" "ne_finish_ok env True"
    and "src \<noteq> []"
  shows "\<exists>s'. remote_upload env (of_nat (length src)) b f flags cs s = (Ok (), s')
    \<and> commit_chunk (ne_ledger env) i (ns_ledger s') =
        upload_chunk (ne_ledger env) (ne_fresh env) src b f (rf_durable flags) (ns_ledger s)
    \<and> ns_sent s' = ns_sent s @ OutResponse (RespReserveOk i cb)
                     # map (\<lambda>n. OutAck (of_nat n)) [0..<length cs]
    \<and> ns_closed s' = Some (Ok ())"
proof -
  let ?p = "\<lparr>sp_size = of_nat (length src), sp_range = None\<rparr> :: SizeParams"
  let ?path = "UncommitedFile i"
  have sz: "unat (size_params_size ?p) = length src"
    using assms(2) by (simp add: size_params_size_def unat_of_nat)
  have content: "contents cs = src" and ids: "map (\<lambda>(_, n, _). n) cs = map of_nat [0..<length cs]"
    and flagged: "map (\<lambda>(l, _, _). l) cs = replicate (length cs - 1) False @ [True]"
    using upload_fragments [OF assms(1)] assms(3) sz by (simp_all add: sz)
  obtain ds n c where cs: "cs = ds @ [(True, n, c)]" and ds: "list_all (\<lambda>(l, _, _). \<not> l) ds"
    using flagged by (rule fragments_split)
  have "size_params_size ?p \<noteq> 0" using sz assms(14) by auto
  then have "filled cs" using upload_fragments_nonempty [OF assms(1)] assms(3) sz by simp
  then have filled: "filled ds" "c \<noteq> []" by (simp_all add: cs)
  define s1 where "s1 = s\<lparr>ns_ledger := l1\<lparr>data_dir := (data_dir l1)(?path \<mapsto> [])\<rparr>, ns_locks := k,
      ns_handler := (ns_handler s)\<lparr>h_reservation_details :=
          Some \<lparr>rd_id = i, rd_size = of_nat (length src), rd_durable = rf_durable flags\<rparr>,
        h_write_guard := Some g, h_receive_file_stream := Some (FileTarget ?path)\<rparr>,
      ns_sent := ns_sent s @ [OutResponse (RespReserveOk i cb)]\<rparr>"
  have reserve: "handle_reserve env (of_nat (length src)) b f flags s = (Ok (), s1)"
    using handle_reserve_auto_start [OF assms(4,5) _ assms(6) assms(8-10)] assms(11)
    by (simp add: packet_handler_new_def s1_def)
  define l2 where "l2 = l1\<lparr>data_dir := (data_dir l1)(?path \<mapsto> src)\<rparr>"
  obtain s2 where recv: "receive_fragments env ds s1 = (Ok (), s2)"
    and s2: "h_receive_file_stream (ns_handler s2) = Some (FileTarget ?path)"
      "h_reservation_details (ns_handler s2) = h_reservation_details (ns_handler s1)"
      "ns_closed s2 = None" "h_auto_close (ns_handler s2)" "ns_sent s2 = ns_sent s1 @ map (\<lambda>(_, n, _). OutAck n) ds"
    and l2: "stream_write ?path c (ns_ledger s2) = l2"
    using receive_open [of s1 ?path env "[]" ds] assms(6,8,11,12) ds content cs filled(1)
    by (simp add: s1_def l2_def stream_write_def packet_handler_new_def)
  obtain l' where release: "release_reservation (ne_ledger env) i (of_nat (length src)) l2 = (Ok (), l')"
    using try_reserve_OkD [OF assms(4)] assms(6)
    by (auto simp: release_reservation_def l2_def fs_read_def get_path_def)
  have last: "handle_file_chunk env c n True s2 = (Ok (), s2\<lparr>ns_ledger := l',
      ns_handler := (ns_handler s2)\<lparr>h_data_transferred :=
        h_data_transferred (ns_handler s2) + of_nat (length c), h_receive_file_stream := None\<rparr>,
      ns_sent := ns_sent s2 @ [OutAck n], ns_closed := Some (Ok ())\<rparr>)"
    using handle_last_chunk [OF s2(1) _ assms(6,8) s2(3)] release s2(4) assms(13)
    by (simp add: s2(2) s1_def l2)
  have "upload_chunk (ne_ledger env) (ne_fresh env) src b f (rf_durable flags) (ns_ledger s)
      = commit_chunk (ne_ledger env) i l'"
    using assms(4,6) try_reserve_OkD [OF assms(4)] release
    by (simp add: upload_chunk_def fragment_write_stream_def get_path_def stream_write_def l2_def
        Let_def)
  moreover have "map (\<lambda>(_, n, _). OutAck n) cs = map (\<lambda>n. OutAck (of_nat n)) [0..<length cs]"
    using arg_cong [OF ids, of "map OutAck"] by (simp add: split_beta' comp_def)
  ultimately show ?thesis
    using reserve recv last s2(5) filled(2)
    by (simp add: remote_upload_def receive_fragments_append cs s1_def)
qed

definition plain_node :: "u64 \<Rightarrow> (u8 list \<rightharpoonup> u8 list) node_state" where
  "plain_node n = \<lparr>ns_ledger = plain_ledger n, ns_locks = lock_table_new 256,
     ns_handler = packet_handler_new 16 65535, ns_sent = [], ns_closed = None, ns_output = [],
     ns_upload = None\<rparr>"

definition plain_node_env :: "nat \<Rightarrow> (u8 list \<rightharpoonup> u8 list) node_env" where
  "plain_node_env t = \<lparr>ne_ledger = plain_env t, ne_fresh = 7, ne_guard = 0, ne_write_ok = True,
     ne_output_ok = True, ne_finish_ok = (\<lambda>_. True)\<rparr>"

lemma plain_node_try_write:
  "\<exists>k. try_write i (ne_guard (plain_node_env t)) (ns_locks (plain_node n)) = (Ok 0, k)"
  by (simp add: try_write_def try_lock_def lock_table_new_def file_lock_new_def guard_new_def
      plain_node_def plain_node_env_def)

lemma plain_node_try_reserve:
  "sz \<le> n \<Longrightarrow> \<exists>l. try_reserve (ne_ledger (plain_node_env t)) (ne_fresh (plain_node_env t)) sz b f d
     (ns_ledger (plain_node n)) = (Ok 7, l)"
  by (simp add: plain_node_def plain_node_env_def plain_ledger_def ledger_new_def plain_env_def
      try_reserve_def get_available_space_def saturating_sub_def embedded_insert_def memory_libs_def
      not_less Let_def)

theorem remote_upload_refines_local_witness:
  "\<exists>s'. remote_upload (plain_node_env 5) (of_nat (length [1, 2, 3 :: u8])) 11 12
          \<lparr>rf_auto_start = True, rf_durable = False, rf_temp = False, rf_overwrite = False\<rparr>
          [(False, 0, [1, 2]), (True, 1, [3])] (plain_node 1000) = (Ok (), s')
    \<and> ns_sent s' = [OutResponse (RespReserveOk 7 16), OutAck 0, OutAck 1]"
proof -
  let ?fl = "\<lparr>rf_auto_start = True, rf_durable = False, rf_temp = False, rf_overwrite = False\<rparr>"
  let ?src = "[1, 2, 3 :: u8]"
  have t: "transfer_fragments (Suc 0) (Suc (Suc 0)) (Suc 0) ?src
      = ([(False, 0, [1, 2]), (True, 1, [3])], Ok ())"
    by (simp add: transfer_fragments_def read_exact_def)
  have up: "mdsftp_upload False ?src \<lparr>sp_size = of_nat (length ?src), sp_range = None\<rparr> 2
      = Some ([(False, 0, [1, 2]), (True, 1, [3])], Ok ())"
    using t by (simp add: mdsftp_upload_def size_params_size_def numeral_2_eq_2 [symmetric] Let_def)
  obtain k where k: "try_write 7 (ne_guard (plain_node_env 5)) (ns_locks (plain_node 1000)) = (Ok 0, k)"
    using plain_node_try_write by blast
  obtain l where l: "try_reserve (ne_ledger (plain_node_env 5)) (ne_fresh (plain_node_env 5))
      (of_nat (length ?src)) 11 12 (rf_durable ?fl) (ns_ledger (plain_node 1000)) = (Ok 7, l)"
    using plain_node_try_reserve [of "of_nat (length ?src)" 1000 5 11 12 False] by auto
  show ?thesis
    using remote_upload_refines_local [OF up _ _ l k, of 16 65535]
    by (auto simp: plain_node_env_def plain_env_def plain_node_def)
qed

subsection \<open>Interruptions\<close>

lemma handle_interrupt_durable:
  assumes "h_reservation_details (ns_handler s) = Some d" "reservation_map (ns_ledger s) (rd_id d) = Some r"
    and "durable r" "h_data_transferred (ns_handler s) \<noteq> file_space r"
  shows "\<exists>s'. handle_interrupt env s = (Ok (), s')
    \<and> data_dir (ns_ledger s') = data_dir (ns_ledger s) \<and> uncommited_map (ns_ledger s') = uncommited_map (ns_ledger s)
    \<and> reservation_map (ns_ledger s') (rd_id d) = Some (r\<lparr>completed := h_data_transferred (ns_handler s),
        last_update := now (ne_ledger env)\<rparr>)"
  using assms by (simp add: handle_interrupt_def release_details_def release_reservation_def Let_def)

text \<open>Asking to append to a chunk that has a reservation and the bytes \<open>part\<close>.\<close>

lemma handle_put_append:
  assumes "reservation_map (ns_ledger s) i = Some r" "uncommited_map (ns_ledger s) i \<noteq> None"
    and "data_dir (ns_ledger s) (UncommitedFile i) = Some part" "try_write i (ne_guard env) (ns_locks s) = (Ok g, k)"
    and "ns_handler s = packet_handler_new cb fs" "ne_write_ok env" "\<not> fs_refuses (ne_ledger env) (UncommitedFile i)"
  obtains s1 where
    "handle_put env \<lparr>put_append = True\<rparr> i (file_space r - completed r) s = (Ok (), s1)"
    "data_dir (ns_ledger s1) = data_dir (ns_ledger s)" "uncommited_map (ns_ledger s1) i \<noteq> None"
    "reservation_map (ns_ledger s1) i = Some (r\<lparr>last_update := now (ne_ledger env)\<rparr>)"
    "ns_handler s1 = (packet_handler_new cb fs)\<lparr>h_reservation_details :=
          Some \<lparr>rd_id = i, rd_size = file_space r, rd_durable = durable r\<rparr>,
        h_write_guard := Some g, h_receive_file_stream := Some (FileTarget (UncommitedFile i))\<rparr>"
    "ns_closed s1 = ns_closed s"
  using that assms
  by (auto simp: handle_put_def resume_reservation_def refresh_reservation_def start_receiving_def
      store_write_guard_def drop_guard_def fragment_append_stream_def get_path_def send_out_def
      packet_handler_new_def Let_def fun_upd_idem)

text \<open>The node when another node opens a channel to it: the ledger and the lock table as they are, and a
  new handler.\<close>

definition accepted_channel ::
    "'st InternalLedger \<Rightarrow> uuid lock_table \<Rightarrow> u16 \<Rightarrow> u32 \<Rightarrow> 'st node_state" where
  "accepted_channel l locks cb fs = \<lparr>ns_ledger = l, ns_locks = locks, ns_handler = packet_handler_new cb fs,
     ns_sent = [], ns_closed = None, ns_output = [], ns_upload = None\<rparr>"

lemma accepted_channel_sel [simp]:
  "ns_ledger (accepted_channel l locks cb fs) = l" "ns_locks (accepted_channel l locks cb fs) = locks"
  "ns_handler (accepted_channel l locks cb fs) = packet_handler_new cb fs"
  "ns_sent (accepted_channel l locks cb fs) = []" "ns_closed (accepted_channel l locks cb fs) = None"
  by (simp_all add: accepted_channel_def)






text \<open>A second interruption of a durable upload forgets the first part. Let a durable chunk have
  \<open>k\<close> bytes from an earlier transfer, and let a resumed transfer append some fragments and then be
  interrupted. The file then holds all bytes received so far, but the reservation records only
  those of the last transfer as completed, so the node tells the client to resume at an offset it
  has already passed.\<close>

theorem second_interrupt_forgets_prefix:
  assumes "reservation_map (ns_ledger s) i = Some r" "durable r"
    and "uncommited_map (ns_ledger s) i \<noteq> None" "data_dir (ns_ledger s) (UncommitedFile i) = Some part"
    and "completed r = of_nat (length part)"
    and "try_write i (ne_guard env) (ns_locks s) = (Ok g, k)"
    and "ns_handler s = packet_handler_new cb fs" "ne_write_ok env"
    and "\<not> fs_refuses (ne_ledger env) (UncommitedFile i)"
    and "list_all (\<lambda>(l, _, _). \<not> l) cs" "filled cs" "of_nat (length (contents cs)) \<noteq> file_space r"
  shows "\<exists>s1 s2 s3.
      handle_call env (HPut \<lparr>put_append = True\<rparr> i (file_space r - completed r)) s = (Ok (), s1)
    \<and> receive_fragments env cs s1 = (Ok (), s2) \<and> handle_interrupt env s2 = (Ok (), s3)
    \<and> data_dir (ns_ledger s3) (UncommitedFile i) = Some (part @ contents cs)
    \<and> map_option content_size (existing_or_reserved_fragment_meta i (ns_ledger s3))
        = Some (of_nat (length (contents cs)))"
proof -
  obtain s1 where put: "handle_put env \<lparr>put_append = True\<rparr> i (file_space r - completed r) s = (Ok (), s1)"
    and s1: "data_dir (ns_ledger s1) = data_dir (ns_ledger s)"
      "reservation_map (ns_ledger s1) i = Some (r\<lparr>last_update := now (ne_ledger env)\<rparr>)"
      "ns_handler s1 = (packet_handler_new cb fs)\<lparr>h_reservation_details :=
          Some \<lparr>rd_id = i, rd_size = file_space r, rd_durable = durable r\<rparr>,
        h_write_guard := Some g, h_receive_file_stream := Some (FileTarget (UncommitedFile i))\<rparr>"
    using handle_put_append [OF assms(1,3,4,6,7,8,9)] by metis
  obtain s2 where recv: "receive_fragments env cs s1 = (Ok (), s2)"
    and s2: "s2 = s1\<lparr>ns_ledger := (ns_ledger s1)\<lparr>data_dir :=
          (data_dir (ns_ledger s1))(UncommitedFile i \<mapsto> part @ contents cs)\<rparr>,
        ns_handler := (ns_handler s1)\<lparr>h_data_transferred :=
          h_data_transferred (ns_handler s1) + of_nat (length (contents cs))\<rparr>,
        ns_sent := ns_sent s1 @ map (\<lambda>(_, i, _). OutAck i) cs\<rparr>"
    using receive_open [of s1 "UncommitedFile i" env part cs] assms(4,8-12)
    by (simp add: s1 packet_handler_new_def)
  have "\<exists>s3. handle_interrupt env s2 = (Ok (), s3)
    \<and> data_dir (ns_ledger s3) = data_dir (ns_ledger s2)
    \<and> reservation_map (ns_ledger s3) i = Some (r\<lparr>completed := of_nat (length (contents cs)),
        last_update := now (ne_ledger env)\<rparr>)"
    using handle_interrupt_durable [of s2 _ "r\<lparr>last_update := now (ne_ledger env)\<rparr>" env] assms(2,12)
    by (auto simp: s2 s1 packet_handler_new_def)
  with put recv show ?thesis
    by (auto simp: existing_or_reserved_fragment_meta_def s2)
qed

definition resumed_node :: "(u8 list \<rightharpoonup> u8 list) node_state" where
  "resumed_node = (plain_node 1000)\<lparr>ns_ledger := (plain_ledger 1000)
     \<lparr>reservation_map := [7 \<mapsto> \<lparr>file_space = 6, completed = 2, durable = True, last_update = 1\<rparr>],
      uncommited_map := [7 \<mapsto> \<lparr>access = 1\<rparr>], disk_reserved_size := 6,
      data_dir := [UncommitedFile 7 \<mapsto> [1, 2]]\<rparr>\<rparr>"

theorem second_interrupt_forgets_prefix_witness:
  "\<exists>s1 s2 s3.
      handle_call (plain_node_env 5) (HPut \<lparr>put_append = True\<rparr> 7 4) resumed_node = (Ok (), s1)
    \<and> receive_fragments (plain_node_env 5) [(False, 0, [3 :: u8])] s1 = (Ok (), s2)
    \<and> handle_interrupt (plain_node_env 5) s2 = (Ok (), s3)
    \<and> data_dir (ns_ledger s3) (UncommitedFile 7) = Some [1, 2, 3]
    \<and> map_option content_size (existing_or_reserved_fragment_meta 7 (ns_ledger s3)) = Some 1"
proof -
  obtain k where k: "try_write 7 (ne_guard (plain_node_env 5)) (ns_locks resumed_node) = (Ok 0, k)"
    using plain_node_try_write [of 7 5 1000] by (auto simp: resumed_node_def)
  show ?thesis
    using second_interrupt_forgets_prefix [OF _ _ _ _ _ k, of
        "\<lparr>file_space = 6, completed = 2, durable = True, last_update = 1\<rparr>" "[1, 2]" 16 65535
        "[(False, 0, [3])]"]
    by (simp add: resumed_node_def plain_node_def plain_node_env_def plain_env_def)
qed

end
