(* ===== verification/Cluster.thy ===== *)
theory Cluster
  imports Channel_Handler File_Access
begin

section \<open>A node among its peers\<close>

text \<open>
  \<^verbatim>\<open>node/src/public/service/chunk_service.rs\<close> and \<^verbatim>\<open>file_io_service.rs\<close>: how a node commits,
  queries, writes and reads a chunk that is its own or a peer's.

  \<open>app_state\<close> is the \<open>AppState\<close> of the node that serves the request together with the ledgers and
  lock tables of all nodes. A request to a peer runs the peer's handler (\<open>Channel_Handler\<close>) on the
  peer's part of the state: by \<open>Mdsftp_Channel\<close> a packet makes the handler call it stands for and
  an answer reaches the request that waits for it. \<open>remote_channel\<close> is the peer's end of a channel.
  A request that is never answered is \<open>None\<close>: the handler failed without answering, the channel
  stays open, and the caller waits.

  The code tells the waiter of a transfer \<open>Ok\<close> when its channel is closed by the other side
  (\<open>interrupt\<close> in \<open>Mdsftp_Channel\<close>), and so do \<open>inbound_transfer\<close> and
  \<open>outbound_transfer\<close> here.

  Other requests do not run in between the steps of one; what comes from outside is \<open>app_env\<close>.
\<close>

subsection \<open>State and environment\<close>

definition BUFFER_SIZE :: u16 where "BUFFER_SIZE = 10"

record remote_channel =
  rc_node :: uuid
  rc_handler :: packet_handler
  rc_closed :: "unit mdsftp_result option"

record ('st, 'db) app_state =
  as_ledger :: "uuid \<Rightarrow> 'st InternalLedger"
  as_locks :: "uuid \<Rightarrow> uuid lock_table"
  as_storage_map :: "uuid \<rightharpoonup> u64"
  as_last_refresh :: timestamp
  as_db :: 'db
  as_drawn :: nat \<comment> \<open>how many uuids and guards were drawn\<close>

record ('st, 'db) app_env =
  ae_self :: uuid
  ae_cql :: "'db cql"
  ae_others :: "nat \<Rightarrow> 'db \<Rightarrow> 'db"
  ae_ledger :: "uuid \<Rightarrow> 'st ledger_env"
  ae_uuid :: "nat \<Rightarrow> uuid"
  ae_channel :: "uuid \<Rightarrow> unit mdsftp_result" \<comment> \<open>the pool's \<open>channel\<close>\<close>
  ae_link :: "uuid \<Rightarrow> bool" \<comment> \<open>the peer can write its answers\<close>
  ae_finish_ok :: "uuid \<Rightarrow> bool \<Rightarrow> bool"
  ae_output_ok :: bool
  ae_copy_fails :: "uuid \<Rightarrow> nat option" \<comment> \<open>bytes after which writing the request body to a chunk fails\<close>
  ae_fragment_size :: "uuid \<Rightarrow> u32"
  ae_buffer_size :: u16
  ae_utc_now :: timestamp
  ae_map_order :: "(uuid \<rightharpoonup> u64) \<Rightarrow> uuid list" \<comment> \<open>iteration over the storage map\<close>
  ae_peers :: "(uuid \<times> u64) list option" \<comment> \<open>the controller's answer, if there is one\<close>
  ae_heart_beat :: u64 \<comment> \<open>seconds\<close>

type_synonym 'a node_result = "('a, NodeClientError) result"
type_synonym ('a, 'st, 'db) service =
  "('st, 'db) app_state \<Rightarrow> ('a node_result \<times> ('st, 'db) app_state) option"

definition then_svc :: "('a, 'st, 'db) service \<Rightarrow> ('a \<Rightarrow> ('b, 'st, 'db) service) \<Rightarrow> ('b, 'st, 'db) service" where
  "then_svc m k st =
     (case m st of
        None \<Rightarrow> None
      | Some (Err e, st') \<Rightarrow> Some (Err e, st')
      | Some (Ok a, st') \<Rightarrow> k a st')"

lemma then_svc_Ok:
  "then_svc m k st = Some (Ok b, st') \<longleftrightarrow> (\<exists>a st1. m st = Some (Ok a, st1) \<and> k a st1 = Some (Ok b, st'))"
  by (auto simp: then_svc_def split: option.splits result.splits)

lemma then_svc_Err:
  "then_svc m k st = Some (Err e, st') \<longleftrightarrow>
     m st = Some (Err e, st') \<or> (\<exists>a st1. m st = Some (Ok a, st1) \<and> k a st1 = Some (Err e, st'))"
  by (auto simp: then_svc_def split: option.splits result.splits)

lemma then_svc_intro: "m st = Some (Ok a, st1) \<Longrightarrow> then_svc m k st = k a st1"
  by (simp add: then_svc_def)

definition set_ledger :: "uuid \<Rightarrow> 'st InternalLedger \<Rightarrow> ('st, 'db) app_state \<Rightarrow> ('st, 'db) app_state" where
  "set_ledger n l st = st\<lparr>as_ledger := (as_ledger st)(n := l)\<rparr>"

subsection \<open>The peer's end of a channel\<close>

definition node_env_at :: "('st, 'db) app_env \<Rightarrow> uuid \<Rightarrow> ('st, 'db) app_state \<Rightarrow> 'st node_env" where
  "node_env_at env n st =
     \<lparr>ne_ledger = ae_ledger env n, ne_fresh = ae_uuid env (as_drawn st), ne_guard = as_drawn st,
      ne_write_ok = ae_link env n, ne_output_ok = ae_output_ok env, ne_finish_ok = ae_finish_ok env n\<rparr>"

definition node_at :: "uuid \<Rightarrow> packet_handler \<Rightarrow> ('st, 'db) app_state \<Rightarrow> 'st node_state" where
  "node_at n h st =
     \<lparr>ns_ledger = as_ledger st n, ns_locks = as_locks st n, ns_handler = h, ns_sent = [],
      ns_closed = None, ns_output = [], ns_upload = None\<rparr>"

definition drop_handler :: "packet_handler \<Rightarrow> uuid lock_table \<Rightarrow> uuid lock_table" where
  "drop_handler h l = drop_guard (h_read_guard h) (drop_guard (h_write_guard h) l)"

definition channel_to :: "('st, 'db) app_env \<Rightarrow> uuid \<Rightarrow> remote_channel" where
  "channel_to env n = \<lparr>rc_node = n, rc_handler = packet_handler_new BUFFER_SIZE (ae_fragment_size env n),
     rc_closed = None\<rparr>"

definition open_channel :: "('st, 'db) app_env \<Rightarrow> uuid \<Rightarrow> remote_channel mdsftp_result" where
  "open_channel env n =
     (case ae_channel env n of
        Err e \<Rightarrow> Err e
      | Ok _ \<Rightarrow> Ok (channel_to env n))"

lemma channel_to_simps [simp]: "rc_node (channel_to env n) = n" "rc_closed (channel_to env n) = None"
  by (simp_all add: channel_to_def)

text \<open>Running the peer's handler: a handler that fails with \<open>ConnectionError\<close> makes the reader close
  the connection; the guards of a handler go with its channel.\<close>

definition remote_run ::
    "('st, 'db) app_env \<Rightarrow> ('st node_env \<Rightarrow> 'st node_state \<Rightarrow> 'st handler_result) \<Rightarrow> remote_channel \<Rightarrow>
     ('st, 'db) app_state \<Rightarrow> unit mdsftp_result \<times> 'st node_state \<times> remote_channel \<times> ('st, 'db) app_state" where
  "remote_run env f ch st =
     (let n = rc_node ch;
          (r, s) = f (node_env_at env n st) (node_at n (rc_handler ch) st);
          closed = (if r = Err ConnectionError \<and> ns_closed s = None then Some r else ns_closed s);
          locks = (if closed = None then ns_locks s else drop_handler (ns_handler s) (ns_locks s))
      in (r, s, ch\<lparr>rc_handler := ns_handler s, rc_closed := closed\<rparr>,
          st\<lparr>as_ledger := (as_ledger st)(n := ns_ledger s), as_locks := (as_locks st)(n := locks),
             as_drawn := Suc (as_drawn st)\<rparr>))"

text \<open>A request and its answer. A packet for a channel that the peer has closed is ignored there; a
  request that is waiting when the connection closes gets \<open>Interrupted\<close>.\<close>

definition request ::
    "('st, 'db) app_env \<Rightarrow> (delivery \<Rightarrow> 'a mdsftp_result option) \<Rightarrow> handler_call \<Rightarrow> remote_channel \<Rightarrow>
     ('st, 'db) app_state \<Rightarrow> ('a mdsftp_result \<times> remote_channel \<times> ('st, 'db) app_state) option" where
  "request env pick c ch st =
     (if rc_closed ch \<noteq> None then None
      else
        (let (_, s, ch', st') = remote_run env (\<lambda>e. handle_call e c) ch st
         in case ns_sent s of
              OutResponse r # _ \<Rightarrow> map_option (\<lambda>x. (x, ch', st')) (pick (awaited r))
            | _ \<Rightarrow> if rc_closed ch' = None then None else Some (Err Interrupted, ch', st')))"

fun pick_reserve :: "delivery \<Rightarrow> ReserveResult mdsftp_result option" where
  "pick_reserve (DeliverReserve r) = Some r"
| "pick_reserve _ = None"

fun pick_put :: "delivery \<Rightarrow> PutResult mdsftp_result option" where
  "pick_put (DeliverPut r) = Some r"
| "pick_put _ = None"

fun pick_query :: "delivery \<Rightarrow> QueryResult mdsftp_result option" where
  "pick_query (DeliverQuery r) = Some r"
| "pick_query _ = None"

fun pick_commit :: "delivery \<Rightarrow> CommitResult mdsftp_result option" where
  "pick_commit (DeliverCommit r) = Some r"
| "pick_commit _ = None"

text \<open>A message without an answer.\<close>

definition notify ::
    "('st, 'db) app_env \<Rightarrow> handler_call \<Rightarrow> remote_channel \<Rightarrow> ('st, 'db) app_state \<Rightarrow> ('st, 'db) app_state" where
  "notify env c ch st =
     (if rc_closed ch \<noteq> None then st
      else let (_, _, _, st') = remote_run env (\<lambda>e. handle_call e c) ch st in st')"

subsection \<open>Committing and querying a chunk\<close>

definition service_commit_chunk ::
    "('st, 'db) app_env \<Rightarrow> CommitFlags \<Rightarrow> uuid \<Rightarrow> uuid \<Rightarrow> (unit, 'st, 'db) service" where
  "service_commit_chunk env flags node i st =
     (if node = ae_self env
      then Some (Ok (), set_ledger node (apply_commit (ae_ledger env node) i flags (as_ledger st node)) st)
      else case open_channel env node of
             Err e \<Rightarrow> Some (Err (node_from_mdsftp e), st)
           | Ok ch \<Rightarrow>
               (case request env pick_commit (HCommit i flags) ch st of
                  None \<Rightarrow> None
                | Some (Err e, _, st') \<Rightarrow> Some (Err (node_from_mdsftp e), st')
                | Some (Ok _, _, st') \<Rightarrow> Some (Ok (), st')))"

record ChunkInfo =
  ci_chunk_buffer :: u16
  ci_size :: u64
  ci_append :: bool

definition query_chunk ::
    "('st, 'db) app_env \<Rightarrow> uuid \<Rightarrow> uuid \<Rightarrow> (u64 option, 'st, 'db) service" where
  "query_chunk env i node st =
     (if node = ae_self env
      then Some (Ok (map_option content_size (existing_or_reserved_fragment_meta i (as_ledger st node))), st)
      else case open_channel env node of
             Err e \<Rightarrow> Some (Err (node_from_mdsftp e), st)
           | Ok ch \<Rightarrow>
               (case request env pick_query (HQuery i) ch st of
                  None \<Rightarrow> None
                | Some (Ok q, _, st') \<Rightarrow> Some (Ok (Some (qr_size q)), st')
                | Some (Err e, _, st') \<Rightarrow>
                    if e = NoSuchChunkId then Some (Ok None, st') else Some (Err (node_from_mdsftp e), st')))"

subsection \<open>Content to and from a chunk\<close>

text \<open>The write into the own data directory; the request body ends where its bytes end. The copy
  fails with what it has written when the body or the disk fails before that.\<close>

definition copy_in ::
    "'st ledger_env \<Rightarrow> nat option \<Rightarrow> u8 list \<Rightarrow> u64 \<Rightarrow> uuid \<Rightarrow> ChunkInfo \<Rightarrow> 'st InternalLedger \<Rightarrow>
     unit node_result \<times> 'st InternalLedger" where
  "copy_in le fails reader skip i chunk l =
     (let (w, l1) = (if ci_append chunk then fragment_append_stream le i l else fragment_write_stream le i l)
      in case w of
           Err _ \<Rightarrow> (Err InternalError, l1)
         | Ok path \<Rightarrow>
             (let copied = take (unat (ci_size chunk - skip)) reader
              in case fails of
                   Some n \<Rightarrow> (Err InternalError, stream_write path (take n copied) l1)
                 | None \<Rightarrow>
                 (if length copied \<noteq> unat (ci_size chunk - skip) then Err BadRequest else Ok (),
                  stream_write path copied l1)))"

definition local_inbound ::
    "('st, 'db) app_env \<Rightarrow> u8 list \<Rightarrow> u64 \<Rightarrow> uuid \<Rightarrow> ChunkInfo \<Rightarrow> (unit, 'st, 'db) service" where
  "local_inbound env reader skip i chunk st =
     (let n = ae_self env; le = ae_ledger env n;
          (res, l) = copy_in le (ae_copy_fails env i) reader skip i chunk (as_ledger st n)
      in case res of
           Ok _ \<Rightarrow>
             (let (r, l') = release_reservation le i (ci_size chunk) l
              in Some (map_err (\<lambda>_. InternalError) r, set_ledger n l' st))
         | Err e \<Rightarrow>
             (case stat_chunk le i l of
                Err e' \<Rightarrow> Some (Err (node_from_io e'), set_ledger n l st)
              | Ok sz \<Rightarrow>
                  (let (r, l') = release_reservation le i sz l
                   in Some (if is_ok r then Err e else Err InternalError, set_ledger n l' st))))"

text \<open>Sending the content over a channel and waiting for the end of the transfer. When the source
  ends early the sender closes the channel and the peer is interrupted; when the peer closes the
  channel, the waiter here is told \<open>Ok\<close>.\<close>

definition send_content ::
    "('st, 'db) app_env \<Rightarrow> u8 list \<Rightarrow> u64 \<Rightarrow> remote_channel \<Rightarrow> (unit, 'st, 'db) service" where
  "send_content env reader sz ch st =
     (case mdsftp_upload False reader \<lparr>sp_size = sz, sp_range = None\<rparr> (ae_fragment_size env (ae_self env)) of
        None \<Rightarrow> None
      | Some (cs, sent) \<Rightarrow>
          (let (r, s, ch', st') = remote_run env (\<lambda>e. receive_fragments e cs) ch st
           in if is_ok r then
                (case sent of
                   Ok _ \<Rightarrow> Some (Ok (), st')
                 | Err e \<Rightarrow>
                     (let (_, _, _, st'') = remote_run env handle_interrupt ch' st'
                      in Some (Err (node_from_mdsftp e), st'')))
              else if rc_closed ch' = None then None
              else Some (Ok (), st')))"

definition remote_inbound ::
    "('st, 'db) app_env \<Rightarrow> u8 list \<Rightarrow> u64 \<Rightarrow> uuid \<Rightarrow> uuid \<Rightarrow> remote_channel option \<Rightarrow> ChunkInfo \<Rightarrow>
     (unit, 'st, 'db) service" where
  "remote_inbound env reader skip node i channel chunk st =
     (case channel of
        Some ch \<Rightarrow> send_content env reader (ci_size chunk - skip) ch st
      | None \<Rightarrow>
          (case open_channel env node of
             Err e \<Rightarrow> Some (Err (node_from_mdsftp e), st)
           | Ok ch \<Rightarrow>
               (case request env pick_put (HPut \<lparr>put_append = ci_append chunk\<rparr> i (ci_size chunk - skip)) ch st of
                  None \<Rightarrow> None
                | Some (Err e, _, st') \<Rightarrow> Some (Err (node_from_mdsftp e), st')
                | Some (Ok _, ch', st') \<Rightarrow> send_content env reader (ci_size chunk - skip) ch' st')))"

definition inbound_transfer ::
    "('st, 'db) app_env \<Rightarrow> u8 list \<Rightarrow> u64 \<Rightarrow> uuid \<Rightarrow> uuid \<Rightarrow> remote_channel option \<Rightarrow> ChunkInfo \<Rightarrow>
     (u8 list, 'st, 'db) service" where
  "inbound_transfer env reader skip node i channel chunk =
     then_svc (if node = ae_self env then local_inbound env reader skip i chunk
               else remote_inbound env reader skip node i channel chunk)
       (\<lambda>_ st. Some (Ok (drop (unat (ci_size chunk - skip)) reader), st))"

text \<open>The range as the peer decodes it.\<close>

definition wire_range :: "ChunkRange option \<Rightarrow> ChunkRange option mdsftp_result" where
  "wire_range rng = (case rng of None \<Rightarrow> Ok None | Some r \<Rightarrow> decode_range (rng_start r) (rng_end r))"

definition local_outbound ::
    "('st, 'db) app_env \<Rightarrow> uuid \<Rightarrow> ChunkRange option \<Rightarrow> (u8 list, 'st, 'db) service" where
  "local_outbound env i rng st =
     (case fragment_read_stream (ae_ledger env (ae_self env)) i (as_ledger st (ae_self env)) of
        Err _ \<Rightarrow> Some (Err NotFound, st)
      | Ok bytes \<Rightarrow>
          if \<not> ae_output_ok env then Some (Err InternalError, st)
          else (case rng of
                  None \<Rightarrow> Some (Ok bytes, st)
                | Some r \<Rightarrow> Some (Ok (take (unat (chunk_range_size r)) (drop (unat (rng_start r)) bytes)), st)))"

text \<open>Retrieving from a peer: its handler starts an upload, whose fragments arrive at a handler here
  that writes them to the output. A peer without the chunk fails and does not answer.\<close>

definition remote_outbound ::
    "('st, 'db) app_env \<Rightarrow> uuid \<Rightarrow> uuid \<Rightarrow> ChunkRange option \<Rightarrow> (u8 list, 'st, 'db) service" where
  "remote_outbound env node i rng st =
     (case open_channel env node of
        Err e \<Rightarrow> Some (Err (node_from_mdsftp e), st)
      | Ok ch \<Rightarrow>
          (case wire_range rng of
             Err _ \<Rightarrow> None
           | Ok rng' \<Rightarrow>
               (let (_, s, ch', st') = remote_run env (\<lambda>e. handle_call e (HRetrieve i 16 rng')) ch st
                in case ns_upload s of
                     None \<Rightarrow> None
                   | Some task \<Rightarrow>
                       (case mdsftp_upload (ut_seekable task) (ut_source task) (ut_params task)
                               (ae_fragment_size env node) of
                          None \<Rightarrow> None
                        | Some (cs, sent) \<Rightarrow>
                            (let self = ae_self env;
                                 h = packet_handler_new (ae_buffer_size env) (ae_fragment_size env self);
                                 own = snd (delegate_download False (node_at self h st'));
                                 (r, o') = receive_fragments (node_env_at env self st') cs own;
                                 st'' = st'\<lparr>as_locks := (as_locks st')(node :=
                                   drop_handler (rc_handler ch') (as_locks st' node))\<rparr>
                             in case ns_closed o' of
                                  Some (Err e) \<Rightarrow> Some (Err (node_from_mdsftp e), st'')
                                | Some (Ok _) \<Rightarrow> Some (Ok (ns_output o'), st'')
                                | None \<Rightarrow> if is_ok r \<and> is_ok sent then None else Some (Ok (ns_output o'), st''))))))"

definition outbound_transfer ::
    "('st, 'db) app_env \<Rightarrow> u8 list \<Rightarrow> uuid \<Rightarrow> uuid \<Rightarrow> ChunkRange option \<Rightarrow> (u8 list, 'st, 'db) service" where
  "outbound_transfer env output node i rng =
     then_svc (if node = ae_self env then local_outbound env i rng else remote_outbound env node i rng)
       (\<lambda>bytes st. Some (Ok (output @ bytes), st))"

subsection \<open>Reading a chunk\<close>

text \<open>A chunk can be read when nobody writes it; reading it leaves every other one readable.\<close>

definition readable :: "uuid lock_table \<Rightarrow> uuid \<Rightarrow> bool" where
  "readable l i \<longleftrightarrow> 1 \<le> max_readers l \<and> (\<forall>j x. entries l j = Some x \<longrightarrow> x < next_lock l)
     \<and> (\<forall>x. entries l i = Some x \<longrightarrow> 1 \<le> sem l x)"

lemma release_read_fields [simp]:
  "max_readers (release_read g l) = max_readers l" "entries (release_read g l) = entries l"
  "sem (release_read g l) = sem l" "next_lock (release_read g l) = next_lock l"
  "guards (release_read g l) = guards l"
  by (simp_all add: release_read_def)

lemma readable_try_read:
  assumes "readable l i"
  obtains k where "try_read i g l = (Ok g, k)"
    and "\<And>j. readable l j \<Longrightarrow> readable (drop_guard (Some g) k) j"
proof (cases "entries l i")
  case None
  with assms show ?thesis
    by (intro that)
      (auto simp: readable_def try_read_def try_lock_def file_lock_new_def guard_new_def drop_guard_def
        start_drop_def finish_drop_def Let_def less_Suc_eq split: if_splits)
next
  case (Some x)
  with assms show ?thesis
    by (intro that)
      (auto simp: readable_def try_read_def try_lock_def guard_new_def drop_guard_def
        start_drop_def finish_drop_def Let_def split: if_splits)
qed

definition range_bytes :: "ChunkRange option \<Rightarrow> u8 list \<Rightarrow> u8 list" where
  "range_bytes rng bytes =
     (case rng of None \<Rightarrow> bytes
      | Some r \<Rightarrow> take (unat (rng_end r) - unat (rng_start r)) (drop (unat (rng_start r)) bytes))"

definition range_within :: "ChunkRange option \<Rightarrow> u8 list \<Rightarrow> bool" where
  "range_within rng bytes =
     (case rng of None \<Rightarrow> True
      | Some r \<Rightarrow> rng_start r < rng_end r \<and> unat (rng_end r) \<le> length bytes)"

text \<open>A node holds a chunk with its bytes, in a file it can read, listed with their length.\<close>

definition holds_chunk :: "'st ledger_env \<Rightarrow> 'st InternalLedger \<Rightarrow> uuid \<Rightarrow> u8 list \<Rightarrow> bool" where
  "holds_chunk le l i bytes \<longleftrightarrow>
     fragment_read_stream le i l = Ok bytes \<and> length bytes < 2 ^ 63
     \<and> map_option content_size (existing_fragment_meta i l) = Some (of_nat (length bytes))"

lemma range_size:
  assumes "range_within rng bytes" "length bytes < 2 ^ 63"
    and "p = \<lparr>sp_size = of_nat (length bytes), sp_range = rng\<rparr>"
  shows "take (unat (size_params_size p)) (drop (unat (size_params_offset p)) bytes) = range_bytes rng bytes"
    and "unat (size_params_offset p) + unat (size_params_size p) \<le> length bytes"
    and "unat (size_params_size p) = length (range_bytes rng bytes)"
proof -
  have "unat (of_nat (length bytes) :: u64) = length bytes"
    using assms(2) by (intro unat_of_nat_small) simp
  then have "take (unat (size_params_size p)) (drop (unat (size_params_offset p)) bytes) = range_bytes rng bytes
    \<and> unat (size_params_offset p) + unat (size_params_size p) \<le> length bytes"
    using assms(1)
    by (auto simp: assms(3) range_within_def range_bytes_def size_params_size_def size_params_offset_def
        chunk_range_size_def unat_sub word_less_nat_alt word_le_nat_alt split: option.splits)
  then show "take (unat (size_params_size p)) (drop (unat (size_params_offset p)) bytes) = range_bytes rng bytes"
    and "unat (size_params_offset p) + unat (size_params_size p) \<le> length bytes" by auto
  then show "unat (size_params_size p) = length (range_bytes rng bytes)"
    by (metis add_le_imp_le_diff add.commute length_drop length_take min.absorb2)
qed

lemma range_bytes_nonempty:
  "range_within rng bytes \<Longrightarrow> bytes \<noteq> [] \<Longrightarrow> range_bytes rng bytes \<noteq> []"
  by (auto simp: range_within_def range_bytes_def word_less_nat_alt split: option.splits)

lemma wire_range_within:
  assumes "range_within rng bytes" "length bytes < 2 ^ 63"
  shows "wire_range rng = Ok rng"
proof (cases rng)
  case (Some r)
  with assms have lt: "rng_start r < rng_end r" and small: "unat (rng_end r) < 2 ^ 63"
    by (auto simp: range_within_def)
  then have "unat (rng_start r) + unat (rng_end r) < 2 ^ 64" by (simp add: word_less_nat_alt)
  then have "unat (rng_start r + rng_end r) = unat (rng_start r) + unat (rng_end r)"
    by (subst unat_word_ariths) simp
  with lt have "rng_start r + rng_end r \<noteq> 0" by (auto simp: word_less_nat_alt unat_eq_zero)
  with lt Some show ?thesis by (simp add: wire_range_def decode_range_proper)
qed (simp add: wire_range_def)

lemma mdsftp_upload_range:
  assumes "range_within rng bytes" "bytes \<noteq> []" "length bytes < 2 ^ 63" "fs \<noteq> 0"
    and "length bytes div unat fs \<le> 2 ^ 32 - 2"
  obtains cs where "mdsftp_upload True bytes \<lparr>sp_size = of_nat (length bytes), sp_range = rng\<rparr> fs = Some (cs, Ok ())"
    and "contents cs = range_bytes rng bytes" "list_all (\<lambda>(_, _, c). c \<noteq> []) cs"
    and "map (\<lambda>(l, _, _). l) cs = replicate (length cs - 1) False @ [True]"
proof -
  define p :: SizeParams where "p = \<lparr>sp_size = of_nat (length bytes), sp_range = rng\<rparr>"
  note size = range_size [OF assms(1,3) p_def]
  have "unat (size_params_size p) \<le> length bytes" using size(2) by simp
  then have small: "unat (size_params_size p) div unat fs \<le> 2 ^ 32 - 2"
    using assms(5) div_le_mono le_trans by blast
  have pos: "size_params_size p \<noteq> 0"
    using size(3) range_bytes_nonempty [OF assms(1,2)] by auto
  obtain cs r where up: "mdsftp_upload True bytes p fs = Some (cs, r)"
    using assms(4) by (cases "mdsftp_upload True bytes p fs")
      (auto simp: mdsftp_upload_def Let_def unat_eq_zero split: if_splits)
  show ?thesis
    using that upload_fragments [OF up small] upload_fragments_nonempty [OF up small _ pos] size(1,2) up
    by (simp add: p_def)
qed

lemma remote_outbound_Ok:
  assumes "ae_channel env n = Ok ()" "ae_link env (ae_self env)" "ae_output_ok env"
    and "ae_finish_ok env (ae_self env) False"
    and "holds_chunk (ae_ledger env n) (as_ledger st n) i bytes" "bytes \<noteq> []" "range_within rng bytes"
    and "readable (as_locks st n) i"
    and "ae_fragment_size env n \<noteq> 0" "length bytes div unat (ae_fragment_size env n) \<le> 2 ^ 32 - 2"
  shows "\<exists>st'. remote_outbound env n i rng st = Some (Ok (range_bytes rng bytes), st')
    \<and> as_ledger st' = as_ledger st \<and> as_db st' = as_db st
    \<and> (\<forall>m j. readable (as_locks st m) j \<longrightarrow> readable (as_locks st' m) j)"
proof -
  have len: "length bytes < 2 ^ 63" and stream: "fragment_read_stream (ae_ledger env n) i (as_ledger st n) = Ok bytes"
    using assms(5) by (auto simp: holds_chunk_def)
  obtain meta where meta: "existing_fragment_meta i (as_ledger st n) = Some meta"
    and sz: "content_size meta = of_nat (length bytes)"
    using assms(5) by (auto simp: holds_chunk_def)
  obtain k where k: "try_read i (as_drawn st) (as_locks st n) = (Ok (as_drawn st), k)"
    and read: "\<And>j. readable (as_locks st n) j \<Longrightarrow> readable (drop_guard (Some (as_drawn st)) k) j"
    using readable_try_read [OF assms(8), where g = "as_drawn st"] by blast
  obtain cs where up: "mdsftp_upload True bytes \<lparr>sp_size = of_nat (length bytes), sp_range = rng\<rparr>
        (ae_fragment_size env n) = Some (cs, Ok ())"
    and content: "contents cs = range_bytes rng bytes" and ne: "list_all (\<lambda>(_, _, c). c \<noteq> []) cs"
    and flagged: "map (\<lambda>(l, _, _). l) cs = replicate (length cs - 1) False @ [True]"
    using mdsftp_upload_range [OF assms(7,6) len assms(9,10)] .
  define st' where "st' = st\<lparr>as_locks := (as_locks st)(n := k), as_drawn := Suc (as_drawn st)\<rparr>"
  define own where "own = snd (delegate_download False
    (node_at (ae_self env) (packet_handler_new (ae_buffer_size env) (ae_fragment_size env (ae_self env))) st'))"
  obtain o' where arrived: "receive_fragments (node_env_at env (ae_self env) st') cs own = (Ok (), o')"
    and "ns_output o' = contents cs" "ns_closed o' = Some (Ok ())"
    using receive_download [of own "node_env_at env (ae_self env) st'" cs] flagged assms(2-4) ne
    by (auto simp: own_def delegate_download_def node_at_def node_env_at_def packet_handler_new_def)
  moreover obtain s ch' where run: "remote_run env (\<lambda>e. handle_call e (HRetrieve i 16 rng)) (channel_to env n) st
        = (Ok (), s, ch', st')"
    and "ns_upload s = Some \<lparr>ut_source = bytes, ut_seekable = True,
        ut_params = \<lparr>sp_size = of_nat (length bytes), sp_range = rng\<rparr>, ut_chunk_buffer = 16\<rparr>"
    and "h_read_guard (rc_handler ch') = Some (as_drawn st)" "h_write_guard (rc_handler ch') = None"
    using meta k sz stream
    by (simp add: remote_run_def node_at_def node_env_at_def handle_retrieve_def store_read_guard_def
        drop_guard_def start_uploading_def channel_to_def packet_handler_new_def st'_def Let_def)
  ultimately show ?thesis
    using assms(1) read content
    by (simp add: remote_outbound_def open_channel_def wire_range_within [OF assms(7) len] up
        drop_handler_def Let_def own_def [symmetric]) (simp add: st'_def drop_guard_def)
qed

subsection \<open>Two plain nodes\<close>

text \<open>Node 1 serves, node 2 is its peer, and everything outside works; node \<open>n\<close> has room for
  \<open>room n\<close> bytes.\<close>

definition two_nodes_env :: "((u8 list \<rightharpoonup> u8 list), mem_db) app_env" where
  "two_nodes_env = \<lparr>ae_self = 1, ae_cql = mem_cql, ae_others = (\<lambda>_ db. db), ae_ledger = (\<lambda>_. plain_env 5),
     ae_uuid = (\<lambda>k. of_nat (100 + k)), ae_channel = (\<lambda>_. Ok ()), ae_link = (\<lambda>_. True),
     ae_finish_ok = (\<lambda>_ _. True), ae_output_ok = True, ae_copy_fails = (\<lambda>_. None), ae_fragment_size = (\<lambda>_. 2), ae_buffer_size = 16,
     ae_utc_now = 1000, ae_map_order = (\<lambda>m. sorted_list_of_set (dom m)), ae_peers = None,
     ae_heart_beat = 60\<rparr>"

definition two_nodes :: "(uuid \<Rightarrow> u64) \<Rightarrow> mem_db \<Rightarrow> ((u8 list \<rightharpoonup> u8 list), mem_db) app_state" where
  "two_nodes room db = \<lparr>as_ledger = (\<lambda>n. plain_ledger (room n)), as_locks = (\<lambda>_. lock_table_new 256),
     as_storage_map = [2 \<mapsto> 1000], as_last_refresh = 0, as_db = db, as_drawn = 0\<rparr>"

definition no_rows :: mem_db where
  "no_rows = \<lparr>m_files = [], m_dirs = [], m_buckets = [], m_sessions = []\<rparr>"

end
