(* ===== verification/Directory_Services.thy ===== *)
theory Directory_Services
  imports Cluster Permissions "HOL-Library.Multiset"
begin

section \<open>Directories\<close>

text \<open>
  \<^verbatim>\<open>node/src/public/service/directory_action_service.rs\<close>, \<open>try_mkdir\<close> of
  \<^verbatim>\<open>file_access_service.rs\<close>, the request extractors of \<^verbatim>\<open>node/src/public/extractors\<close> and the
  \<open>DirectoryIterator\<close> of \<^verbatim>\<open>data/src/access/file_access.rs\<close>.

  A directory is a row under its bucket, the path of its parent and its name. The iterator walks
  the tree below a directory breadth first; it may run for ever, so it is a partial function, and a
  request that uses it and does not return is \<open>None\<close>.
\<close>

subsection \<open>Request paths\<close>

record EntryPath =
  e_app_id :: uuid
  e_bucket_id :: uuid
  e_path :: string \<comment> \<open>\<open>cached_path\<close>, set by \<open>check_valid\<close>\<close>

definition check_valid :: "uuid \<Rightarrow> uuid \<Rightarrow> string option \<Rightarrow> FsLimitConfiguration \<Rightarrow> EntryPath node_result" where
  "check_valid app_id bucket_id path limits =
     (case prepare_path (case path of None \<Rightarrow> [] | Some p \<Rightarrow> p) limits of
        Some prepared_path \<Rightarrow> Ok \<lparr>e_app_id = app_id, e_bucket_id = bucket_id, e_path = prepared_path\<rparr>
      | None \<Rightarrow> Err BadRequest)"

text \<open>\<open>from_request\<close>: whatever \<open>check_valid\<close> says, the client sees a bad resource path.\<close>

definition entry_path_from_request ::
    "uuid \<Rightarrow> uuid \<Rightarrow> string option \<Rightarrow> FsLimitConfiguration \<Rightarrow> EntryPath node_result" where
  "entry_path_from_request app_id bucket_id path limits =
     map_err (\<lambda>_. BadResourcePath) (check_valid app_id bucket_id path limits)"

definition rename_from_request :: "string \<Rightarrow> FsLimitConfiguration \<Rightarrow> string node_result" where
  "rename_from_request to_path limits =
     (case prepare_path to_path limits of Some p \<Rightarrow> Ok p | None \<Rightarrow> Err BadResourcePath)"

subsection \<open>Creating directories\<close>

lemma length_join_segs: "ws \<noteq> [] \<Longrightarrow> Suc (length (join_segs ws)) = sum_list (map (Suc \<circ> length) ws)"
  by (induction ws rule: join_segs.induct) auto

lemma split_slash_nonempty [simp]: "split_slash p \<noteq> []"
  by (induction p) (auto split: list.splits)

lemma join_split_slash: "join_segs (split_slash p) = p"
proof (induction p)
  case (Cons x p)
  obtain w ws where "split_slash p = w # ws" by (cases "split_slash p") auto
  with Cons show ?case by (cases ws) auto
qed simp

lemma path_parent_shorter:
  assumes "path_parent p = Some r"
  shows "length r < length p"
proof -
  let ?segs = "split_slash p"
  let ?idx = "component_idx ?segs"
  have len: "Suc (length p) = sum_list (map (Suc \<circ> length) ?segs)"
    using length_join_segs [of ?segs] by (simp add: join_split_slash)
  have idx: "k < length ?segs \<and> ?segs ! k \<noteq> []" if "k \<in> set ?idx" for k
    using that by (auto simp: component_idx_def)
  have split: "Suc (length p) = sum_list (map (Suc \<circ> length) (take k ?segs)) + (Suc (length (?segs ! k))
      + sum_list (map (Suc \<circ> length) (drop (Suc k) ?segs)))" if "k < length ?segs" for k
    using len id_take_nth_drop [OF that] by (metis (no_types) list.simps(9) map_append o_apply sum_list.Cons sum_list.append)
  show ?thesis
  proof (cases "rev ?idx")
    case Nil
    with assms show ?thesis by (simp add: path_parent_def)
  next
    case (Cons k ks)
    then have k: "k < length ?segs" "?segs ! k \<noteq> []" using idx [of k] by (metis list.set_intros(1) set_rev)+
    then have pos: "0 < length (?segs ! k)" by simp
    show ?thesis
    proof (cases ks)
      case Nil
      with Cons assms have r: "r = (if ?segs ! 0 = [] then [slash] else [])" by (simp add: path_parent_def)
      show ?thesis
      proof (cases "?segs ! 0 = []")
        case True
        with k have "0 < k" by (cases k) auto
        with k(1) have "Suc 0 \<le> sum_list (map (Suc \<circ> length) (take k ?segs))" by (cases ?segs; cases k) auto
        then have "Suc 0 < length p" using split [OF k(1)] pos by linarith
        with r True show ?thesis by simp
      next
        case False
        with split [OF k(1)] pos r show ?thesis by simp
      qed
    next
      case (Cons j js)
      with \<open>rev ?idx = k # ks\<close> have rev: "?idx = rev js @ [j, k]" by (simp add: rev_eq_Cons_iff)
      have "sorted_wrt (<) ?idx" by (simp add: component_idx_def sorted_wrt_filter)
      with rev have jk: "j < k" by (simp add: sorted_wrt_append)
      from \<open>rev ?idx = k # ks\<close> Cons assms have r: "r = join_segs (take (Suc j) ?segs)"
        by (simp add: path_parent_def)
      have "Suc (length r) = sum_list (map (Suc \<circ> length) (take (Suc j) ?segs))"
        unfolding r by (rule length_join_segs) (use k(1) in auto)
      also have "\<dots> \<le> sum_list (map (Suc \<circ> length) (take k ?segs))"
      proof -
        have "take (Suc j) ?segs = take (Suc j) (take k ?segs)" using jk by (simp add: min_def)
        then have "sum_list (map (Suc \<circ> length) (take k ?segs)) = sum_list (map (Suc \<circ> length) (take (Suc j) ?segs))
            + sum_list (map (Suc \<circ> length) (drop (Suc j) (take k ?segs)))"
          by (metis append_take_drop_id map_append sum_list.append)
        then show ?thesis by simp
      qed
      finally show ?thesis using split [OF k(1)] by simp
    qed
  qed
qed

lemma split_path_shorter: "fst (split_path p) = Some q \<Longrightarrow> length q < length p"
  using path_parent_shorter [of p] length_normalize
  by (auto simp: split_path_def Let_def split: if_splits) (metis le_less_trans)

text \<open>The ancestors of a path that are not there, nearest first: the \<open>while\<close> loop.\<close>

function missing_dirs :: "'db cql \<Rightarrow> 'db \<Rightarrow> uuid \<Rightarrow> string option \<Rightarrow> (string option \<times> string) list" where
  "missing_dirs c db bucket_id None = []"
| "missing_dirs c db bucket_id (Some p) =
     (if is_ok (get_directory c db bucket_id (Some p)) then []
      else split_path p # missing_dirs c db bucket_id (fst (split_path p)))"
  by pat_completeness auto
termination
  by (relation "measure (\<lambda>(_, _, _, p). case p of None \<Rightarrow> 0 | Some q \<Rightarrow> Suc (length q))")
    (auto split: option.splits dest: split_path_shorter)

definition new_directory ::
    "('st, 'db) app_env \<Rightarrow> uuid \<Rightarrow> string option \<times> string \<Rightarrow> ('st, 'db) app_state \<Rightarrow> Directory" where
  "new_directory env bucket_id d st =
     \<lparr>d_bucket_id = bucket_id, d_parent = (case fst d of None \<Rightarrow> [] | Some p \<Rightarrow> p), d_name = snd d,
      d_id = ae_uuid env (as_drawn st), d_created = ae_utc_now env, d_last_modified = ae_utc_now env\<rparr>"

fun create_directories ::
    "('st, 'db) app_env \<Rightarrow> uuid \<Rightarrow> (string option \<times> string) list \<Rightarrow> (Directory option, 'st, 'db) service" where
  "create_directories env bucket_id [] st = Some (Ok None, st)"
| "create_directories env bucket_id (d # ds) st =
     (let new_dir = new_directory env bucket_id d st;
          (r, db) = insert_directory (ae_cql env) new_dir (as_db st);
          st' = st\<lparr>as_db := db, as_drawn := Suc (as_drawn st)\<rparr>
      in case r of
           Err e \<Rightarrow> Some (Err (node_from_data e), st')
         | Ok _ \<Rightarrow> if ds = [] then Some (Ok (Some new_dir), st') else create_directories env bucket_id ds st')"

definition try_mkdir :: "('st, 'db) app_env \<Rightarrow> uuid \<Rightarrow> string \<Rightarrow> (Directory option, 'st, 'db) service" where
  "try_mkdir env bucket_id path st =
     (if path = [] then Some (Ok None, st)
      else case get_directory (ae_cql env) (as_db st) bucket_id (Some path) of
             Ok existing_dir \<Rightarrow> Some (Ok existing_dir, st)
           | Err _ \<Rightarrow>
               create_directories env bucket_id
                 (missing_dirs (ae_cql env) (as_db st) bucket_id (fst (split_path path)) @ [split_path path]) st)"

definition of_result :: "'a node_result \<Rightarrow> ('a, 'st, 'db) service" where
  "of_result r st = Some (r, st)"

definition db_query :: "('db \<Rightarrow> 'a data_result) \<Rightarrow> ('a, 'st, 'db) service" where
  "db_query q st = Some (map_err node_from_data (q (as_db st)), st)"

definition db_update :: "('db \<Rightarrow> 'a data_result \<times> 'db) \<Rightarrow> ('a, 'st, 'db) service" where
  "db_update u st = (case u (as_db st) of (r, db) \<Rightarrow> Some (map_err node_from_data r, st\<lparr>as_db := db\<rparr>))"

definition do_create_directory ::
    "('st, 'db) app_env \<Rightarrow> EntryPath \<Rightarrow> BucketAccessor \<Rightarrow> (unit, 'st, 'db) service" where
  "do_create_directory env path bucket_accessor =
     then_svc (of_result (has_permission bucket_accessor (e_app_id path) (e_bucket_id path)
                            CREATE_DIRECTORY_ALLOWANCE)) (\<lambda>_.
     then_svc (try_mkdir env (e_bucket_id path) (e_path path)) (\<lambda>_. of_result (Ok ())))"

subsection \<open>Walking a tree\<close>

record DirectoryIterator =
  visit_queue :: "Directory list"
  model_stream :: "Directory list option"

definition from_parent :: "Directory \<Rightarrow> DirectoryIterator" where
  "from_parent parent = \<lparr>visit_queue = [parent], model_stream = None\<rparr>"

function next_dir ::
    "'db cql \<Rightarrow> 'db \<Rightarrow> DirectoryIterator \<Rightarrow> Directory data_result option \<times> DirectoryIterator" where
  "next_dir c db it =
     (case model_stream it of
        Some [] \<Rightarrow> next_dir c db (it\<lparr>model_stream := None\<rparr>)
      | Some (dir # dirs) \<Rightarrow>
          (Some (Ok dir), it\<lparr>visit_queue := visit_queue it @ [dir], model_stream := Some dirs\<rparr>)
      | None \<Rightarrow>
          (case visit_queue it of
             [] \<Rightarrow> (None, it)
           | nxt # queue \<Rightarrow>
               (case get_sub_dirs c db (d_bucket_id nxt) (directory_full_path nxt) of
                  Ok stream \<Rightarrow> next_dir c db (it\<lparr>visit_queue := queue, model_stream := Some stream\<rparr>)
                | Err e \<Rightarrow> (Some (Err e), it\<lparr>visit_queue := queue\<rparr>))))"
  by pat_completeness auto
termination
  by (relation "measure (\<lambda>(_, _, it). 2 * length (visit_queue it) + (if model_stream it = None then 0 else 1))")
    auto

declare next_dir.simps [simp del]

text \<open>Both callers collect all directories before they change one, and stop at an error.\<close>

partial_function (option) collect_dirs ::
    "'db cql \<Rightarrow> 'db \<Rightarrow> DirectoryIterator \<Rightarrow> Directory list data_result option" where
  "collect_dirs c db it =
     (case next_dir c db it of
        (None, _) \<Rightarrow> Some (Ok [])
      | (Some (Err e), _) \<Rightarrow> Some (Err e)
      | (Some (Ok dir), it') \<Rightarrow>
          Option.bind (collect_dirs c db it') (\<lambda>r. Some (and_then r (\<lambda>dirs. Ok (dir # dirs)))))"

subsection \<open>Deleting and renaming directories\<close>

definition dir_empty :: "('st, 'db) app_env \<Rightarrow> Directory \<Rightarrow> bool \<Rightarrow> (unit, 'st, 'db) service" where
  "dir_empty env directory check_dir =
     then_svc (if check_dir
               then db_query (\<lambda>db. maybe_get_first_child_from_directory (ae_cql env) db (d_bucket_id directory)
                                (Some (directory_full_path directory)))
               else of_result (Ok None)) (\<lambda>child.
     if child \<noteq> None then of_result (Err NotEmpty)
     else then_svc (db_query (\<lambda>db. maybe_get_first_file_from_directory (ae_cql env) db (d_bucket_id directory)
                                (Some (d_id directory)))) (\<lambda>f.
       of_result (if f \<noteq> None then Err NotEmpty else Ok ())))"

fun delete_children ::
    "('st, 'db) app_env \<Rightarrow> Directory \<Rightarrow> Directory list \<Rightarrow> (unit, 'st, 'db) service" where
  "delete_children env directory [] = of_result (Ok ())"
| "delete_children env directory (dir # dirs) =
     then_svc (dir_empty env directory False) (\<lambda>_.
     then_svc (db_update (delete_directory (ae_cql env) dir)) (\<lambda>_.
     delete_children env directory dirs))"

definition collect_children :: "('st, 'db) app_env \<Rightarrow> Directory \<Rightarrow> (Directory list, 'st, 'db) service" where
  "collect_children env directory st =
     map_option (\<lambda>r. (map_err node_from_data r, st)) (collect_dirs (ae_cql env) (as_db st) (from_parent directory))"

definition do_delete_directory ::
    "('st, 'db) app_env \<Rightarrow> EntryPath \<Rightarrow> bool \<Rightarrow> BucketAccessor \<Rightarrow> (unit, 'st, 'db) service" where
  "do_delete_directory env path recursive bucket_accessor =
     then_svc (of_result (has_permission bucket_accessor (e_app_id path) (e_bucket_id path) DELETE_ALLOWANCE)) (\<lambda>_.
     if e_path path = [] then of_result (Err BadRequest)
     else then_svc (db_query (\<lambda>db. get_directory (ae_cql env) db (e_bucket_id path) (Some (e_path path)))) (\<lambda>found_dir.
       case found_dir of
         None \<Rightarrow> (\<lambda>_. None)
       | Some directory \<Rightarrow>
           then_svc (if recursive
                     then then_svc (collect_children env directory) (delete_children env directory)
                     else dir_empty env directory True) (\<lambda>_.
           db_update (delete_directory (ae_cql env) directory))))"

fun rename_children :: "('st, 'db) app_env \<Rightarrow> string \<Rightarrow> string \<Rightarrow> Directory list \<Rightarrow> (unit, 'st, 'db) service" where
  "rename_children env old_parent_path new_parent_path [] = of_result (Ok ())"
| "rename_children env old_parent_path new_parent_path (dir # dirs) =
     then_svc (db_update (update_directory_path (ae_cql env) dir
       (Some (normalize (new_parent_path @ slash # drop (length old_parent_path) old_parent_path)))
       (d_name dir))) (\<lambda>_.
     rename_children env old_parent_path new_parent_path dirs)"

definition do_rename_directory ::
    "('st, 'db) app_env \<Rightarrow> EntryPath \<Rightarrow> string \<Rightarrow> BucketAccessor \<Rightarrow> (unit, 'st, 'db) service" where
  "do_rename_directory env path to_path bucket_accessor =
     then_svc (of_result (has_permission bucket_accessor (e_app_id path) (e_bucket_id path)
                            RENAME_DIRECTORY_ALLOWANCE)) (\<lambda>_.
     if e_path path = to_path then of_result (Ok ())
     else if e_path path = [] \<or> to_path = [] then of_result (Err BadRequest)
     else then_svc (db_query (\<lambda>db. get_directory (ae_cql env) db (e_bucket_id path) (Some (e_path path)))) (\<lambda>found_dir.
       case found_dir of
         None \<Rightarrow> (\<lambda>_. None)
       | Some original_directory \<Rightarrow> (\<lambda>st.
           if is_ok (get_directory (ae_cql env) (as_db st) (e_bucket_id path) (Some to_path))
           then Some (Err EntityExists, st)
           else
             let (new_parent, new_name) = split_path to_path in
             then_svc (try_mkdir env (e_bucket_id path) (case new_parent of None \<Rightarrow> [] | Some p \<Rightarrow> p)) (\<lambda>parent_dir.
             then_svc (collect_children env original_directory) (\<lambda>to_rename.
             let new_parent_path = join_parent_name
                   (case parent_dir of None \<Rightarrow> [] | Some d \<Rightarrow> directory_full_path d) new_name in
             then_svc (rename_children env (directory_full_path original_directory) new_parent_path to_rename) (\<lambda>_.
             then_svc (db_update (update_directory_path (ae_cql env) original_directory
                         (map_option directory_full_path parent_dir) new_name)) (\<lambda>_. of_result (Ok ()))))) st)))"

subsection \<open>What the iterator yields\<close>

definition sub_dir :: "tables \<Rightarrow> Directory \<Rightarrow> Directory \<Rightarrow> bool" where
  "sub_dir t d e \<longleftrightarrow> t_dirs t (dir_key e) = Some e \<and> d_bucket_id e = d_bucket_id d
     \<and> d_parent e = directory_full_path d"

inductive below :: "tables \<Rightarrow> Directory \<Rightarrow> Directory \<Rightarrow> bool" for t where
  below_child: "sub_dir t d e \<Longrightarrow> below t d e"
| below_step: "sub_dir t d e \<Longrightarrow> below t e f \<Longrightarrow> below t d f"

definition row_of :: "tables \<Rightarrow> uuid \<Rightarrow> Directory \<Rightarrow> bool" where
  "row_of t b d \<longleftrightarrow> t_dirs t (dir_key d) = Some d \<and> d_bucket_id d = b"

text \<open>The names of the directories of a bucket are names: not empty, without a separator.\<close>

definition plain_dirs :: "tables \<Rightarrow> uuid \<Rightarrow> bool" where
  "plain_dirs t b \<longleftrightarrow> (\<forall>d. row_of t b d \<longrightarrow> d_name d \<noteq> [] \<and> slash \<notin> set (d_name d))"

lemma below_row: "below t d e \<Longrightarrow> row_of t (d_bucket_id d) e"
  by (induction rule: below.induct) (auto simp: sub_dir_def row_of_def)

lemma sub_dir_longer:
  "plain_dirs t b \<Longrightarrow> d_bucket_id d = b \<Longrightarrow> sub_dir t d e
    \<Longrightarrow> length (directory_full_path d) < length (directory_full_path e)"
  by (auto simp: plain_dirs_def row_of_def sub_dir_def directory_full_path_def [of e] join_parent_name_def)

lemma below_longer:
  "below t d e \<Longrightarrow> plain_dirs t b \<Longrightarrow> d_bucket_id d = b
    \<Longrightarrow> length (directory_full_path d) < length (directory_full_path e)"
  by (induction rule: below.induct) (auto dest: sub_dir_longer simp: sub_dir_def intro: less_trans)

lemma below_last:
  "below t d f \<Longrightarrow> sub_dir t d f \<or> (\<exists>e. below t d e \<and> sub_dir t e f)"
  by (induction rule: below.induct) (blast intro: below.intros)+

lemma below_trans: "below t d e \<Longrightarrow> below t e f \<Longrightarrow> below t d f"
  by (induction rule: below.induct) (blast intro: below.intros)+

lemma append_slash_cancel:
  assumes "slash \<notin> set xs" "slash \<notin> set ys" "as @ slash # xs = bs @ slash # ys"
  shows "as = bs \<and> xs = ys"
proof -
  have "takeWhile (\<lambda>c. c \<noteq> slash) (rev (as @ slash # xs)) = rev xs" if "slash \<notin> set xs" for as xs :: string
    using that by (subst rev_append, simp, subst takeWhile_append2) auto
  then have "rev xs = rev ys" using assms by metis
  with assms(3) show ?thesis by simp
qed

text \<open>A path belongs to one row.\<close>

lemma full_path_unique:
  assumes "plain_dirs t b" "row_of t b d" "row_of t b e" "directory_full_path d = directory_full_path e"
  shows "d = e"
proof -
  have plain: "slash \<notin> set (d_name d)" "slash \<notin> set (d_name e)" using assms(1-3) by (auto simp: plain_dirs_def)
  have "d_parent d = d_parent e \<and> d_name d = d_name e"
  proof (cases "d_parent d = [] \<or> d_parent e = []")
    case True
    have no: "d_name x \<noteq> p @ slash # n" if "slash \<notin> set (d_name x)" for x p n
      using that by (metis UnI2 list.set_intros(1) set_append)
    then have "d_parent d = [] \<and> d_parent e = []"
      using True assms(4) plain by (metis directory_full_path_def join_parent_name_def)
    with assms(4) show ?thesis by (simp add: directory_full_path_def join_parent_name_def)
  next
    case False
    with assms(4) have "d_parent d @ slash # d_name d = d_parent e @ slash # d_name e"
      by (simp add: directory_full_path_def join_parent_name_def)
    then show ?thesis by (rule append_slash_cancel [OF plain])
  qed
  then have "dir_key d = dir_key e" using assms(2,3) by (simp add: dir_key_def row_of_def)
  with assms(2,3) show ?thesis by (simp add: row_of_def)
qed

definition collect_from :: "'db cql \<Rightarrow> 'db \<Rightarrow> Directory list \<Rightarrow> Directory list data_result option" where
  "collect_from c db q = collect_dirs c db \<lparr>visit_queue = q, model_stream = None\<rparr>"

lemma collect_next_cong:
  assumes "next_dir c db it = next_dir c db it'"
  shows "collect_dirs c db it = collect_dirs c db it'"
  by (subst (1 2) collect_dirs.simps) (simp add: assms)

definition yield :: "Directory list \<Rightarrow> Directory list data_result option \<Rightarrow> Directory list data_result option" where
  "yield ds r = map_option (\<lambda>x. and_then x (\<lambda>rest. Ok (ds @ rest))) r"

lemma collect_stream:
  "collect_dirs c db \<lparr>visit_queue = q, model_stream = Some ds\<rparr> = yield ds (collect_from c db (q @ ds))"
proof (induction ds arbitrary: q)
  case Nil
  have "collect_dirs c db \<lparr>visit_queue = q, model_stream = Some []\<rparr> = collect_from c db q"
    unfolding collect_from_def by (rule collect_next_cong) (subst next_dir.simps, simp)
  moreover have "yield [] r = r" for r
    by (cases r; cases "the r") (auto simp: yield_def)
  ultimately show ?case by simp
next
  case (Cons d ds)
  have "next_dir c db \<lparr>visit_queue = q, model_stream = Some (d # ds)\<rparr>
      = (Some (Ok d), \<lparr>visit_queue = q @ [d], model_stream = Some ds\<rparr>)"
    by (subst next_dir.simps) simp
  then have "collect_dirs c db \<lparr>visit_queue = q, model_stream = Some (d # ds)\<rparr>
      = Option.bind (yield ds (collect_from c db ((q @ [d]) @ ds))) (\<lambda>r. Some (and_then r (\<lambda>dirs. Ok (d # dirs))))"
    by (subst collect_dirs.simps) (simp add: Cons.IH)
  then show ?case
    by (cases "collect_from c db (q @ d # ds)"; cases "the (collect_from c db (q @ d # ds))") (auto simp: yield_def)
qed

lemma collect_from_Nil [simp]: "collect_from c db [] = Some (Ok [])"
  unfolding collect_from_def by (subst collect_dirs.simps, subst next_dir.simps) simp

lemma collect_from_Cons:
  "collect_from c db (d # q) =
     (case get_sub_dirs c db (d_bucket_id d) (directory_full_path d) of
        Err e \<Rightarrow> Some (Err e) | Ok ds \<Rightarrow> yield ds (collect_from c db (q @ ds)))"
proof (cases "get_sub_dirs c db (d_bucket_id d) (directory_full_path d)")
  case (Ok ds)
  have "collect_from c db (d # q) = collect_dirs c db \<lparr>visit_queue = q, model_stream = Some ds\<rparr>"
    unfolding collect_from_def by (rule collect_next_cong) (subst next_dir.simps, simp add: Ok)
  then show ?thesis by (simp add: collect_stream Ok)
next
  case (Err e)
  then show ?thesis unfolding collect_from_def by (subst collect_dirs.simps, subst next_dir.simps) simp
qed

text \<open>No directory of the queue lies below another.\<close>

definition antichain :: "tables \<Rightarrow> Directory list \<Rightarrow> bool" where
  "antichain t q \<longleftrightarrow> distinct q \<and> (\<forall>x\<in>set q. \<forall>y\<in>set q. \<not> below t x y)"

lemma antichain_step:
  assumes plain: "plain_dirs t b" and rows: "\<forall>x\<in>set (d # q). row_of t b x" and anti: "antichain t (d # q)"
    and ds: "distinct ds" "set ds = {e. sub_dir t d e}"
  shows "antichain t (q @ ds)"
proof -
  have bd: "d_bucket_id d = b" and rd: "row_of t b d" using rows by (auto simp: row_of_def)
  have child: "\<not> below t x e" if "x \<in> set q \<or> sub_dir t d x" "sub_dir t d e" for x e
  proof
    assume bel: "below t x e"
    have bx: "d_bucket_id x = b" using that(1) rows bd by (auto simp: row_of_def sub_dir_def)
    from below_last [OF bel] obtain y where y: "y = x \<or> below t x y" "sub_dir t y e" by blast
    then have ry: "row_of t b y"
      using that(1) rows bd below_row [of t x y] bx by (auto simp: sub_dir_def row_of_def)
    have "y = d" by (rule full_path_unique [OF plain ry rd]) (use y(2) that(2) in \<open>simp add: sub_dir_def\<close>)
    with y(1) have "x = d \<or> below t x d" by blast
    then show False
      using that(1) anti sub_dir_longer [OF plain bd, of x] below_longer [of t x d b] plain bx
      by (auto simp: antichain_def)
  qed
  have up: "\<not> below t e x" if "sub_dir t d e" "x \<in> set q" for e x
    using anti that below_step [of t d e x] by (auto simp: antichain_def)
  have "x \<notin> set ds" if "x \<in> set q" for x using anti that ds(2) below_child [of t d x] by (auto simp: antichain_def)
  then show ?thesis using anti ds child up by (auto simp: antichain_def)
qed

context reliable_cql
begin

lemma get_sub_dirs_up: "\<exists>ds. get_sub_dirs c db (d_bucket_id d) (directory_full_path d) = Ok ds
    \<and> distinct ds \<and> set ds = {e. sub_dir (view db) d e}"
  using sel_dirs_parent_up [of db "d_bucket_id d" "directory_full_path d"] sel_dirs_parent_ok
  by (auto simp: get_sub_dirs_def sub_dir_def distinct_map)

lemma dirs_bounded: "\<exists>n. \<forall>e. row_of (view db) b e \<longrightarrow> length (directory_full_path e) < n"
proof -
  obtain ds where "set ds = {e. row_of (view db) b e}"
    using sel_dirs_bucket_up [of db b] sel_dirs_bucket_ok by (fastforce simp: row_of_def)
  then have "finite ((\<lambda>e. length (directory_full_path e)) ` {e. row_of (view db) b e})"
    by (metis finite_imageI finite_set)
  then show ?thesis unfolding finite_nat_set_iff_bounded by auto
qed

lemma collect_exact:
  assumes plain: "plain_dirs (view db) b" and bound: "\<And>e. row_of (view db) b e \<Longrightarrow> length (directory_full_path e) < n"
    and "\<forall>d\<in>set q. row_of (view db) b d" "antichain (view db) q"
  shows "\<exists>ds. collect_from c db q = Some (Ok ds) \<and> distinct ds \<and> set ds = {e. \<exists>d\<in>set q. below (view db) d e}"
  using assms(3-)
proof (induction q rule: wf_induct [OF wf_inv_image [OF wf_mult [OF wf_less_than],
        where f = "\<lambda>q. image_mset (\<lambda>d. n - length (directory_full_path d)) (mset q)"]])
  case (1 q)
  show ?case
  proof (cases q)
    case (Cons d r)
    have rd: "row_of (view db) b d" "d_bucket_id d = b" using 1(2) Cons by (auto simp: row_of_def)
    obtain ds where ds: "get_sub_dirs c db (d_bucket_id d) (directory_full_path d) = Ok ds" "distinct ds"
        "set ds = {e. sub_dir (view db) d e}" using get_sub_dirs_up by blast
    have rds: "row_of (view db) b e" if "e \<in> set ds" for e using that ds(3) rd by (auto simp: sub_dir_def row_of_def)
    have anti: "antichain (view db) (r @ ds)"
      by (rule antichain_step [OF plain _ _ ds(2,3), of r]) (use 1(2,3) Cons in simp_all)
    have "n - length (directory_full_path e) < n - length (directory_full_path d)" if "e \<in> set ds" for e
      using sub_dir_longer [OF plain rd(2), of e] bound [OF rds [OF that]] that ds(3) by auto
    then have "(image_mset (\<lambda>d. n - length (directory_full_path d)) (mset (r @ ds)),
        image_mset (\<lambda>d. n - length (directory_full_path d)) (mset q)) \<in> mult less_than"
      unfolding Cons by (simp, subst add_mset_add_single, intro one_step_implies_mult) (auto simp: trans_def)
    then have smaller: "(r @ ds, q) \<in> inv_image (mult less_than)
        (\<lambda>q. image_mset (\<lambda>d. n - length (directory_full_path d)) (mset q))"
      by (simp only: in_inv_image)
    have "\<forall>d\<in>set (r @ ds). row_of (view db) b d" using 1(2) rds Cons by auto
    with 1(1) smaller anti obtain rest where rest: "collect_from c db (r @ ds) = Some (Ok rest)" "distinct rest"
        "set rest = {e. \<exists>d\<in>set (r @ ds). below (view db) d e}" by blast
    have new: "set ds \<inter> set rest = {}" using anti rest(3) by (auto simp: antichain_def)
    have "set (ds @ rest) = {e. \<exists>d\<in>set q. below (view db) d e}"
      using ds(3) rest(3) Cons by (auto intro: below.intros elim: below.cases)
    with rest ds new show ?thesis by (simp add: Cons collect_from_Cons yield_def)
  qed simp
qed

lemma collect_below:
  assumes "plain_dirs (view db) b" "row_of (view db) b d"
  shows "\<exists>ds. collect_dirs c db (from_parent d) = Some (Ok ds) \<and> distinct ds \<and> set ds = {e. below (view db) d e}"
proof -
  obtain n where n: "\<And>e. row_of (view db) b e \<Longrightarrow> length (directory_full_path e) < n" using dirs_bounded by blast
  have "\<not> below (view db) d d" using below_longer [of "view db" d d b] assms by (auto simp: row_of_def)
  then have "antichain (view db) [d]" by (simp add: antichain_def)
  with collect_exact [OF assms(1) n, of "[d]"] assms(2) show ?thesis
    by (simp add: collect_from_def from_parent_def)
qed

end

definition sample_dir :: "string \<Rightarrow> string \<Rightarrow> uuid \<Rightarrow> Directory" where
  "sample_dir parent name i = \<lparr>d_bucket_id = 7, d_parent = parent, d_name = name, d_id = i,
     d_created = 0, d_last_modified = 0\<rparr>"

definition sample_tree :: mem_db where
  "sample_tree = no_rows\<lparr>m_dirs := [sample_dir '''' ''a'' 1, sample_dir ''a'' ''b'' 2,
     sample_dir ''a/b'' ''c'' 3, sample_dir ''a'' ''c'' 4]\<rparr>"

lemma sample_rows:
  "row_of (mem_view sample_tree) 7 d \<longleftrightarrow> d \<in> set (m_dirs sample_tree)"
proof -
  have "unique_rows dir_key (m_dirs sample_tree) = m_dirs sample_tree"
    by (simp add: sample_tree_def no_rows_def unique_rows_def put_row_def sample_dir_def dir_key_def)
  moreover have "\<forall>d\<in>set (m_dirs sample_tree). d_bucket_id d = 7"
    by (simp add: sample_tree_def no_rows_def sample_dir_def)
  ultimately show ?thesis
    using set_unique_rows [of dir_key "m_dirs sample_tree"] by (auto simp: row_of_def mem_view_def)
qed

lemma sample_plain: "plain_dirs (mem_view sample_tree) 7"
  by (auto simp: plain_dirs_def sample_rows) (auto simp: sample_tree_def no_rows_def sample_dir_def)

lemma sample_below: "below (mem_view sample_tree) (sample_dir '''' ''a'' 1) (sample_dir ''a/b'' ''c'' 3)"
  by (rule below_step [OF _ below_child, of _ _ "sample_dir ''a'' ''b'' 2"])
    (simp_all add: sub_dir_def sample_tree_def no_rows_def mem_view_def rows_map_def sample_dir_def dir_key_def
      directory_full_path_def join_parent_name_def)

subsection \<open>Making directories\<close>

abbreviation names :: "string list \<Rightarrow> bool" where
  "names ws \<equiv> \<forall>w\<in>set ws. name_seg w"

definition path_key :: "uuid \<Rightarrow> string list \<Rightarrow> dir_key" where
  "path_key b ws = (b, join_segs (butlast ws), last ws)"

definition dir_at :: "tables \<Rightarrow> uuid \<Rightarrow> string list \<Rightarrow> Directory option" where
  "dir_at t b ws = t_dirs t (path_key b ws)"

text \<open>With a directory its ancestors are there.\<close>

definition tree_closed :: "tables \<Rightarrow> uuid \<Rightarrow> bool" where
  "tree_closed t b \<longleftrightarrow> (\<forall>us u. names (us @ [u]) \<and> us \<noteq> [] \<and> dir_at t b (us @ [u]) \<noteq> None
     \<longrightarrow> dir_at t b us \<noteq> None)"

definition parent_key :: "uuid \<Rightarrow> string option \<times> string \<Rightarrow> dir_key" where
  "parent_key b d = (b, (case fst d of None \<Rightarrow> [] | Some p \<Rightarrow> p), snd d)"

lemma parent_key_split:
  "names ws \<Longrightarrow> ws \<noteq> [] \<Longrightarrow> parent_key b (split_path (join_segs ws)) = path_key b ws"
  using split_path_join [of ws] by (simp add: parent_key_def path_key_def)

lemma join_segs_inject: "names us \<Longrightarrow> names vs \<Longrightarrow> join_segs us = join_segs vs \<Longrightarrow> us = vs"
  using segments_join [of us] segments_join [of vs] by (metis name_seg_def)

lemma path_key_inject:
  assumes "names us" "names vs" "us \<noteq> []" "vs \<noteq> []" "path_key b us = path_key b vs"
  shows "us = vs"
proof -
  have "butlast us = butlast vs"
    using assms by (intro join_segs_inject) (auto simp: path_key_def dest: in_set_butlastD)
  with assms show ?thesis by (metis append_butlast_last_id path_key_def prod.inject)
qed

lemma names_join_nonempty: "names ws \<Longrightarrow> ws \<noteq> [] \<Longrightarrow> join_segs ws \<noteq> []"
  using join_segs_inject [of ws "[]"] by auto

lemma prefixes_snoc:
  assumes "P (ws @ [w])"
  shows "insert (g (ws @ [w])) {g (take n ws) | n. 0 < n \<and> n \<le> length ws \<and> P (take n ws)}
    = {g (take n (ws @ [w])) | n. 0 < n \<and> n \<le> length (ws @ [w]) \<and> P (take n (ws @ [w]))}" (is "insert _ ?A = ?B")
proof
  have "g (ws @ [w]) \<in> ?B" using assms by (auto intro!: exI [of _ "Suc (length ws)"])
  moreover have "?A \<subseteq> ?B" by (auto, rule_tac x = n in exI, simp)
  ultimately show "insert (g (ws @ [w])) ?A \<subseteq> ?B" by simp
  show "?B \<subseteq> insert (g (ws @ [w])) ?A"
  proof
    fix x assume "x \<in> ?B"
    then obtain n where n: "x = g (take n (ws @ [w]))" "0 < n" "n \<le> Suc (length ws)" "P (take n (ws @ [w]))" by auto
    then show "x \<in> insert (g (ws @ [w])) ?A" by (cases "n = Suc (length ws)") (auto simp: le_Suc_eq)
  qed
qed

lemma closed_prefix:
  assumes "tree_closed t b" "names ws" "dir_at t b ws \<noteq> None" "0 < n" "n \<le> length ws"
  shows "dir_at t b (take n ws) \<noteq> None"
  using assms(2-)
proof (induction ws rule: rev_induct)
  case (snoc w ws)
  show ?case
  proof (cases "n \<le> length ws")
    case True
    then have "ws \<noteq> []" using snoc.prems(3) by auto
    then have "dir_at t b ws \<noteq> None" using assms(1) snoc.prems unfolding tree_closed_def by blast
    with snoc True show ?thesis by simp
  next
    case False
    with snoc.prems show ?thesis by (simp add: le_Suc_eq)
  qed
qed simp

definition made :: "tables \<Rightarrow> dir_key set \<Rightarrow> tables \<Rightarrow> bool" where
  "made t ks t' \<longleftrightarrow> t' = t\<lparr>t_dirs := t_dirs t'\<rparr> \<and> (\<forall>k. k \<notin> ks \<longrightarrow> t_dirs t' k = t_dirs t k) \<and> (\<forall>k\<in>ks. t_dirs t' k \<noteq> None)"

lemma made_insert:
  assumes "made t1 ks t'" "t1 = t\<lparr>t_dirs := (t_dirs t)(k \<mapsto> d)\<rparr>"
  shows "made t (insert k ks) t'"
  unfolding made_def
proof (intro conjI allI impI ballI)
  have t1: "t_dirs t1 = (t_dirs t)(k \<mapsto> d)" using assms(2) by simp
  have "t' = t1\<lparr>t_dirs := t_dirs t'\<rparr>" using assms(1) unfolding made_def by blast
  then show "t' = t\<lparr>t_dirs := t_dirs t'\<rparr>" unfolding assms(2) by (metis tables.update_convs(2) tables.surjective)
  show "t_dirs t' j = t_dirs t j" if "j \<notin> insert k ks" for j
    using assms(1) t1 that unfolding made_def by (metis fun_upd_other insertCI)
  show "t_dirs t' j \<noteq> None" if "j \<in> insert k ks" for j
    using assms(1) t1 that unfolding made_def by (metis fun_upd_same insertE option.distinct(1))
qed

context reliable_cql
begin

lemma get_directory_at:
  assumes "names ws" "ws \<noteq> []"
  shows "get_directory c db b (Some (join_segs ws))
    = (case dir_at (view db) b ws of None \<Rightarrow> Err DataNotFound | Some d \<Rightarrow> Ok (Some d))"
proof -
  obtain x where x: "sel_dir c db (path_key b ws) = Ok x" using sel_dir_up by blast
  then have "x = dir_at (view db) b ws" using sel_dir_ok by (simp add: dir_at_def)
  with x parent_key_split [OF assms, of b] show ?thesis
    by (auto simp: get_directory_def Let_def parent_key_def found_def split: option.splits)
qed

lemma missing_dirs_set:
  assumes "tree_closed (view db) b" "names ws"
  shows "parent_key b ` set (missing_dirs c db b (if ws = [] then None else Some (join_segs ws)))
    = {path_key b (take n ws) | n. 0 < n \<and> n \<le> length ws \<and> dir_at (view db) b (take n ws) = None}"
  using assms(2)
proof (induction ws rule: rev_induct)
  case (snoc w ws)
  have split: "fst (split_path (join_segs (ws @ [w]))) = (if ws = [] then None else Some (join_segs ws))"
    using split_path_join [of "ws @ [w]"] snoc.prems by simp
  show ?case
  proof (cases "dir_at (view db) b (ws @ [w])")
    case (Some d)
    then have "\<not> (0 < n \<and> n \<le> length (ws @ [w]) \<and> dir_at (view db) b (take n (ws @ [w])) = None)" for n
      using closed_prefix [OF assms(1) snoc.prems] by blast
    with Some show ?thesis using get_directory_at [OF snoc.prems] by simp
  next
    case None
    have "parent_key b ` set (missing_dirs c db b (Some (join_segs (ws @ [w])))) = insert (path_key b (ws @ [w]))
        {path_key b (take n ws) | n. 0 < n \<and> n \<le> length ws \<and> dir_at (view db) b (take n ws) = None}"
      using snoc get_directory_at [OF snoc.prems] None parent_key_split [OF snoc.prems, of b] split by simp
    also have "\<dots> = {path_key b (take n (ws @ [w])) | n. 0 < n \<and> n \<le> length (ws @ [w])
        \<and> dir_at (view db) b (take n (ws @ [w])) = None}"
      by (rule prefixes_snoc [where P = "\<lambda>p. dir_at (view db) b p = None", OF None])
    finally show ?thesis by simp
  qed
qed simp

lemma create_directories_up:
  assumes "ae_cql env = c" "ds \<noteq> []"
  shows "\<exists>d st'. create_directories env b ds st = Some (Ok (Some d), st')
    \<and> t_dirs (view (as_db st')) (parent_key b (last ds)) = Some d
    \<and> made (view (as_db st)) (parent_key b ` set ds) (view (as_db st'))
    \<and> as_ledger st' = as_ledger st \<and> as_locks st' = as_locks st"
  using assms(2)
proof (induction ds arbitrary: st)
  case (Cons d ds)
  let ?new = "new_directory env b d st"
  obtain db where db: "ins_dir c (as_db st) ?new = (Ok (), db)" using ins_dir_up by blast
  have view: "view db = (view (as_db st))\<lparr>t_dirs := (t_dirs (view (as_db st)))(parent_key b d \<mapsto> ?new)\<rparr>"
    using ins_dir_ok [OF db] by (simp add: new_directory_def dir_key_def parent_key_def)
  show ?case
  proof (cases "ds = []")
    case True
    with db view assms(1) show ?thesis by (simp add: insert_directory_def made_def)
  next
    case False
    let ?st = "st\<lparr>as_db := db, as_drawn := Suc (as_drawn st)\<rparr>"
    obtain d' st' where IH: "create_directories env b ds ?st = Some (Ok (Some d'), st')"
      "t_dirs (view (as_db st')) (parent_key b (last ds)) = Some d'"
      "made (view (as_db ?st)) (parent_key b ` set ds) (view (as_db st'))"
      "as_ledger st' = as_ledger ?st" "as_locks st' = as_locks ?st"
      using Cons.IH [OF False, of ?st] by blast
    have "create_directories env b (d # ds) st = Some (Ok (Some d'), st')"
      using IH(1) db assms(1) False by (simp add: insert_directory_def)
    with IH(2,4,5) made_insert [OF IH(3), of "view (as_db st)" "parent_key b d"] view False show ?thesis by simp
  qed
qed simp

lemma mkdir_ancestors:
  assumes c: "ae_cql env = c" and ws: "names ws" "ws \<noteq> []" and closed: "tree_closed (view (as_db st)) b"
  shows "\<exists>d st'. try_mkdir env b (join_segs ws) st = Some (Ok (Some d), st')
    \<and> dir_at (view (as_db st')) b ws = Some d
    \<and> (\<forall>k. t_dirs (view (as_db st')) k \<noteq> None \<longleftrightarrow> t_dirs (view (as_db st)) k \<noteq> None
         \<or> (\<exists>n. 0 < n \<and> n \<le> length ws \<and> k = path_key b (take n ws)))
    \<and> t_dirs (view (as_db st)) \<subseteq>\<^sub>m t_dirs (view (as_db st'))
    \<and> view (as_db st') = (view (as_db st))\<lparr>t_dirs := t_dirs (view (as_db st'))\<rparr>
    \<and> as_ledger st' = as_ledger st \<and> as_locks st' = as_locks st"
proof (cases "dir_at (view (as_db st)) b ws")
  case (Some d)
  then have "try_mkdir env b (join_segs ws) st = Some (Ok (Some d), st)"
    using get_directory_at [OF ws] names_join_nonempty [OF ws] c by (simp add: try_mkdir_def)
  moreover have "t_dirs (view (as_db st)) (path_key b (take n ws)) \<noteq> None" if "0 < n" "n \<le> length ws" for n
    using closed_prefix [OF closed ws(1) _ that] Some by (simp add: dir_at_def)
  ultimately show ?thesis using Some by auto
next
  case None
  obtain vs v where vs: "ws = vs @ [v]" using ws(2) by (cases ws rule: rev_cases) auto
  let ?miss = "missing_dirs c (as_db st) b (fst (split_path (join_segs ws))) @ [split_path (join_segs ws)]"
  have parent: "fst (split_path (join_segs ws)) = (if vs = [] then None else Some (join_segs vs))"
    using split_path_join [OF ws] vs by simp
  have run: "try_mkdir env b (join_segs ws) st = create_directories env b ?miss st"
    using get_directory_at [OF ws] names_join_nonempty [OF ws] c None by (simp add: try_mkdir_def)
  have keys: "parent_key b ` set ?miss
      = {path_key b (take n ws) | n. 0 < n \<and> n \<le> length ws \<and> dir_at (view (as_db st)) b (take n ws) = None}"
  proof -
    have "parent_key b ` set ?miss = insert (path_key b ws)
        {path_key b (take n vs) | n. 0 < n \<and> n \<le> length vs \<and> dir_at (view (as_db st)) b (take n vs) = None}"
      using missing_dirs_set [OF closed, of vs] ws vs parent parent_key_split [OF ws, of b] by simp
    also have "\<dots> = {path_key b (take n ws) | n. 0 < n \<and> n \<le> length ws
        \<and> dir_at (view (as_db st)) b (take n ws) = None}"
      unfolding vs by (rule prefixes_snoc [where P = "\<lambda>p. dir_at (view (as_db st)) b p = None"]) (use None vs in simp)
    finally show ?thesis .
  qed
  obtain d st' where st': "create_directories env b ?miss st = Some (Ok (Some d), st')"
    "t_dirs (view (as_db st')) (parent_key b (last ?miss)) = Some d"
    "made (view (as_db st)) (parent_key b ` set ?miss) (view (as_db st'))"
    "as_ledger st' = as_ledger st" "as_locks st' = as_locks st"
    using create_directories_up [OF c, of ?miss b st] by blast
  have kept: "t_dirs (view (as_db st')) k = t_dirs (view (as_db st)) k" if "k \<notin> parent_key b ` set ?miss" for k
    using st'(3) that unfolding made_def by blast
  have old: "t_dirs (view (as_db st)) k = None" if "k \<in> parent_key b ` set ?miss" for k
    using that unfolding keys by (auto simp: dir_at_def)
  have "t_dirs (view (as_db st)) \<subseteq>\<^sub>m t_dirs (view (as_db st'))"
    unfolding map_le_def using old kept by (metis domIff)
  moreover have "\<forall>k. t_dirs (view (as_db st')) k \<noteq> None \<longleftrightarrow> t_dirs (view (as_db st)) k \<noteq> None
         \<or> (\<exists>n. 0 < n \<and> n \<le> length ws \<and> k = path_key b (take n ws))" (is "\<forall>k. ?new k")
  proof
    fix k show "?new k"
  proof (cases "k \<in> parent_key b ` set ?miss")
    case True
    with st'(3) have "t_dirs (view (as_db st')) k \<noteq> None" unfolding made_def by blast
    with True show ?thesis unfolding keys by auto
  next
    case False
    then have "t_dirs (view (as_db st)) k \<noteq> None" if "0 < n" "n \<le> length ws" "k = path_key b (take n ws)" for n
      using that unfolding keys by (auto simp: dir_at_def)
    with kept [OF False] show ?thesis by auto
  qed
  qed
  moreover have "dir_at (view (as_db st')) b ws = Some d"
    using st'(2) parent_key_split [OF ws, of b] by (simp add: dir_at_def)
  moreover have "view (as_db st') = (view (as_db st))\<lparr>t_dirs := t_dirs (view (as_db st'))\<rparr>"
    using st'(3) unfolding made_def by blast
  moreover have "try_mkdir env b (join_segs ws) st = Some (Ok (Some d), st')" using run st'(1) by simp
  ultimately show ?thesis using st'(4,5) by (intro exI conjI)
qed

end

lemma path_key_take:
  assumes "names ws" "names us" "us \<noteq> []" "0 < n" "n \<le> length ws" "path_key b us = path_key b (take n ws)"
  shows "us = take n ws"
  by (rule path_key_inject [OF assms(2) _ assms(3) _ assms(6)]) (use assms in \<open>auto dest: in_set_takeD\<close>)

lemma closed_after:
  assumes ws: "names ws" and closed: "tree_closed t b"
    and new: "\<forall>k. t_dirs t' k \<noteq> None \<longleftrightarrow> t_dirs t k \<noteq> None \<or> (\<exists>n. 0 < n \<and> n \<le> length ws \<and> k = path_key b (take n ws))"
  shows "tree_closed t' b"
  unfolding tree_closed_def
proof (intro allI impI)
  fix us u
  assume a: "names (us @ [u]) \<and> us \<noteq> [] \<and> dir_at t' b (us @ [u]) \<noteq> None"
  then consider "dir_at t b (us @ [u]) \<noteq> None"
    | n where "0 < n" "n \<le> length ws" "path_key b (us @ [u]) = path_key b (take n ws)"
    using new unfolding dir_at_def by blast
  then show "dir_at t' b us \<noteq> None"
  proof cases
    case 1
    with a closed have "dir_at t b us \<noteq> None" unfolding tree_closed_def by blast
    with new show ?thesis unfolding dir_at_def by blast
  next
    case (2 n)
    then have eq: "us @ [u] = take n ws" using path_key_take [OF ws, of "us @ [u]" n b] a by auto
    have len: "n = Suc (length us)" using arg_cong [where f = length, OF eq] 2(2) by simp
    then have "length us < length ws" using 2(2) by simp
    moreover have "us = take (length us) ws"
      using arg_cong [where f = "take (length us)", OF eq] len by (simp add: min_def)
    ultimately show ?thesis using new a unfolding dir_at_def by (metis length_greater_0_conv less_imp_le)
  qed
qed

text \<open>C27. Making a directory makes the path to it. On a database that answers, \<open>try_mkdir\<close> of a path
  of names succeeds and returns the directory at that path. Afterwards exactly the directories of
  before and the path's own prefixes are there; no row of before is replaced, so ids that files refer
  to stay valid; and if every directory had its ancestors before, it still has them.\<close>

theorem mkdir_creates_ancestors:
  assumes "reliable_cql (ae_cql env) view" "names ws" "ws \<noteq> []" "tree_closed (view (as_db st)) b"
  shows "\<exists>d st'. try_mkdir env b (join_segs ws) st = Some (Ok (Some d), st')
    \<and> dir_at (view (as_db st')) b ws = Some d
    \<and> (\<forall>k. t_dirs (view (as_db st')) k \<noteq> None \<longleftrightarrow> t_dirs (view (as_db st)) k \<noteq> None
         \<or> (\<exists>n. 0 < n \<and> n \<le> length ws \<and> k = path_key b (take n ws)))
    \<and> t_dirs (view (as_db st)) \<subseteq>\<^sub>m t_dirs (view (as_db st'))
    \<and> tree_closed (view (as_db st')) b"
proof -
  note up = reliable_cql.mkdir_ancestors [OF assms(1) refl assms(2-4)]
  then obtain d st' where st': "try_mkdir env b (join_segs ws) st = Some (Ok (Some d), st')"
      "dir_at (view (as_db st')) b ws = Some d"
      "\<forall>k. t_dirs (view (as_db st')) k \<noteq> None \<longleftrightarrow> t_dirs (view (as_db st)) k \<noteq> None
         \<or> (\<exists>n. 0 < n \<and> n \<le> length ws \<and> k = path_key b (take n ws))"
      "t_dirs (view (as_db st)) \<subseteq>\<^sub>m t_dirs (view (as_db st'))"
    by (elim exE conjE) (rule that)
  moreover have "tree_closed (view (as_db st')) b" by (rule closed_after [OF assms(2,4) st'(3)])
  ultimately show ?thesis by (intro exI conjI)
qed

lemma names_sample_a: "name_seg ''a''"
  by (simp add: name_seg_def plain_seg_def is_sep_def)

lemma names_sample: "names [''a'', ''b'', ''c'']"
  by (simp add: name_seg_def plain_seg_def is_sep_def)

theorem mkdir_creates_ancestors_witness:
  "\<exists>d st'. try_mkdir two_nodes_env 7 ''a/b/c'' (two_nodes (\<lambda>_. 10) no_rows) = Some (Ok (Some d), st')
     \<and> dir_at (mem_view (as_db st')) 7 [''a'', ''b''] \<noteq> None"
proof -
  let ?st = "two_nodes (\<lambda>_. 10) no_rows"
  have empty: "t_dirs (mem_view (as_db ?st)) = Map.empty"
    by (rule ext) (simp add: two_nodes_def no_rows_def mem_view_def rows_map_def)
  then have "tree_closed (mem_view (as_db ?st)) 7" by (simp add: tree_closed_def dir_at_def)
  moreover have "reliable_cql (ae_cql two_nodes_env) mem_view"
    using mem_up.reliable_cql_axioms by (simp add: two_nodes_env_def)
  ultimately obtain d st' where st': "try_mkdir two_nodes_env 7 (join_segs [''a'', ''b'', ''c'']) ?st = Some (Ok (Some d), st')"
    "\<forall>k. t_dirs (mem_view (as_db st')) k \<noteq> None \<longleftrightarrow> t_dirs (mem_view (as_db ?st)) k \<noteq> None
       \<or> (\<exists>n. 0 < n \<and> n \<le> length [''a'', ''b'', ''c''] \<and> k = path_key 7 (take n [''a'', ''b'', ''c'']))"
    using mkdir_creates_ancestors [of two_nodes_env mem_view "[''a'', ''b'', ''c'']" ?st 7] names_sample by blast
  have "dir_at (mem_view (as_db st')) 7 (take 2 [''a'', ''b'', ''c'']) \<noteq> None"
    unfolding dir_at_def using st'(2) by (metis length_Cons list.size(3) one_less_numeral_iff semiring_norm(76)
        less_numeral_extra(1) zero_less_numeral le_Suc_eq numeral_2_eq_2)
  with st'(1) show ?thesis by simp
qed

subsection \<open>The directory without a name\<close>

text \<open>The path \<open>.\<close> passes \<open>prepare_path\<close>, and splits into no parent and no name.\<close>

lemma split_dot: "split_path ''.'' = (None, [])"
  by (simp add: split_path_def path_parent_def path_file_name_def component_idx_def normalize_def trim_matches_def)

definition nameless :: "uuid \<Rightarrow> Directory \<Rightarrow> bool" where
  "nameless b d \<longleftrightarrow> d_bucket_id d = b \<and> d_parent d = [] \<and> d_name d = []"

definition pending_dirs :: "DirectoryIterator \<Rightarrow> Directory set" where
  "pending_dirs it = set (visit_queue it) \<union> (case model_stream it of None \<Rightarrow> {} | Some ds \<Rightarrow> set ds)"

lemma next_dir_nameless:
  assumes "\<And>e. \<exists>ds. get_sub_dirs c db (d_bucket_id e) (directory_full_path e) = Ok ds
      \<and> set ds = {f. sub_dir t e f}" "sub_dir t d d" "d \<in> pending_dirs it"
  shows "\<exists>e it'. next_dir c db it = (Some (Ok e), it') \<and> d \<in> pending_dirs it'"
  using assms
proof (induction c db it rule: next_dir.induct)
  case (1 c db it)
  note up = 1(3) and self = 1(4) and d = 1(5)
  show ?case
  proof (cases "model_stream it")
    case None
    with d obtain nxt queue where q: "visit_queue it = nxt # queue" by (cases "visit_queue it") (auto simp: pending_dirs_def)
    obtain ds where ds: "get_sub_dirs c db (d_bucket_id nxt) (directory_full_path nxt) = Ok ds"
      "set ds = {f. sub_dir t nxt f}" using up [of nxt] by blast
    have "d \<in> pending_dirs (it\<lparr>visit_queue := queue, model_stream := Some ds\<rparr>)"
      using d q None ds(2) self by (auto simp: pending_dirs_def)
    from 1(1) [OF None q ds(1) up self this] show ?thesis by (subst next_dir.simps) (simp add: None q ds(1))
  next
    case (Some xs)
    show ?thesis
    proof (cases xs)
      case Nil
      have "d \<in> pending_dirs (it\<lparr>model_stream := None\<rparr>)" using d Some Nil by (simp add: pending_dirs_def)
      from 1(2) [OF Some Nil up self this] show ?thesis by (subst next_dir.simps) (simp add: Some Nil)
    next
      case (Cons x ys)
      with Some d show ?thesis by (subst next_dir.simps) (auto simp: pending_dirs_def)
    qed
  qed
qed

lemma collect_nameless:
  assumes "\<And>e. \<exists>ds. get_sub_dirs c db (d_bucket_id e) (directory_full_path e) = Ok ds
      \<and> set ds = {f. sub_dir t e f}" "sub_dir t d d" "d \<in> pending_dirs it"
  shows "collect_dirs c db it = None"
proof (rule ccontr)
  assume "collect_dirs c db it \<noteq> None"
  then obtain r where "collect_dirs c db it = Some r" by blast
  then have "(\<forall>e. \<exists>ds. get_sub_dirs c db (d_bucket_id e) (directory_full_path e) = Ok ds \<and> set ds = {f. sub_dir t e f})
      \<longrightarrow> d \<notin> pending_dirs it"
  proof (induction c db it r rule: collect_dirs.raw_induct [rotated, consumes 1])
    case (1 f c db it r)
    show ?case
    proof (intro impI notI)
      assume up: "\<forall>e. \<exists>ds. get_sub_dirs c db (d_bucket_id e) (directory_full_path e) = Ok ds \<and> set ds = {f. sub_dir t e f}"
        and d: "d \<in> pending_dirs it"
      obtain e it' where nxt: "next_dir c db it = (Some (Ok e), it')" "d \<in> pending_dirs it'"
        using next_dir_nameless [OF _ assms(2) d, of c db] up by blast
      with 1(2) obtain r' where "f c db it' = Some r'" by (auto simp: bind_eq_Some_conv)
      from 1(1) [OF this] up nxt(2) show False by blast
    qed
  qed
  with assms show False by blast
qed

context reliable_cql
begin

lemma get_directory_dot:
  "get_directory c db b (Some ''.'')
    = (case t_dirs (view db) (b, [], []) of None \<Rightarrow> Err DataNotFound | Some d \<Rightarrow> Ok (Some d))"
  using sel_dir_up [of db "(b, [], [])"] sel_dir_ok [of db "(b, [], [])"]
  by (auto simp: get_directory_def split_dot found_def split: option.splits)

lemma mkdir_dot:
  assumes "ae_cql env = c" "t_dirs (view (as_db st)) (b, [], []) = None"
  shows "\<exists>d st'. try_mkdir env b ''.'' st = Some (Ok (Some d), st') \<and> t_dirs (view (as_db st')) (b, [], []) = Some d"
  using create_directories_up [OF assms(1), of "[(None, [])]" b st] get_directory_dot [of "as_db st" b] assms
  by (auto simp: try_mkdir_def split_dot parent_key_def)

lemma collect_dot:
  assumes "t_dirs (view db) (b, [], []) = Some d"
  shows "collect_dirs c db (from_parent d) = None"
proof (rule collect_nameless [of c db "view db" d])
  show "\<exists>ds. get_sub_dirs c db (d_bucket_id e) (directory_full_path e) = Ok ds \<and> set ds = {f. sub_dir (view db) e f}" for e
    using get_sub_dirs_up by blast
  have "dir_key d = (b, [], [])" using keyed_dirs [OF assms] .
  with assms show "sub_dir (view db) d d"
    by (auto simp: sub_dir_def dir_key_def directory_full_path_def join_parent_name_def)
qed (simp add: pending_dirs_def from_parent_def)

lemma delete_dot:
  assumes "ae_cql env = c" "t_dirs (view (as_db st)) (b, [], []) = Some d"
    "e_path path = ''.''" "e_bucket_id path = b"
    "has_permission accessor (e_app_id path) (e_bucket_id path) DELETE_ALLOWANCE = Ok ()"
  shows "do_delete_directory env path True accessor st = None"
  using assms collect_dot [OF assms(2)] get_directory_dot [of "as_db st" b]
  by (simp add: do_delete_directory_def then_svc_def of_result_def db_query_def collect_children_def)

end

text \<open>C28. Walking a directory ends and yields its tree, unless there is a directory without a name. On a
  database that answers, where every directory of the bucket has a proper name (not empty, without a
  slash), the iterator over a directory terminates without an error and yields every directory below
  it, at whatever depth, exactly once, and nothing else. Over a directory whose parent and name are
  empty, which the path \<open>.\<close> creates, it never ends.\<close>

theorem directory_walk_exact:
  assumes "reliable_cql c view" "row_of (view db) b d"
  shows "(plain_dirs (view db) b \<longrightarrow>
      (\<exists>ds. collect_dirs c db (from_parent d) = Some (Ok ds) \<and> distinct ds \<and> set ds = {e. below (view db) d e}))
    \<and> (d_parent d = [] \<and> d_name d = [] \<longrightarrow> collect_dirs c db (from_parent d) = None)"
proof (intro conjI impI)
  assume "plain_dirs (view db) b"
  then show "\<exists>ds. collect_dirs c db (from_parent d) = Some (Ok ds) \<and> distinct ds \<and> set ds = {e. below (view db) d e}"
    using reliable_cql.collect_below [OF assms(1) _ assms(2)] by blast
next
  assume "d_parent d = [] \<and> d_name d = []"
  then have "t_dirs (view db) (d_bucket_id d, [], []) = Some d" using assms(2) by (auto simp: row_of_def dir_key_def)
  then show "collect_dirs c db (from_parent d) = None" by (rule reliable_cql.collect_dot [OF assms(1)])
qed

theorem directory_walk_exact_witness:
  "\<exists>ds. collect_dirs mem_cql sample_tree (from_parent (sample_dir '''' ''a'' 1)) = Some (Ok ds)
     \<and> distinct ds \<and> sample_dir ''a/b'' ''c'' 3 \<in> set ds"
proof -
  have "row_of (mem_view sample_tree) 7 (sample_dir '''' ''a'' 1)"
    by (simp add: sample_rows) (simp add: sample_tree_def no_rows_def)
  then show ?thesis
    using directory_walk_exact [OF mem_up.reliable_cql_axioms] sample_plain sample_below by fastforce
qed

text \<open>A directory that can be made and never removed. The request path \<open>.\<close> is accepted; creating
  the directory \<open>.\<close> stores a row with an empty parent and an empty name, whose full path is that of
  the bucket's root. The row is its own subdirectory, so the iterator yields it again and again: a
  recursive delete of it never returns, and keeps collecting.\<close>

theorem nameless_directory_never_deleted:
  assumes "reliable_cql (ae_cql env) view"
    "entry_path_from_request a b (Some ''.'') limits = Ok path"
    "has_permission accessor a b CREATE_DIRECTORY_ALLOWANCE = Ok ()" "has_permission accessor a b DELETE_ALLOWANCE = Ok ()"
    "t_dirs (view (as_db st)) (b, [], []) = None"
  shows "\<exists>st'. do_create_directory env path accessor st = Some (Ok (), st')
    \<and> do_delete_directory env path True accessor st' = None"
proof -
  have "normalize ''.'' = ''.''" using normalize_join [of "[''.'']"] by (simp add: plain_seg_def is_sep_def)
  then have path: "path = \<lparr>e_app_id = a, e_bucket_id = b, e_path = ''.''\<rparr>"
    using assms(2) by (auto simp: entry_path_from_request_def check_valid_def prepare_path_def Let_def
        split: option.splits if_splits)
  obtain d st' where st': "try_mkdir env b ''.'' st = Some (Ok (Some d), st')"
      "t_dirs (view (as_db st')) (b, [], []) = Some d"
    using reliable_cql.mkdir_dot [OF assms(1) refl assms(5)] by blast
  have "do_create_directory env path accessor st = Some (Ok (), st')"
    using st'(1) assms(3) path by (simp add: do_create_directory_def then_svc_def of_result_def)
  moreover have "do_delete_directory env path True accessor st' = None"
    by (rule reliable_cql.delete_dot [OF assms(1) refl st'(2)]) (use path assms(4) in simp_all)
  ultimately show ?thesis by blast
qed

definition full_accessor :: BucketAccessor where
  "full_accessor = \<lparr>permits = [\<lparr>permit_bucket_id = 7, permit_allowance = - 1\<rparr>], accessor_app_id = 6\<rparr>"

lemma full_accessor_permission [simp]: "has_permission full_accessor 6 7 p = Ok ()"
  by (simp add: has_permission_def full_accessor_def check_permission_def)

theorem nameless_directory_never_deleted_witness:
  "\<exists>st'. do_create_directory two_nodes_env \<lparr>e_app_id = 6, e_bucket_id = 7, e_path = ''.''\<rparr> full_accessor
       (two_nodes (\<lambda>_. 10) no_rows) = Some (Ok (), st')
     \<and> do_delete_directory two_nodes_env \<lparr>e_app_id = 6, e_bucket_id = 7, e_path = ''.''\<rparr> True full_accessor st' = None"
proof (rule nameless_directory_never_deleted [of two_nodes_env mem_view 6 7
      "\<lparr>max_path_length = 100, max_directory_depth = 10\<rparr>" _ full_accessor])
  show "reliable_cql (ae_cql two_nodes_env) mem_view"
    using mem_up.reliable_cql_axioms by (simp add: two_nodes_env_def)
  show "entry_path_from_request 6 7 (Some ''.'') \<lparr>max_path_length = 100, max_directory_depth = 10\<rparr>
      = Ok \<lparr>e_app_id = 6, e_bucket_id = 7, e_path = ''.''\<rparr>"
    by (simp add: entry_path_from_request_def check_valid_def prepare_path_def Let_def auto_reject_path_length_def
        normalize_def trim_matches_def is_sep_def)
qed (simp_all add: two_nodes_def no_rows_def mem_view_def rows_map_def)

subsection \<open>Deleting a tree\<close>

definition holds_file :: "tables \<Rightarrow> Directory \<Rightarrow> bool" where
  "holds_file t d \<longleftrightarrow> (\<exists>k f. t_files t k = Some f \<and> f_bucket_id f = d_bucket_id d \<and> f_directory f = d_id d)"

context reliable_cql
begin

lemma first_file:
  "\<exists>f. maybe_get_first_file_from_directory c db (d_bucket_id d) (Some (d_id d)) = Ok f
     \<and> (f \<noteq> None \<longleftrightarrow> holds_file (view db) d)"
proof -
  obtain fs where fs: "sel_files_dir c db (d_bucket_id d) (d_id d) = Ok fs" using sel_files_dir_up by blast
  have "holds_file (view db) d \<longleftrightarrow> (\<exists>f. f \<in> set fs)"
  proof
    assume "holds_file (view db) d"
    then obtain k f where f: "t_files (view db) k = Some f" "f_bucket_id f = d_bucket_id d" "f_directory f = d_id d"
      by (auto simp: holds_file_def)
    then have "f \<in> set fs" using sel_files_dir_ok [OF fs] keyed_files [OF f(1)] by simp
    then show "\<exists>f. f \<in> set fs" ..
  next
    assume "\<exists>f. f \<in> set fs"
    then show "holds_file (view db) d" using sel_files_dir_ok [OF fs] unfolding holds_file_def by blast
  qed
  then have "fs \<noteq> [] \<longleftrightarrow> holds_file (view db) d" by (cases fs) auto
  with fs show ?thesis
    by (cases fs) (auto simp: maybe_get_first_file_from_directory_def first_row_def or_root_def)
qed

lemma first_child:
  "\<exists>e. maybe_get_first_child_from_directory c db (d_bucket_id d) (Some (directory_full_path d)) = Ok e
     \<and> (e \<noteq> None \<longleftrightarrow> (\<exists>e. sub_dir (view db) d e))"
proof -
  obtain ds where ds: "get_sub_dirs c db (d_bucket_id d) (directory_full_path d) = Ok ds"
    "set ds = {e. sub_dir (view db) d e}" using get_sub_dirs_up by blast
  then show ?thesis
    by (cases ds) (auto simp: maybe_get_first_child_from_directory_def first_row_def get_sub_dirs_def)
qed

lemma dir_empty_exact:
  assumes "ae_cql env = c"
  shows "dir_empty env d check_dir st =
    Some (if holds_file (view (as_db st)) d \<or> check_dir \<and> (\<exists>e. sub_dir (view (as_db st)) d e) then Err NotEmpty else Ok (), st)"
proof -
  obtain f where f: "maybe_get_first_file_from_directory c (as_db st) (d_bucket_id d) (Some (d_id d)) = Ok f"
    "f \<noteq> None \<longleftrightarrow> holds_file (view (as_db st)) d" using first_file by blast
  obtain e where e: "maybe_get_first_child_from_directory c (as_db st) (d_bucket_id d) (Some (directory_full_path d)) = Ok e"
    "e \<noteq> None \<longleftrightarrow> (\<exists>e. sub_dir (view (as_db st)) d e)" using first_child by blast
  show ?thesis
    by (simp add: dir_empty_def then_svc_def db_query_def of_result_def assms f e flip: f(2) e(2))
qed

lemma delete_children_up:
  assumes "ae_cql env = c" "\<not> holds_file (view (as_db st)) d"
  shows "\<exists>st'. delete_children env d ds st = Some (Ok (), st')
    \<and> view (as_db st') = (view (as_db st))\<lparr>t_dirs := t_dirs (view (as_db st)) |` (- dir_key ` set ds)\<rparr>"
  using assms(2)
proof (induction ds arbitrary: st)
  case (Cons e ds)
  obtain db where db: "del_dir c (as_db st) e = (Ok (), db)" using del_dir_up by blast
  let ?st = "st\<lparr>as_db := db\<rparr>"
  have view: "view (as_db ?st) = (view (as_db st))\<lparr>t_dirs := (t_dirs (view (as_db st)))(dir_key e := None)\<rparr>"
    using del_dir_ok [OF db] by simp
  then have "\<not> holds_file (view (as_db ?st)) d" using Cons.prems by (simp add: holds_file_def)
  from Cons.IH [OF this] obtain st' where st': "delete_children env d ds ?st = Some (Ok (), st')"
    "view (as_db st') = (view (as_db ?st))\<lparr>t_dirs := t_dirs (view (as_db ?st)) |` (- dir_key ` set ds)\<rparr>" by blast
  have "delete_children env d (e # ds) st = Some (Ok (), st')"
    using st'(1) db dir_empty_exact [OF assms(1), of d False st] Cons.prems
    by (simp add: then_svc_def db_update_def delete_directory_def assms(1))
  moreover have "(t_dirs (view (as_db st)))(dir_key e := None) |` (- dir_key ` set ds)
      = t_dirs (view (as_db st)) |` (- dir_key ` set (e # ds))"
    by (rule ext) (auto simp: restrict_map_def)
  ultimately show ?case using st'(2) view by simp
qed (simp add: of_result_def restrict_map_def)

end

lemma restrict_dirs_row:
  "row_of (t\<lparr>t_dirs := t_dirs t |` S\<rparr>) b d \<longleftrightarrow> row_of t b d \<and> dir_key d \<in> S"
  by (auto simp: row_of_def restrict_map_def)

context reliable_cql
begin

lemma delete_tree:
  assumes "ae_cql env = c" "has_permission accessor (e_app_id path) (e_bucket_id path) DELETE_ALLOWANCE = Ok ()"
    "e_path path \<noteq> []" "get_directory c (as_db st) (e_bucket_id path) (Some (e_path path)) = Ok (Some d)"
    "plain_dirs (view (as_db st)) b" "row_of (view (as_db st)) b d" "\<not> holds_file (view (as_db st)) d"
  shows "\<exists>st'. do_delete_directory env path True accessor st = Some (Ok (), st')
    \<and> view (as_db st') = (view (as_db st))\<lparr>t_dirs := t_dirs (view (as_db st)) |`
        (- dir_key ` insert d {e. below (view (as_db st)) d e})\<rparr>"
proof -
  obtain ds where ds: "collect_dirs c (as_db st) (from_parent d) = Some (Ok ds)" "set ds = {e. below (view (as_db st)) d e}"
    using collect_below [OF assms(5,6)] by blast
  obtain st1 where st1: "delete_children env d ds st = Some (Ok (), st1)"
    "view (as_db st1) = (view (as_db st))\<lparr>t_dirs := t_dirs (view (as_db st)) |` (- dir_key ` set ds)\<rparr>"
    using delete_children_up [OF assms(1,7)] by blast
  obtain db where db: "del_dir c (as_db st1) d = (Ok (), db)" using del_dir_up by blast
  have "do_delete_directory env path True accessor st = Some (Ok (), st1\<lparr>as_db := db\<rparr>)"
    using assms(1-4) ds(1) st1(1) db
    by (simp add: do_delete_directory_def then_svc_def of_result_def db_query_def collect_children_def
        db_update_def delete_directory_def)
  moreover have "(t_dirs (view (as_db st)) |` (- dir_key ` set ds))(dir_key d := None)
      = t_dirs (view (as_db st)) |` (- dir_key ` insert d {e. below (view (as_db st)) d e})"
    unfolding ds(2) [symmetric] by (rule ext) (auto simp: restrict_map_def)
  ultimately show ?thesis using del_dir_ok [OF db] st1(2) by simp
qed

end

text \<open>C40. A recursive delete leaves the files of subdirectories behind. The directory is checked for
  files once per subdirectory, but always the directory itself and never the subdirectory. So when the
  directory has no file of its own the delete succeeds and removes the rows of exactly the directory and
  all directories below it, whatever files those hold: a file of a subdirectory keeps its row, its
  chunks and its share of the bucket's quota, while no directory has the id it is stored under.\<close>

theorem recursive_delete_orphans_files:
  assumes "reliable_cql (ae_cql env) view"
    "has_permission accessor (e_app_id path) (e_bucket_id path) DELETE_ALLOWANCE = Ok ()"
    "e_path path \<noteq> []" "get_directory (ae_cql env) (as_db st) (e_bucket_id path) (Some (e_path path)) = Ok (Some d)"
    "plain_dirs (view (as_db st)) b" "row_of (view (as_db st)) b d" "\<not> holds_file (view (as_db st)) d"
    "\<forall>x y. row_of (view (as_db st)) b x \<and> row_of (view (as_db st)) b y \<and> d_id x = d_id y \<longrightarrow> x = y"
    "below (view (as_db st)) d e" "t_files (view (as_db st)) k = Some f" "f_directory f = d_id e"
  shows "\<exists>st'. do_delete_directory env path True accessor st = Some (Ok (), st')
    \<and> t_files (view (as_db st')) k = Some f
    \<and> (\<forall>x. row_of (view (as_db st')) b x \<longleftrightarrow> row_of (view (as_db st)) b x \<and> x \<noteq> d \<and> \<not> below (view (as_db st)) d x)
    \<and> (\<forall>x. row_of (view (as_db st')) b x \<longrightarrow> d_id x \<noteq> f_directory f)"
proof -
  have bd: "d_bucket_id d = b" using assms(6) by (simp add: row_of_def)
  obtain st' where st': "do_delete_directory env path True accessor st = Some (Ok (), st')"
    "view (as_db st') = (view (as_db st))\<lparr>t_dirs := t_dirs (view (as_db st)) |`
        (- dir_key ` insert d {e. below (view (as_db st)) d e})\<rparr>"
    using reliable_cql.delete_tree [OF assms(1) refl assms(2-7)] by blast
  have key: "dir_key x \<in> dir_key ` insert d {e. below (view (as_db st)) d e} \<longleftrightarrow> x = d \<or> below (view (as_db st)) d x"
    if "row_of (view (as_db st)) b x" for x
    using that below_row [of "view (as_db st)" d] assms(6) bd unfolding row_of_def image_iff
    by (metis insert_iff mem_Collect_eq option.inject)
  have rows: "row_of (view (as_db st')) b x \<longleftrightarrow> row_of (view (as_db st)) b x \<and> x \<noteq> d \<and> \<not> below (view (as_db st)) d x" for x
    unfolding st'(2) restrict_dirs_row using key [of x] by auto
  moreover have "d_id x \<noteq> f_directory f" if "row_of (view (as_db st')) b x" for x
    using that assms(8,9,11) below_row [OF assms(9)] bd unfolding rows by metis
  ultimately show ?thesis using st' assms(10) by auto
qed

definition orphan_db :: mem_db where
  "orphan_db = sample_tree\<lparr>m_files := [sample_file\<lparr>f_bucket_id := 7, f_directory := 3\<rparr>]\<rparr>"

lemma orphan_view: "t_dirs (mem_view orphan_db) = t_dirs (mem_view sample_tree)"
  by (simp add: orphan_db_def mem_view_def)

lemma below_dirs_cong: "t_dirs t = t_dirs t' \<Longrightarrow> below t d e \<Longrightarrow> below t' d e"
  by (rotate_tac 1, induction rule: below.induct) (auto simp: sub_dir_def intro: below.intros)

theorem recursive_delete_orphans_files_witness:
  "\<exists>st'. do_delete_directory two_nodes_env \<lparr>e_app_id = 6, e_bucket_id = 7, e_path = ''a''\<rparr> True full_accessor
       (two_nodes (\<lambda>_. 10) orphan_db) = Some (Ok (), st')
     \<and> (\<exists>k f. t_files (mem_view (as_db st')) k = Some f \<and> (\<forall>x. row_of (mem_view (as_db st')) 7 x \<longrightarrow> d_id x \<noteq> f_directory f))"
proof -
  let ?st = "two_nodes (\<lambda>_. 10) orphan_db" and ?d = "sample_dir '''' ''a'' 1" and ?e = "sample_dir ''a/b'' ''c'' 3"
  let ?f = "sample_file\<lparr>f_bucket_id := 7, f_directory := 3\<rparr>"
  have db: "as_db ?st = orphan_db" by (simp add: two_nodes_def)
  have rows: "row_of (mem_view orphan_db) 7 x \<longleftrightarrow> x \<in> set (m_dirs sample_tree)" for x
    using sample_rows [of x] by (simp add: row_of_def orphan_view)
  have ids: "\<forall>x y. row_of (mem_view orphan_db) 7 x \<and> row_of (mem_view orphan_db) 7 y \<and> d_id x = d_id y \<longrightarrow> x = y"
    unfolding rows by (auto simp: sample_tree_def no_rows_def sample_dir_def)
  have f: "t_files (mem_view orphan_db) k = (if k = file_key ?f then Some ?f else None)" for k
    by (simp add: orphan_db_def mem_view_def rows_map_def)
  have "\<exists>st'. do_delete_directory two_nodes_env \<lparr>e_app_id = 6, e_bucket_id = 7, e_path = ''a''\<rparr> True full_accessor ?st
        = Some (Ok (), st')
    \<and> t_files (mem_view (as_db st')) (file_key ?f) = Some ?f
    \<and> (\<forall>x. row_of (mem_view (as_db st')) 7 x \<longleftrightarrow> row_of (mem_view (as_db ?st)) 7 x \<and> x \<noteq> ?d \<and> \<not> below (mem_view (as_db ?st)) ?d x)
    \<and> (\<forall>x. row_of (mem_view (as_db st')) 7 x \<longrightarrow> d_id x \<noteq> f_directory ?f)"
  proof (rule recursive_delete_orphans_files [where e = ?e])
    show "reliable_cql (ae_cql two_nodes_env) mem_view"
      using mem_up.reliable_cql_axioms by (simp add: two_nodes_env_def)
    show "plain_dirs (mem_view (as_db ?st)) 7" using sample_plain by (simp add: plain_dirs_def row_of_def db orphan_view)
    show "row_of (mem_view (as_db ?st)) 7 ?d" by (simp add: db rows) (simp add: sample_tree_def no_rows_def)
    show "below (mem_view (as_db ?st)) ?d ?e"
      unfolding db by (rule below_dirs_cong [OF orphan_view [symmetric] sample_below])
    show "\<not> holds_file (mem_view (as_db ?st)) ?d" by (auto simp: holds_file_def db f sample_dir_def)
    show "get_directory (ae_cql two_nodes_env) (as_db ?st) (e_bucket_id \<lparr>e_app_id = 6, e_bucket_id = 7, e_path = ''a''\<rparr>)
        (Some (e_path \<lparr>e_app_id = 6, e_bucket_id = 7, e_path = ''a''\<rparr>)) = Ok (Some ?d)"
      using mem_up.get_directory_at [of "[''a'']" orphan_db 7]
      by (simp add: two_nodes_env_def db names_sample_a dir_at_def path_key_def orphan_view)
        (simp add: mem_view_def sample_tree_def no_rows_def rows_map_def sample_dir_def dir_key_def)
  qed (use ids in \<open>simp_all add: db f sample_dir_def\<close>)
  then show ?thesis by blast
qed

subsection \<open>Renaming a tree\<close>

lemma normalize_trailing: "plain_seg n \<Longrightarrow> normalize (n @ [slash]) = n"
  by (simp add: normalize_spec plain_seg_def segments_append_sep is_sep_def)

definition moved_keys :: "string \<Rightarrow> Directory list \<Rightarrow> dir_key set" where
  "moved_keys p ds = (\<lambda>e. (d_bucket_id e, p, d_name e)) ` set ds"

context reliable_cql
begin

lemma rename_children_up:
  assumes "ae_cql env = c" "normalize (new @ [slash]) = new" "moved_keys new ds \<inter> dir_key ` set ds = {}"
  shows "\<exists>st'. rename_children env old new ds st = Some (Ok (), st')
    \<and> (\<forall>k. k \<in> moved_keys new ds \<longrightarrow> t_dirs (view (as_db st')) k \<noteq> None)
    \<and> (\<forall>k. k \<notin> moved_keys new ds \<longrightarrow> t_dirs (view (as_db st')) k
         = (if k \<in> dir_key ` set ds then None else t_dirs (view (as_db st)) k))"
  using assms(3)
proof (induction ds arbitrary: st)
  case (Cons e ds)
  let ?e = "e\<lparr>d_parent := new\<rparr>"
  obtain db where db: "batch_move_dir c (as_db st) e ?e = (Ok (), db)" using batch_move_dir_up by blast
  let ?st = "st\<lparr>as_db := db\<rparr>" and ?k = "(d_bucket_id e, new, d_name e)"
  have view: "t_dirs (view (as_db ?st)) = (t_dirs (view (as_db st)))(dir_key e := None, ?k \<mapsto> ?e)"
    using batch_move_dir_ok [OF db] by (simp add: dir_key_def)
  have keys: "moved_keys new (e # ds) = insert ?k (moved_keys new ds)" by (simp add: moved_keys_def)
  have "moved_keys new ds \<inter> dir_key ` set ds = {}" using Cons.prems keys by auto
  from Cons.IH [OF this, of ?st] obtain st' where st': "rename_children env old new ds ?st = Some (Ok (), st')"
    "\<forall>k. k \<in> moved_keys new ds \<longrightarrow> t_dirs (view (as_db st')) k \<noteq> None"
    "\<forall>k. k \<notin> moved_keys new ds \<longrightarrow> t_dirs (view (as_db st')) k
         = (if k \<in> dir_key ` set ds then None else t_dirs (view (as_db ?st)) k)"
    by (elim exE conjE) (rule that)
  have "rename_children env old new (e # ds) st = Some (Ok (), st')"
    using st'(1) db assms(1,2) by (simp add: then_svc_def db_update_def update_directory_path_def)
  moreover have "t_dirs (view (as_db st')) k \<noteq> None" if "k \<in> moved_keys new (e # ds)" for k
  proof (cases "k \<in> moved_keys new ds")
    case False
    then have k: "k = ?k" using that keys by auto
    then have "k \<notin> dir_key ` set ds" using Cons.prems keys by auto
    with False st'(3) have "t_dirs (view (as_db st')) k = t_dirs (view (as_db ?st)) k" by metis
    then show ?thesis using view k by simp
  qed (use st'(2) in metis)
  moreover have "t_dirs (view (as_db st')) k = (if k \<in> dir_key ` set (e # ds) then None else t_dirs (view (as_db st)) k)"
    if "k \<notin> moved_keys new (e # ds)" for k
  proof -
    have "k \<notin> moved_keys new ds" "k \<noteq> ?k" using that keys by auto
    then have "t_dirs (view (as_db st')) k = (if k \<in> dir_key ` set ds then None else t_dirs (view (as_db ?st)) k)"
      using st'(3) by metis
    then show ?thesis unfolding view using \<open>k \<noteq> ?k\<close> by (auto split: if_splits)
  qed
  ultimately show ?case by (intro exI conjI allI impI)
qed (simp add: of_result_def moved_keys_def)

end

lemma plain_path_root:
  assumes "row_of t b x" "plain_dirs t b" "directory_full_path x = n" "slash \<notin> set n" "n \<noteq> []"
  shows "dir_key x = (b, [], n)"
proof -
  have "d_parent x = []" using assms(3,4) by (auto simp: directory_full_path_def join_parent_name_def split: if_splits)
  with assms(1,3) show ?thesis by (simp add: dir_key_def row_of_def directory_full_path_def join_parent_name_def)
qed

lemma below_parent:
  assumes "below t d e" shows "\<exists>x. (x = d \<or> below t d x) \<and> d_parent e = directory_full_path x"
  using below_last [OF assms] by (auto simp: sub_dir_def)

context reliable_cql
begin

lemma rename_tree:
  assumes c: "ae_cql env = c"
    and ok: "has_permission accessor (e_app_id path) b RENAME_DIRECTORY_ALLOWANCE = Ok ()" "e_bucket_id path = b"
    and path: "e_path path \<noteq> []" "e_path path \<noteq> n" "get_directory c (as_db st) b (Some (e_path path)) = Ok (Some d)"
    and n: "name_seg n" "t_dirs (view (as_db st)) (b, [], n) = None" "d_parent d \<noteq> n"
    and tree: "plain_dirs (view (as_db st)) b" "row_of (view (as_db st)) b d"
  shows "\<exists>st'. do_rename_directory env path n accessor st = Some (Ok (), st')
    \<and> (\<forall>e. below (view (as_db st)) d e \<longrightarrow> t_dirs (view (as_db st')) (dir_key e) = None
         \<and> t_dirs (view (as_db st')) (b, n, d_name e) \<noteq> None)"
proof -
  let ?t = "view (as_db st)"
  have plain: "plain_seg n" "slash \<notin> set n" "n \<noteq> []" using n(1) by (auto simp: name_seg_def plain_seg_def is_sep_def)
  have split: "split_path n = (None, n)" using split_path_join [of "[n]"] n(1) by simp
  have absent: "get_directory c (as_db st) b (Some n) = Err DataNotFound"
    using get_directory_at [of "[n]" "as_db st" b] n by (simp add: dir_at_def path_key_def)
  obtain ds where ds: "collect_dirs c (as_db st) (from_parent d) = Some (Ok ds)" "set ds = {e. below ?t d e}"
    using collect_below [OF tree] by blast
  have bd: "d_bucket_id d = b" using tree(2) by (simp add: row_of_def)
  have row: "row_of ?t b e" if "e \<in> set ds" for e using that ds(2) below_row [of ?t d e] bd by simp
  have parent: "d_parent e \<noteq> n" if e: "e \<in> set ds" for e
  proof
    assume "d_parent e = n"
    then obtain x where x: "x = d \<or> below ?t d x" "directory_full_path x = n"
      using below_parent [of ?t d e] e ds(2) by (metis mem_Collect_eq)
    then have "row_of ?t b x" using tree(2) below_row [of ?t d x] bd by auto
    with plain_path_root [OF this tree(1) x(2) plain(2,3)] n(2) show False by (simp add: row_of_def)
  qed
  then have "moved_keys n ds \<inter> dir_key ` set ds = {}" by (auto simp: moved_keys_def dir_key_def)
  from rename_children_up [OF c normalize_trailing [OF plain(1)] this, of "directory_full_path d" st]
  obtain st1 where st1: "rename_children env (directory_full_path d) n ds st = Some (Ok (), st1)"
    "\<forall>k. k \<in> moved_keys n ds \<longrightarrow> t_dirs (view (as_db st1)) k \<noteq> None"
    "\<forall>k. k \<notin> moved_keys n ds \<longrightarrow> t_dirs (view (as_db st1)) k
         = (if k \<in> dir_key ` set ds then None else t_dirs (view (as_db st)) k)"
    by (elim exE conjE) (rule that)
  let ?d = "d\<lparr>d_parent := [], d_name := n\<rparr>"
  obtain db where db: "batch_move_dir c (as_db st1) d ?d = (Ok (), db)" using batch_move_dir_up by blast
  have view: "t_dirs (view db) = (t_dirs (view (as_db st1)))(dir_key d := None, (b, [], n) \<mapsto> ?d)"
    using batch_move_dir_ok [OF db] bd by (simp add: dir_key_def)
  have "do_rename_directory env path n accessor st = Some (Ok (), st1\<lparr>as_db := db\<rparr>)"
    using c ok path absent split ds(1) st1(1) db plain(3)
    by (simp add: do_rename_directory_def then_svc_def of_result_def db_query_def collect_children_def try_mkdir_def
        join_parent_name_def db_update_def update_directory_path_def)
  moreover have "t_dirs (view db) (dir_key e) = None \<and> t_dirs (view db) (b, n, d_name e) \<noteq> None"
    if e: "below ?t d e" for e
  proof -
    have e': "e \<in> set ds" "d_bucket_id e = b" using e ds(2) row [of e] by (auto simp: row_of_def)
    then have moved: "(b, n, d_name e) \<in> moved_keys n ds" by (force simp: moved_keys_def)
    have old: "dir_key e \<notin> moved_keys n ds" using parent e' by (auto simp: moved_keys_def dir_key_def)
    have "t_dirs (view (as_db st1)) (dir_key e) = None" using st1(3) old e'(1) by (metis imageI)
    moreover have "dir_key e \<noteq> (b, [], n)" using row [OF e'(1)] n(2) by (auto simp: row_of_def)
    moreover have "(b, n, d_name e) \<noteq> dir_key d" using n(3) by (simp add: dir_key_def)
    ultimately show ?thesis using st1(2) moved view plain(3) by (simp del: not_None_eq)
  qed
  ultimately show ?thesis by (intro exI [of _ "st1\<lparr>as_db := db\<rparr>"]) simp
qed

end

text \<open>Renaming a directory flattens the tree below it. \<open>do_rename_directory\<close> computes the new parent
  of every directory below the renamed one from the empty remainder of the old path, so all of them,
  at whatever depth, are moved directly under the new name: a directory \<open>a/b/c\<close> becomes
  \<open>x/c\<close> and not \<open>x/b/c\<close>, and of two directories with one name, whose row key is then the same,
  one is lost.\<close>

theorem rename_flattens:
  assumes "reliable_cql (ae_cql env) view"
    "has_permission accessor (e_app_id path) b RENAME_DIRECTORY_ALLOWANCE = Ok ()" "e_bucket_id path = b"
    "e_path path \<noteq> []" "e_path path \<noteq> n" "get_directory (ae_cql env) (as_db st) b (Some (e_path path)) = Ok (Some d)"
    "name_seg n" "t_dirs (view (as_db st)) (b, [], n) = None" "d_parent d \<noteq> n"
    "plain_dirs (view (as_db st)) b" "row_of (view (as_db st)) b d"
  shows "\<exists>st'. do_rename_directory env path n accessor st = Some (Ok (), st')
    \<and> (\<forall>e. below (view (as_db st)) d e \<longrightarrow> t_dirs (view (as_db st')) (dir_key e) = None
         \<and> t_dirs (view (as_db st')) (b, n, d_name e) \<noteq> None)"
  by (rule reliable_cql.rename_tree [OF assms(1) refl assms(2-)])

theorem rename_flattens_witness:
  "\<exists>st'. do_rename_directory two_nodes_env \<lparr>e_app_id = 6, e_bucket_id = 7, e_path = ''a''\<rparr> ''x'' full_accessor
       (two_nodes (\<lambda>_. 10) sample_tree) = Some (Ok (), st')
     \<and> t_dirs (mem_view (as_db st')) (7, ''a/b'', ''c'') = None \<and> t_dirs (mem_view (as_db st')) (7, ''x'', ''c'') \<noteq> None"
proof -
  let ?st = "two_nodes (\<lambda>_. 10) sample_tree" and ?d = "sample_dir '''' ''a'' 1"
  have db: "as_db ?st = sample_tree" by (simp add: two_nodes_def)
  have "\<exists>st'. do_rename_directory two_nodes_env \<lparr>e_app_id = 6, e_bucket_id = 7, e_path = ''a''\<rparr> ''x'' full_accessor ?st
      = Some (Ok (), st')
    \<and> (\<forall>e. below (mem_view (as_db ?st)) ?d e \<longrightarrow> t_dirs (mem_view (as_db st')) (dir_key e) = None
         \<and> t_dirs (mem_view (as_db st')) (7, ''x'', d_name e) \<noteq> None)"
  proof (rule rename_flattens)
    show "reliable_cql (ae_cql two_nodes_env) mem_view"
      using mem_up.reliable_cql_axioms by (simp add: two_nodes_env_def)
    show "row_of (mem_view (as_db ?st)) 7 ?d" by (simp add: db sample_rows) (simp add: sample_tree_def no_rows_def)
    show "get_directory (ae_cql two_nodes_env) (as_db ?st) 7
        (Some (e_path \<lparr>e_app_id = 6, e_bucket_id = 7, e_path = ''a''\<rparr>)) = Ok (Some ?d)"
      using mem_up.get_directory_at [of "[''a'']" sample_tree 7]
      by (simp add: two_nodes_env_def db names_sample_a dir_at_def path_key_def)
        (simp add: mem_view_def sample_tree_def no_rows_def rows_map_def sample_dir_def dir_key_def)
    show "name_seg ''x''" by (simp add: name_seg_def plain_seg_def is_sep_def)
    show "t_dirs (mem_view (as_db ?st)) (7, [], ''x'') = None"
      unfolding db by (simp add: mem_view_def sample_tree_def no_rows_def rows_map_def sample_dir_def dir_key_def)
  qed (use sample_plain in \<open>simp_all add: db sample_dir_def\<close>)
  then obtain st' where st': "do_rename_directory two_nodes_env \<lparr>e_app_id = 6, e_bucket_id = 7, e_path = ''a''\<rparr> ''x''
        full_accessor ?st = Some (Ok (), st')"
    "\<forall>e. below (mem_view (as_db ?st)) ?d e \<longrightarrow> t_dirs (mem_view (as_db st')) (dir_key e) = None
         \<and> t_dirs (mem_view (as_db st')) (7, ''x'', d_name e) \<noteq> None" by (elim exE conjE) (rule that)
  from st'(2) [unfolded db] sample_below have "t_dirs (mem_view (as_db st')) (dir_key (sample_dir ''a/b'' ''c'' 3)) = None
      \<and> t_dirs (mem_view (as_db st')) (7, ''x'', d_name (sample_dir ''a/b'' ''c'' 3)) \<noteq> None" by blast
  then show ?thesis using st'(1) by (simp add: dir_key_def sample_dir_def)
qed

end
