(* ===== verification/File_Listing.thy ===== *)
theory File_Listing
  imports Directory_Services
begin

section \<open>Listing files and directories\<close>

text \<open>
  \<^verbatim>\<open>node/src/public/service/file_list_service.rs\<close> with the answers of
  \<^verbatim>\<open>data/src/dto/entity.rs\<close>. The requests only read: each is a function of the database. The
  order of the rows is the one the database gives them.
\<close>

record Entity =
  en_name :: string
  en_dir :: "uuid option"
  en_dir_id :: "uuid option"
  en_size :: u64
  en_is_dir :: bool
  en_created :: timestamp
  en_last_modified :: timestamp

record BucketDto =
  dto_app_id :: uuid
  dto_id :: uuid
  dto_name :: string
  dto_encrypted :: bool
  dto_atomic_upload :: bool
  dto_quota :: i64
  dto_file_count :: i64
  dto_space_taken :: i64
  dto_created :: timestamp
  dto_last_modified :: timestamp

definition bucket_dto_from :: "Bucket \<Rightarrow> BucketDto" where
  "bucket_dto_from b =
     \<lparr>dto_app_id = b_app_id b, dto_id = b_id b, dto_name = b_name b, dto_encrypted = encrypted b,
      dto_atomic_upload = atomic_upload b, dto_quota = b_quota b, dto_file_count = file_count b,
      dto_space_taken = space_taken b, dto_created = b_created b, dto_last_modified = b_last_modified b\<rparr>"

subsection \<open>Pages\<close>

record PaginationInfo =
  pg_start :: "u64 option"
  pg_end :: "u64 option"

definition is_paginated :: "PaginationInfo \<Rightarrow> bool" where
  "is_paginated p \<longleftrightarrow> pg_start p \<noteq> None \<or> pg_end p \<noteq> None"

definition page_completed :: "PaginationInfo \<Rightarrow> PaginationInfo" where
  "page_completed p =
     \<lparr>pg_start = Some (case pg_start p of None \<Rightarrow> 0 | Some s \<Rightarrow> s),
      pg_end = Some (case pg_start p of None \<Rightarrow> - 1 | Some s \<Rightarrow> s)\<rparr>"

definition pagination_validate :: "PaginationInfo \<Rightarrow> unit node_result" where
  "pagination_validate p =
     (if is_paginated p
      then let valid = page_completed p in
           if the (pg_start valid) \<ge> the (pg_end valid) then Err BadRequest else Ok ()
      else Ok ())"

subsection \<open>Entities\<close>

definition dir_entity :: "string \<Rightarrow> Directory \<Rightarrow> Entity" where
  "dir_entity name d =
     \<lparr>en_name = name, en_dir = None, en_dir_id = Some (d_id d), en_size = 0, en_is_dir = True,
      en_created = d_created d, en_last_modified = d_last_modified d\<rparr>"

definition file_entity :: "uuid option \<Rightarrow> File \<Rightarrow> Entity" where
  "file_entity dir f =
     \<lparr>en_name = f_name f, en_dir = dir, en_dir_id = None, en_size = as_u64 (f_size f), en_is_dir = False,
      en_created = f_created f, en_last_modified = f_last_modified f\<rparr>"

text \<open>An item of the stream that is an error is left out.\<close>

definition collect_files :: "File data_result list \<Rightarrow> bool \<Rightarrow> Entity list" where
  "collect_files files include_dir =
     concat (map (\<lambda>item. case item of
        Ok f \<Rightarrow> [file_entity (if include_dir then Some (f_directory f) else None) f]
      | Err _ \<Rightarrow> []) files)"

lemma collect_rows:
  "collect_files (map Ok fs) include_dir =
     map (\<lambda>f. file_entity (if include_dir then Some (f_directory f) else None) f) fs"
  by (induction fs) (simp_all add: collect_files_def)

subsection \<open>Requests\<close>

definition do_list_bucket_files ::
    "'db cql \<Rightarrow> 'db \<Rightarrow> uuid \<Rightarrow> uuid \<Rightarrow> BucketAccessor \<Rightarrow> PaginationInfo \<Rightarrow> Entity list node_result" where
  "do_list_bucket_files c db app_id bucket_id accessor pagination_info =
     and_then (pagination_validate pagination_info) (\<lambda>_.
     and_then (has_permission accessor app_id bucket_id LIST_BUCKET_ALLOWANCE) (\<lambda>_.
     and_then (map_err node_from_data
       (if is_paginated pagination_info
        then let complete = page_completed pagination_info in
             get_files_from_bucket_paginated c db bucket_id (the (pg_start complete)) (the (pg_end complete))
        else get_files_from_bucket c db bucket_id)) (\<lambda>files.
     Ok (collect_files files True))))"

definition do_list_bucket_directories ::
    "'db cql \<Rightarrow> 'db \<Rightarrow> uuid \<Rightarrow> uuid \<Rightarrow> BucketAccessor \<Rightarrow> PaginationInfo \<Rightarrow> Entity list node_result" where
  "do_list_bucket_directories c db app_id bucket_id accessor pagination_info =
     and_then (pagination_validate pagination_info) (\<lambda>_.
     and_then (has_permission accessor app_id bucket_id LIST_BUCKET_ALLOWANCE) (\<lambda>_.
     and_then (map_err node_from_data
       (if is_paginated pagination_info
        then let complete = page_completed pagination_info in
             get_directories_from_bucket_paginated c db bucket_id (the (pg_start complete)) (the (pg_end complete))
        else get_directories_from_bucket c db bucket_id)) (\<lambda>sub_dirs.
     Ok (map (\<lambda>dir. dir_entity (directory_full_path dir) dir) sub_dirs))))"

text \<open>The two loops stop when \<open>length\<close>, a \<open>u64\<close>, has come down to zero.\<close>

fun fill :: "u64 \<Rightarrow> Entity list \<Rightarrow> Entity list \<times> u64" where
  "fill room [] = ([], room)"
| "fill room (x # xs) =
     (if room = 0 then ([], room) else let (entries, rest) = fill (room - 1) xs in (x # entries, rest))"

definition do_list_dir ::
    "'db cql \<Rightarrow> 'db \<Rightarrow> EntryPath \<Rightarrow> BucketAccessor \<Rightarrow> PaginationInfo \<Rightarrow> Entity list node_result" where
  "do_list_dir c db e accessor pagination_info =
     and_then (pagination_validate pagination_info) (\<lambda>_.
     and_then (has_permission accessor (e_app_id e) (e_bucket_id e) LIST_DIR_ALLOWANCE) (\<lambda>_.
     and_then (map_err node_from_data (get_directory c db (e_bucket_id e)
                 (if e_path e = [] then None else Some (e_path e)))) (\<lambda>dir.
     and_then (map_err node_from_data (get_sub_dirs c db (e_bucket_id e) (e_path e))) (\<lambda>sub_dirs.
     let complete = page_completed pagination_info;
         (entries, room) = fill (saturating_sub (the (pg_end complete)) (the (pg_start complete)))
                             (map (\<lambda>d. dir_entity (d_name d) d) sub_dirs)
     in if room > 0
        then and_then (map_err node_from_data
               (get_files_from_bucket_and_directory c db (e_bucket_id e) (map_option d_id dir))) (\<lambda>files.
             Ok (entries @ fst (fill room (collect_files files False))))
        else Ok entries))))"

definition do_stat_file :: "'db cql \<Rightarrow> 'db \<Rightarrow> EntryPath \<Rightarrow> BucketAccessor \<Rightarrow> Entity node_result" where
  "do_stat_file c db e accessor =
     and_then (has_permission accessor (e_app_id e) (e_bucket_id e) DOWNLOAD_ALLOWANCE) (\<lambda>_.
     if e_path e = [] then Err NotFound
     else
       let (maybe_dir, filename) = split_path (e_path e);
           dir_result = get_directory c db (e_bucket_id e) (Some (e_path e));
           file_result = get_file_dir c db (e_bucket_id e) maybe_dir filename
       in if \<not> is_ok dir_result \<and> \<not> is_ok file_result then Err NotFound
          else case dir_result of
                 Ok (Some dir) \<Rightarrow> Ok (dir_entity (d_name dir) dir)
               | _ \<Rightarrow> (case file_result of
                          Ok (f, dir) \<Rightarrow> Ok (file_entity (map_option d_id dir) f)
                        | Err _ \<Rightarrow> Err InternalError))"

definition do_fetch_bucket_info ::
    "'db cql \<Rightarrow> 'db \<Rightarrow> uuid \<Rightarrow> uuid \<Rightarrow> BucketAccessor \<Rightarrow> BucketDto node_result" where
  "do_fetch_bucket_info c db app_id bucket_id accessor =
     and_then (has_permission accessor app_id bucket_id FETCH_BUCKET_INFO_ALLOWANCE) (\<lambda>_.
     and_then (map_err node_from_data (get_bucket c db app_id bucket_id)) (\<lambda>bucket.
     Ok (bucket_dto_from bucket)))"

subsection \<open>Complete listings\<close>

lemma fill_all:
  "length xs \<le> unat room \<Longrightarrow> fill room xs = (xs, room - of_nat (length xs))"
proof (induction xs arbitrary: room)
  case (Cons x xs)
  then have "room \<noteq> 0" by auto
  then have "length xs \<le> unat (room - 1)" using Cons.prems by (simp add: unat_minus_one)
  from Cons.IH [OF this] \<open>room \<noteq> 0\<close> show ?case by (simp add: algebra_simps)
qed simp

definition entries_of :: "tables \<Rightarrow> uuid \<Rightarrow> string \<Rightarrow> uuid \<Rightarrow> Entity set" where
  "entries_of t b p i =
     (\<lambda>d. dir_entity (d_name d) d) ` {d. row_of t b d \<and> d_parent d = p}
     \<union> file_entity None ` {f. t_files t (file_key f) = Some f \<and> f_bucket_id f = b \<and> f_directory f = i}"

context reliable_cql
begin

lemma sub_dirs_at:
  "\<exists>ds. get_sub_dirs c db b p = Ok ds \<and> distinct ds \<and> set ds = {d. row_of (view db) b d \<and> d_parent d = p}"
  using sel_dirs_parent_up [of db b p] sel_dirs_parent_ok
  by (fastforce simp: get_sub_dirs_def row_of_def distinct_map)

lemma files_at:
  "\<exists>fs. get_files_from_bucket_and_directory c db b dir = Ok (map Ok fs) \<and> distinct fs
     \<and> set fs = {f. t_files (view db) (file_key f) = Some f \<and> f_bucket_id f = b \<and> f_directory f = or_root dir}"
proof -
  obtain fs where fs: "sel_files_dir c db b (or_root dir) = Ok fs" using sel_files_dir_up by blast
  have "map (file_item c db) fs = map Ok fs" by (simp add: file_item_up)
  then have "get_files_from_bucket_and_directory c db b dir = Ok (map Ok fs)"
    by (simp add: get_files_from_bucket_and_directory_def stream_of_files_def fs)
  with sel_files_dir_ok [OF fs] show ?thesis by (auto simp: distinct_map)
qed

end

lemma full_page:
  assumes "pg_start p = None"
  shows "pagination_validate p = Ok ()" "saturating_sub (the (pg_end (page_completed p))) (the (pg_start (page_completed p))) = - 1"
  using assms by (simp_all add: pagination_validate_def page_completed_def saturating_sub_def Let_def)

context reliable_cql
begin

lemma list_dir_all:
  assumes page: "pg_start p = None" and ok: "has_permission accessor (e_app_id e) b LIST_DIR_ALLOWANCE = Ok ()" "e_bucket_id e = b"
    and dir: "get_directory c db b (if e_path e = [] then None else Some (e_path e)) = Ok dir"
    and few: "card {d. row_of (view db) b d \<and> d_parent d = e_path e}
      + card {f. t_files (view db) (file_key f) = Some f \<and> f_bucket_id f = b \<and> f_directory f = or_root (map_option d_id dir)}
      < 2 ^ 64 - 1"
  shows "\<exists>es. do_list_dir c db e accessor p = Ok es \<and> set es = entries_of (view db) b (e_path e) (or_root (map_option d_id dir))
    \<and> length es = card {d. row_of (view db) b d \<and> d_parent d = e_path e}
      + card {f. t_files (view db) (file_key f) = Some f \<and> f_bucket_id f = b \<and> f_directory f = or_root (map_option d_id dir)}"
proof -
  obtain ds where ds: "get_sub_dirs c db b (e_path e) = Ok ds" "distinct ds"
    "set ds = {d. row_of (view db) b d \<and> d_parent d = e_path e}" using sub_dirs_at by blast
  obtain fs where fs: "get_files_from_bucket_and_directory c db b (map_option d_id dir) = Ok (map Ok fs)" "distinct fs"
    "set fs = {f. t_files (view db) (file_key f) = Some f \<and> f_bucket_id f = b \<and> f_directory f = or_root (map_option d_id dir)}"
    using files_at by blast
  have lens: "length ds + length fs < 2 ^ 64 - 1"
    using few distinct_card [OF ds(2)] distinct_card [OF fs(2)] by (simp add: ds(3) fs(3))
  let ?dirs = "map (\<lambda>d. dir_entity (d_name d) d) ds" and ?room = "- 1 - (of_nat (length ds) :: u64)"
  have all: "unat (- 1 :: u64) = 2 ^ 64 - 1" by (simp add: unsigned_minus_1_eq_mask mask_eq_exp_minus_1)
  have small: "unat (of_nat (length ds) :: u64) = length ds" by (rule unat_of_nat_small) (use lens in simp)
  have room: "unat ?room = 2 ^ 64 - 1 - length ds"
    using unat_sub [of "of_nat (length ds) :: u64" "- 1"] all small by simp
  then have "?room > 0" using lens by (metis add_lessD1 unat_0 word_gt_0 zero_less_diff less_irrefl)
  moreover have "fill (- 1) ?dirs = (?dirs, ?room)" using fill_all [of ?dirs "- 1"] all lens by simp
  moreover have "fst (fill ?room (collect_files (map Ok fs) False)) = collect_files (map Ok fs) False"
    by (subst fill_all) (use room lens in \<open>simp_all add: collect_rows\<close>)
  ultimately have "do_list_dir c db e accessor p = Ok (?dirs @ collect_files (map Ok fs) False)"
    using full_page [OF page] ok dir ds(1) fs(1) by (simp add: do_list_dir_def Let_def)
  moreover have "set (?dirs @ collect_files (map Ok fs) False) = entries_of (view db) b (e_path e) (or_root (map_option d_id dir))"
    by (simp add: entries_of_def collect_rows ds(3) fs(3))
  moreover have "length (?dirs @ collect_files (map Ok fs) False) = card (set ds) + card (set fs)"
    by (simp add: collect_rows distinct_card ds(2) fs(2))
  ultimately show ?thesis unfolding ds(3) fs(3) by blast
qed

end

text \<open>C29. A listing is complete. Without a start, and whatever end is given, listing a directory that
  exists returns, on a database that answers, one entry for every directory directly in it and for every
  file stored under its id, and nothing else; the root is listed with the id of the root directory.\<close>

theorem list_dir_complete:
  assumes "reliable_cql c view" "pg_start p = None"
    "has_permission accessor (e_app_id e) b LIST_DIR_ALLOWANCE = Ok ()" "e_bucket_id e = b"
    "get_directory c db b (if e_path e = [] then None else Some (e_path e)) = Ok dir"
    "card {d. row_of (view db) b d \<and> d_parent d = e_path e}
      + card {f. t_files (view db) (file_key f) = Some f \<and> f_bucket_id f = b \<and> f_directory f = or_root (map_option d_id dir)}
      < 2 ^ 64 - 1"
  shows "\<exists>es. do_list_dir c db e accessor p = Ok es \<and> set es = entries_of (view db) b (e_path e) (or_root (map_option d_id dir))
    \<and> length es = card {d. row_of (view db) b d \<and> d_parent d = e_path e}
      + card {f. t_files (view db) (file_key f) = Some f \<and> f_bucket_id f = b \<and> f_directory f = or_root (map_option d_id dir)}"
  by (rule reliable_cql.list_dir_all [OF assms])

theorem list_dir_complete_witness:
  "\<exists>es. do_list_dir mem_cql sample_tree \<lparr>e_app_id = 6, e_bucket_id = 7, e_path = ''''\<rparr> full_accessor
       \<lparr>pg_start = None, pg_end = None\<rparr> = Ok es \<and> dir_entity ''a'' (sample_dir '''' ''a'' 1) \<in> set es"
proof -
  let ?e = "\<lparr>e_app_id = 6, e_bucket_id = 7, e_path = ''''\<rparr>"
  have dirs: "{d. row_of (mem_view sample_tree) 7 d \<and> d_parent d = ''''} = {sample_dir '''' ''a'' 1}"
    by (auto simp: sample_rows) (auto simp: sample_tree_def no_rows_def sample_dir_def)
  have files: "t_files (mem_view sample_tree) k = None" for k
    by (simp add: mem_view_def sample_tree_def no_rows_def rows_map_def)
  have "\<exists>es. do_list_dir mem_cql sample_tree ?e full_accessor \<lparr>pg_start = None, pg_end = None\<rparr> = Ok es
      \<and> set es = entries_of (mem_view sample_tree) 7 (e_path ?e) (or_root (map_option d_id (None :: Directory option)))
      \<and> length es = card {d. row_of (mem_view sample_tree) 7 d \<and> d_parent d = e_path ?e}
      + card {f. t_files (mem_view sample_tree) (file_key f) = Some f \<and> f_bucket_id f = 7
          \<and> f_directory f = or_root (map_option d_id (None :: Directory option))}"
    by (rule list_dir_complete [OF mem_up.reliable_cql_axioms])
      (simp_all add: dirs files get_directory_def)
  moreover have "dir_entity ''a'' (sample_dir '''' ''a'' 1) \<in> entries_of (mem_view sample_tree) 7 '''' i" for i
    unfolding entries_of_def dirs by (simp add: sample_dir_def)
  ultimately show ?thesis by auto
qed

text \<open>A start can never be given. \<open>completed\<close> takes the end of a page from its start, so every page
  with a start is empty and refused: all three listings answer \<open>BadRequest\<close> to a request with a
  start, for any end, any caller and any contents.\<close>

theorem page_start_rejected:
  "\<forall>s x. let p = \<lparr>pg_start = Some s, pg_end = x\<rparr> in
      do_list_dir c db e accessor p = Err BadRequest
    \<and> do_list_bucket_files c db a b accessor p = Err BadRequest
    \<and> do_list_bucket_directories c db a b accessor p = Err BadRequest"
  by (simp add: do_list_dir_def do_list_bucket_files_def do_list_bucket_directories_def pagination_validate_def
      is_paginated_def page_completed_def Let_def)

end
