(* ===== verification/File_Download.thy ===== *)
theory File_Download
  imports Directory_Services
begin

section \<open>Downloads\<close>

text \<open>
  \<open>handle_download\<close> of \<^verbatim>\<open>node/src/public/service/file_access_service.rs\<close>. A request first looks
  up the file and decides which bytes of which chunk to send; the task it spawns then reads the chunks
  one after the other, on this node or from their nodes, and appends them to the answer. The range of a
  request is resolved against the size of the file by the HTTP library: the argument \<open>satisfiable\<close>; the
  media type is guessed by a library from the name: the argument \<open>guess\<close>.
\<close>

record DlInfo =
  dl_size :: u64
  dl_attachment_name :: string
  dl_mime :: string

definition into_option :: "ChunkRange \<Rightarrow> ChunkRange option" where
  "into_option r = (if rng_start r + rng_end r \<noteq> 0 then Some r else None)"

text \<open>The part of one chunk, which starts at \<open>start\<close> of the file, that lies in a range: \<open>None\<close> for
  nothing, the default range for all of it.\<close>

definition chunk_part :: "u64 \<times> u64 \<Rightarrow> i64 \<Rightarrow> FileChunk \<Rightarrow> ChunkRange option node_result" where
  "chunk_part rng start chunk =
     (let end_of = wrap_i64 (i64_add start (chunk_size chunk) - 1);
          in_range_start = max start (as_i64 (fst rng));
          in_range_end = min end_of (as_i64 (snd rng))
      in if in_range_end < in_range_start then Ok None
         else if in_range_end \<noteq> end_of \<or> in_range_start \<noteq> start
         then and_then (map_err node_from_mdsftp
                (chunk_range_new (as_u64 (wrap_i64 (in_range_start - start)))
                   (as_u64 (wrap_i64 (i64_add in_range_end 1 - start))))) (\<lambda>r. Ok (Some r))
         else Ok (Some chunk_range_default))"

fun chunk_parts :: "u64 \<times> u64 \<Rightarrow> i64 \<Rightarrow> FileChunk list \<Rightarrow> ChunkRange option list node_result" where
  "chunk_parts rng start [] = Ok []"
| "chunk_parts rng start (chunk # chunks) =
     and_then (chunk_part rng start chunk) (\<lambda>part.
     and_then (chunk_parts rng (i64_add start (chunk_size chunk)) chunks) (\<lambda>parts.
     Ok (part # parts)))"

fun send_chunks ::
    "('st, 'db) app_env \<Rightarrow> (FileChunk \<times> ChunkRange option) list \<Rightarrow> u8 list \<Rightarrow> (u8 list, 'st, 'db) service" where
  "send_chunks env [] output = of_result (Ok output)"
| "send_chunks env ((chunk, part) # parts) output =
     (case part of
        None \<Rightarrow> send_chunks env parts output
      | Some rng \<Rightarrow>
          then_svc (outbound_transfer env output (server_id chunk) (chunk_id chunk) (into_option rng))
            (send_chunks env parts))"

text \<open>The spawned task: all chunks, then the end of the output.\<close>

definition download_task ::
    "('st, 'db) app_env \<Rightarrow> (FileChunk \<times> ChunkRange option) list \<Rightarrow> (u8 list, 'st, 'db) service" where
  "download_task env parts =
     then_svc (send_chunks env parts []) (\<lambda>output.
     of_result (if ae_output_ok env then Ok output else Err InternalError))"

definition handle_download ::
    "('st, 'db) app_env \<Rightarrow> ('spec \<Rightarrow> u64 \<Rightarrow> (u64 \<times> u64) option) \<Rightarrow> (string \<Rightarrow> string) \<Rightarrow> EntryPath \<Rightarrow> BucketAccessor \<Rightarrow>
     'spec option \<Rightarrow> 'db \<Rightarrow> (DlInfo \<times> (FileChunk \<times> ChunkRange option) list) node_result" where
  "handle_download env satisfiable guess e accessor rng db =
     and_then (has_permission accessor (e_app_id e) (e_bucket_id e) DOWNLOAD_ALLOWANCE) (\<lambda>_.
     let (dir, name) = split_path (e_path e) in
     and_then (map_err node_from_data (get_file_dir (ae_cql env) db (e_bucket_id e) dir name)) (\<lambda>(file, _).
     and_then (case rng of
                 None \<Rightarrow> Ok None
               | Some spec \<Rightarrow> (case satisfiable spec (as_u64 (f_size file)) of
                                None \<Rightarrow> Err RangeUnsatisfiable
                              | Some r \<Rightarrow> Ok (Some r))) (\<lambda>rng.
     let chunk_ids = sort_key chunk_order (f_chunk_ids file) in
     and_then (case rng of
                 None \<Rightarrow> Ok (replicate (length chunk_ids) (Some chunk_range_default))
               | Some r \<Rightarrow> chunk_parts r 0 chunk_ids) (\<lambda>chunk_ranges.
     Ok (\<lparr>dl_size = as_u64 (f_size file), dl_attachment_name = name, dl_mime = guess name\<rparr>,
         zip chunk_ids chunk_ranges)))))"

subsection \<open>The bytes of a range\<close>

text \<open>The bytes \<open>lo\<close> to \<open>hi\<close> of a file, as far as they lie in a piece of it that starts at \<open>start\<close>.\<close>

definition window :: "nat \<Rightarrow> nat \<Rightarrow> nat \<Rightarrow> 'a list \<Rightarrow> 'a list" where
  "window lo hi start xs = drop (lo - start) (take (Suc hi - start) xs)"

lemma window_append: "window lo hi start (xs @ ys) = window lo hi start xs @ window lo hi (start + length xs) ys"
  by (cases "Suc hi - start \<le> length xs") (auto simp: window_def)

lemma window_empty: "Suc hi \<le> start \<or> start + length xs \<le> lo \<Longrightarrow> window lo hi start xs = []"
  by (auto simp: window_def)

lemma into_option_default [simp]: "into_option chunk_range_default = None"
  by (simp add: into_option_def chunk_range_default_def)

lemma unat_as_u64: "0 \<le> i \<Longrightarrow> i < 2 ^ 63 \<Longrightarrow> unat (as_u64 i) = nat i"
  by (simp add: as_u64_def unat_eq_nat_uint uint_word_of_int_eq take_bit_int_eq_self)

lemma into_option_proper: "unat (rng_start r) < unat (rng_end r) \<Longrightarrow> unat (rng_end r) < 2 ^ 63 \<Longrightarrow> into_option r = Some r"
proof -
  assume a: "unat (rng_start r) < unat (rng_end r)" "unat (rng_end r) < 2 ^ 63"
  then have "unat (rng_start r + rng_end r) = unat (rng_start r) + unat (rng_end r)" by (subst unat_word_ariths) simp
  with a(1) have "rng_start r + rng_end r \<noteq> 0" by (auto simp: unat_eq_zero)
  then show ?thesis by (simp add: into_option_def)
qed

lemma chunk_part_window:
  assumes size: "chunk_size c = int (length bs)" "bs \<noteq> []" "start + length bs < 2 ^ 63"
    and rng: "unat (fst rng) \<le> unat (snd rng)" "unat (snd rng) < 2 ^ 63"
  shows "\<exists>part. chunk_part rng (int start) c = Ok part \<and>
    (case part of None \<Rightarrow> window (unat (fst rng)) (unat (snd rng)) start bs = []
     | Some r \<Rightarrow> range_within (into_option r) bs \<and>
         range_bytes (into_option r) bs = window (unat (fst rng)) (unat (snd rng)) start bs)"
proof -
  define last_of where "last_of = start + length bs - 1"
  let ?lo = "unat (fst rng)" and ?hi = "unat (snd rng)"
  define s where "s = max start ?lo"
  define e where "e = min last_of ?hi"
  have len: "Suc last_of = start + length bs" using size(2) by (simp add: last_of_def)
  have "as_i64 (fst rng) = int ?lo" "as_i64 (snd rng) = int ?hi" using rng by (simp_all add: as_i64_small)
  moreover have "wrap_i64 (i64_add (int start) (chunk_size c) - 1) = int last_of"
    using size(1,3) len by (simp add: i64_add_def in_i64_def)
  ultimately have run: "chunk_part rng (int start) c =
      (if e < s then Ok None
       else if e \<noteq> last_of \<or> s \<noteq> start
       then and_then (map_err node_from_mdsftp
              (chunk_range_new (as_u64 (wrap_i64 (int s - int start)))
                 (as_u64 (wrap_i64 (i64_add (int e) 1 - int start))))) (\<lambda>r. Ok (Some r))
       else Ok (Some chunk_range_default))"
    unfolding chunk_part_def Let_def s_def e_def
    by (simp only: of_nat_max [symmetric] of_nat_min [symmetric] of_nat_less_iff of_nat_eq_iff)
  consider "e < s" | "s \<le> e" "e \<noteq> last_of \<or> s \<noteq> start" | "e = last_of" "s = start"
    by linarith
  then show ?thesis
  proof cases
    case 1
    then have "Suc ?hi \<le> start \<or> start + length bs \<le> ?lo" using len rng size(2) by (cases bs) (auto simp: s_def e_def min_def max_def split: if_splits)
    then have "window ?lo ?hi start bs = []" by (rule window_empty)
    with 1 run show ?thesis by simp
  next
    case 2
    obtain m n where m: "s = start + m" and n: "Suc e = start + n" "m < n" "n \<le> length bs"
    proof
      have le: "start \<le> s" "Suc e \<le> start + length bs" using len by (simp_all add: s_def e_def)
      show "s = start + (s - start)" "Suc e = start + (Suc e - start)" "s - start < Suc e - start"
        "Suc e - start \<le> length bs" using le 2(1) by linarith+
    qed
    let ?r = "\<lparr>rng_start = as_u64 (int m), rng_end = as_u64 (int n)\<rparr>"
    have u: "unat (rng_start ?r) = m" "unat (rng_end ?r) = n" using n size(3) by (simp_all add: unat_as_u64)
    then have lt: "unat (rng_start ?r) < unat (rng_end ?r)" "unat (rng_end ?r) \<le> length bs" using n by simp_all
    have "int e + 1 = int start + int n" using n(1) by linarith
    then have "wrap_i64 (i64_add (int e) 1 - int start) = int n"
      using n size(3) by (simp add: i64_add_def in_i64_def)
    moreover have "wrap_i64 (int s - int start) = int m" using m n size(3) by (simp add: in_i64_def)
    ultimately have "chunk_part rng (int start) c = Ok (Some ?r)"
      using 2 n(2) u by (simp add: run chunk_range_new_def word_le_nat_alt)
    moreover have "into_option ?r = Some ?r" by (rule into_option_proper [OF lt(1)]) (use lt(2) size(3) in linarith)
    moreover have "range_bytes (Some ?r) bs = window ?lo ?hi start bs"
    proof -
      have "n = min (length bs) (Suc ?hi - start)" using len n unfolding e_def by linarith
      then have "take n bs = take (Suc ?hi - start) bs" by (metis min.commute take_take take_all order_refl)
      moreover have "m = ?lo - start" using m unfolding s_def by linarith
      ultimately show ?thesis unfolding window_def range_bytes_def option.case u by (metis drop_take)
    qed
    ultimately show ?thesis using lt by (simp add: range_within_def word_less_nat_alt)
  next
    case 3
    then have "chunk_part rng (int start) c = Ok (Some chunk_range_default)"
      using len size(2) by (cases bs) (simp_all add: run)
    moreover have "window ?lo ?hi start bs = bs" using 3 len unfolding s_def e_def by (simp add: window_def)
    ultimately show ?thesis by (simp add: range_within_def range_bytes_def)
  qed
qed

text \<open>The parts chosen for a list of chunks: what each contributes of its bytes.\<close>

definition part_bytes :: "ChunkRange option \<Rightarrow> u8 list \<Rightarrow> u8 list" where
  "part_bytes part bs = (case part of None \<Rightarrow> [] | Some r \<Rightarrow> range_bytes (into_option r) bs)"

definition part_fits :: "ChunkRange option \<Rightarrow> u8 list \<Rightarrow> bool" where
  "part_fits part bs = (case part of None \<Rightarrow> True | Some r \<Rightarrow> range_within (into_option r) bs)"

lemma chunk_parts_window:
  assumes "list_all2 (\<lambda>c bs. chunk_size c = int (length bs) \<and> bs \<noteq> []) cs bss"
    "start + length (concat bss) < 2 ^ 63" "unat (fst rng) \<le> unat (snd rng)" "unat (snd rng) < 2 ^ 63"
  shows "\<exists>parts. chunk_parts rng (int start) cs = Ok parts \<and> list_all2 part_fits parts bss
    \<and> concat (map2 part_bytes parts bss) = window (unat (fst rng)) (unat (snd rng)) start (concat bss)"
  using assms(1,2)
proof (induction cs bss arbitrary: start rule: list_all2_induct)
  case (Cons c cs bs bss)
  have c: "chunk_size c = int (length bs)" "bs \<noteq> []" and len: "start + length bs + length (concat bss) < 2 ^ 63"
    using Cons by auto
  then have "start + length bs < 2 ^ 63" by linarith
  from chunk_part_window [OF c this assms(3,4)] obtain part where part: "chunk_part rng (int start) c = Ok part"
    "part_fits part bs" "part_bytes part bs = window (unat (fst rng)) (unat (snd rng)) start bs"
    unfolding part_fits_def part_bytes_def by (auto split: option.splits)
  have "i64_add (int start) (chunk_size c) = int (start + length bs)" using c len by (simp add: i64_add_def in_i64_def)
  with Cons.IH [OF len] part show ?case by (auto simp: window_append)
qed (simp add: window_def)

subsection \<open>Sending the chunks\<close>

text \<open>A chunk is served with its bytes: its node holds it, and if that is another node, it answers and
  nobody writes the chunk.\<close>

definition serves :: "('st, 'db) app_env \<Rightarrow> ('st, 'db) app_state \<Rightarrow> FileChunk \<Rightarrow> u8 list \<Rightarrow> bool" where
  "serves env st c bs \<longleftrightarrow> bs \<noteq> [] \<and> chunk_size c = int (length bs)
     \<and> holds_chunk (ae_ledger env (server_id c)) (as_ledger st (server_id c)) (chunk_id c) bs
     \<and> (server_id c = ae_self env
        \<or> ae_channel env (server_id c) = Ok () \<and> readable (as_locks st (server_id c)) (chunk_id c)
          \<and> ae_fragment_size env (server_id c) \<noteq> 0
          \<and> length bs div unat (ae_fragment_size env (server_id c)) \<le> 2 ^ 32 - 2)"

text \<open>The client's connection takes all bytes.\<close>

definition output_works :: "('st, 'db) app_env \<Rightarrow> bool" where
  "output_works env \<longleftrightarrow> ae_link env (ae_self env) \<and> ae_output_ok env \<and> ae_finish_ok env (ae_self env) False"

lemma outbound_transfer_Ok:
  assumes "output_works env" "serves env st c bs" "range_within rng bs"
  shows "\<exists>st'. outbound_transfer env out (server_id c) (chunk_id c) rng st = Some (Ok (out @ range_bytes rng bs), st')
    \<and> as_ledger st' = as_ledger st \<and> as_db st' = as_db st
    \<and> (\<forall>c' bs'. serves env st c' bs' \<longrightarrow> serves env st' c' bs')"
proof (cases "server_id c = ae_self env")
  case True
  have bs: "fragment_read_stream (ae_ledger env (ae_self env)) (chunk_id c) (as_ledger st (ae_self env)) = Ok bs"
    using assms(2) True by (simp add: serves_def holds_chunk_def)
  have "local_outbound env (chunk_id c) rng st = Some (Ok (range_bytes rng bs), st)"
    using assms(1,3) bs
    by (auto simp: local_outbound_def output_works_def range_bytes_def range_within_def chunk_range_size_def unat_sub
        word_le_nat_alt word_less_nat_alt split: option.splits)
  with True show ?thesis by (simp add: outbound_transfer_def then_svc_def)
next
  case False
  obtain st' where st': "remote_outbound env (server_id c) (chunk_id c) rng st = Some (Ok (range_bytes rng bs), st')"
    "as_ledger st' = as_ledger st" "as_db st' = as_db st" "\<forall>m j. readable (as_locks st m) j \<longrightarrow> readable (as_locks st' m) j"
    using remote_outbound_Ok [of env "server_id c" st "chunk_id c" bs rng] assms False
    unfolding serves_def output_works_def by blast
  have "serves env st' c' bs'" if "serves env st c' bs'" for c' bs'
    using that st'(2,4) by (auto simp: serves_def)
  with st' False show ?thesis by (simp add: outbound_transfer_def then_svc_def)
qed

lemma send_chunks_Ok:
  assumes "output_works env" "list_all2 (serves env st) cs bss" "list_all2 part_fits parts bss"
  shows "\<exists>st'. send_chunks env (zip cs parts) out st = Some (Ok (out @ concat (map2 part_bytes parts bss)), st')
    \<and> as_ledger st' = as_ledger st \<and> as_db st' = as_db st"
  using assms(2,3)
proof (induction cs arbitrary: bss parts out st)
  case (Cons c cs)
  then obtain bs bss' part parts' where lists: "bss = bs # bss'" "parts = part # parts'"
    and head: "serves env st c bs" "part_fits part bs"
    and rest: "list_all2 (serves env st) cs bss'" "list_all2 part_fits parts' bss'"
    by (auto simp: list_all2_Cons1 list_all2_Cons2)
  show ?case
  proof (cases part)
    case None
    with Cons.IH [OF rest] lists show ?thesis by (simp add: part_bytes_def)
  next
    case (Some r)
    then have fits: "range_within (into_option r) bs" using head(2) by (simp add: part_fits_def)
    obtain st1 where st1: "outbound_transfer env out (server_id c) (chunk_id c) (into_option r) st
        = Some (Ok (out @ range_bytes (into_option r) bs), st1)" "as_ledger st1 = as_ledger st" "as_db st1 = as_db st"
      "\<forall>c' bs'. serves env st c' bs' \<longrightarrow> serves env st1 c' bs'"
      using outbound_transfer_Ok [OF assms(1) head(1) fits] by blast
    have "list_all2 (serves env st1) cs bss'" using rest(1) st1(4) list_all2_mono by blast
    from Cons.IH [OF this rest(2), of "out @ range_bytes (into_option r) bs"] st1 Some lists show ?thesis
      by (auto simp: then_svc_def part_bytes_def)
  qed
qed (simp add: of_result_def)

lemma whole_parts:
  "list_all2 part_fits (replicate (length bss) (Some chunk_range_default)) bss"
  "concat (map2 part_bytes (replicate (length bss) (Some chunk_range_default)) bss) = concat bss"
  by (induction bss) (simp_all add: part_fits_def part_bytes_def range_within_def range_bytes_def)

text \<open>What a range selects of the bytes of a file; no range selects all.\<close>

definition selected :: "(u64 \<times> u64) option \<Rightarrow> 'a list \<Rightarrow> 'a list" where
  "selected rng xs = (case rng of None \<Rightarrow> xs
     | Some (lo, hi) \<Rightarrow> take (Suc (unat hi) - unat lo) (drop (unat lo) xs))"

text \<open>C5. A download sends the bytes that were asked for. When the file of the path is found, its
  chunks, in their order, are served with the bytes \<open>bss\<close>, and the range, if there is one, resolves to
  the bytes \<open>lo\<close> to \<open>hi\<close> of the file, both included, then the request reports the size of the
  file, and the task it spawns writes exactly those bytes of the concatenated chunks, in order, however
  the range cuts across chunks and wherever these are; it changes no ledger and no table.\<close>

theorem download_exact:
  assumes "has_permission accessor (e_app_id e) (e_bucket_id e) DOWNLOAD_ALLOWANCE = Ok ()"
    "split_path (e_path e) = (dir, name)" "get_file_dir (ae_cql env) db (e_bucket_id e) dir name = Ok (file, d)"
    "list_all2 (serves env st) (sort_key chunk_order (f_chunk_ids file)) bss"
    "f_size file = int (length (concat bss))" "length (concat bss) < 2 ^ 63" "output_works env"
    "rng = None \<and> resolved = None \<or> (\<exists>spec lo hi. rng = Some spec \<and> resolved = Some (lo, hi)
       \<and> satisfiable spec (of_nat (length (concat bss))) = Some (lo, hi) \<and> lo \<le> hi \<and> unat hi < length (concat bss))"
  shows "\<exists>info parts st'. handle_download env satisfiable guess e accessor rng db = Ok (info, parts)
    \<and> unat (dl_size info) = length (concat bss) \<and> dl_attachment_name info = name
    \<and> download_task env parts st = Some (Ok (selected resolved (concat bss)), st')
    \<and> as_ledger st' = as_ledger st \<and> as_db st' = as_db st"
proof -
  let ?cs = "sort_key chunk_order (f_chunk_ids file)"
  have size: "as_u64 (f_size file) = of_nat (length (concat bss))" using assms(5) by (simp add: as_u64_def)
  have unat: "unat (of_nat (length (concat bss)) :: u64) = length (concat bss)"
    by (rule unat_of_nat_small) (use assms(6) in simp)
  have sizes: "list_all2 (\<lambda>c bs. chunk_size c = int (length bs) \<and> bs \<noteq> []) ?cs bss"
    using assms(4) by (rule list_all2_mono) (simp add: serves_def)
  obtain parts where parts: "(case resolved of None \<Rightarrow> Ok (replicate (length ?cs) (Some chunk_range_default))
      | Some r \<Rightarrow> chunk_parts r 0 ?cs) = Ok parts" "list_all2 part_fits parts bss"
      "concat (map2 part_bytes parts bss) = selected resolved (concat bss)"
  proof (cases resolved)
    case None
    have "length ?cs = length bss" using assms(4) by (rule list_all2_lengthD)
    with None that whole_parts [of bss] show ?thesis by (simp add: selected_def)
  next
    case (Some r)
    then obtain lo hi where r: "r = (lo, hi)" "lo \<le> hi" "unat hi < length (concat bss)" using assms(8) by auto
    have "\<exists>parts. chunk_parts r (int 0) ?cs = Ok parts \<and> list_all2 part_fits parts bss
        \<and> concat (map2 part_bytes parts bss) = window (unat (fst r)) (unat (snd r)) 0 (concat bss)"
      by (rule chunk_parts_window [OF sizes]) (use r assms(6) in \<open>simp_all add: word_le_nat_alt\<close>)
    with Some that r show ?thesis by (auto simp: selected_def window_def drop_take)
  qed
  obtain st' where "send_chunks env (zip ?cs parts) [] st = Some (Ok (selected resolved (concat bss)), st')"
    "as_ledger st' = as_ledger st" "as_db st' = as_db st"
    using send_chunks_Ok [OF assms(7,4) parts(2), of "[]"] parts(3) by auto
  then have "download_task env (zip ?cs parts) st = Some (Ok (selected resolved (concat bss)), st')
      \<and> as_ledger st' = as_ledger st \<and> as_db st' = as_db st"
    using assms(7) by (simp add: download_task_def then_svc_def of_result_def output_works_def)
  moreover have "handle_download env satisfiable guess e accessor rng db
      = Ok (\<lparr>dl_size = of_nat (length (concat bss)), dl_attachment_name = name, dl_mime = guess name\<rparr>, zip ?cs parts)"
    using assms(1-3,8) parts(1) size by (auto simp: handle_download_def Let_def)
  ultimately show ?thesis using unat by auto
qed

definition with_chunk :: "uuid \<Rightarrow> u8 list \<Rightarrow> 'st InternalLedger \<Rightarrow> 'st InternalLedger" where
  "with_chunk i bs l = l\<lparr>chunk_set := (chunk_set l)(i \<mapsto> \<lparr>content_size = of_nat (length bs), physical_size = of_nat (length bs)\<rparr>),
     data_dir := (data_dir l)(ChunkFile i \<mapsto> bs)\<rparr>"

definition split_file :: File where
  "split_file = \<lparr>f_bucket_id = 7, f_directory = 0, f_name = ''f'', f_id = 9, f_size = 5,
     f_chunk_ids = [\<lparr>server_id = 2, chunk_id = 12, chunk_size = 2, chunk_order = 1\<rparr>,
       \<lparr>server_id = 1, chunk_id = 11, chunk_size = 3, chunk_order = 0\<rparr>],
     f_created = 0, f_last_modified = 0\<rparr>"

definition split_state :: "((u8 list \<rightharpoonup> u8 list), mem_db) app_state" where
  "split_state = (two_nodes (\<lambda>_. 10) (no_rows\<lparr>m_files := [split_file]\<rparr>))\<lparr>as_ledger :=
     (\<lambda>n. if n = 1 then with_chunk 11 [1, 2, 3] (plain_ledger 10) else with_chunk 12 [4, 5] (plain_ledger 10))\<rparr>"

theorem download_exact_witness:
  "\<exists>info parts st'. handle_download two_nodes_env (\<lambda>spec n. Some spec) (\<lambda>_. ''text/plain'')
       \<lparr>e_app_id = 6, e_bucket_id = 7, e_path = ''f''\<rparr> full_accessor (Some (1, 3)) (as_db split_state) = Ok (info, parts)
     \<and> download_task two_nodes_env parts split_state = Some (Ok [2, 3, 4], st')"
proof -
  let ?e = "\<lparr>e_app_id = 6, e_bucket_id = 7, e_path = ''f''\<rparr>" and ?bss = "[[1, 2, 3], [4, 5]] :: u8 list list"
  have serves: "list_all2 (serves two_nodes_env split_state) (sort_key chunk_order (f_chunk_ids split_file)) ?bss"
    by (simp add: split_file_def serves_def two_nodes_env_def split_state_def two_nodes_def holds_chunk_def
        with_chunk_def fragment_read_stream_def fs_read_def get_path_def plain_env_def existing_fragment_meta_def
        readable_def lock_table_new_def)
  have split: "split_path ''f'' = (None, ''f'')"
    using split_path_join [of "[''f'']"] by (simp add: name_seg_def plain_seg_def is_sep_def)
  have row: "get_file_dir (ae_cql two_nodes_env) (as_db split_state) (e_bucket_id ?e) None ''f'' = Ok (split_file, None)"
    by (simp add: get_file_dir_def get_directory_def two_nodes_env_def split_state_def two_nodes_def found_def mem_cql_sel
        rows_map_def split_file_def file_key_def ROOT_DIR_def)
  have "\<exists>info parts st'. handle_download two_nodes_env (\<lambda>spec n. Some spec) (\<lambda>_. ''text/plain'') ?e full_accessor
        (Some (1, 3)) (as_db split_state) = Ok (info, parts)
    \<and> unat (dl_size info) = length (concat ?bss) \<and> dl_attachment_name info = ''f''
    \<and> download_task two_nodes_env parts split_state = Some (Ok (selected (Some (1, 3)) (concat ?bss)), st')
    \<and> as_ledger st' = as_ledger split_state \<and> as_db st' = as_db split_state"
    by (rule download_exact [OF _ _ row serves])
      (simp_all add: split split_file_def output_works_def two_nodes_env_def)
  then show ?thesis by (auto simp: selected_def)
qed

end
