(* ===== verification/Reservation_Service.thy ===== *)
theory Reservation_Service
  imports Cluster "HOL-Library.Multiset"
begin

section \<open>Reserving space for a file\<close>

text \<open>
  \<^verbatim>\<open>node/src/public/service/reservation_service.rs\<close> and the refresh of the storage map in
  \<^verbatim>\<open>node/src/lib.rs\<close>: which nodes take which part of a file, reserving all parts, and giving
  them back when one of them is refused.

  The lemmas show that the chosen parts add up to the file and fit what each node is known to have
  free, that a successful reservation is recorded on every chosen node, and that a failed one leaves
  no trace.
\<close>

subsection \<open>Operations\<close>

datatype ReservationMode = PreferSelfThenMostFree | PreferMostFree

record ReservedFragment =
  rv_channel :: "remote_channel option"
  rv_node_id :: uuid
  rv_chunk_id :: uuid
  rv_size :: u64
  rv_chunk_buffer :: u16

text \<open>The order is an \<open>i8\<close> that counts up from zero and wraps.\<close>

definition wrap_i8 :: "int \<Rightarrow> int" where
  "wrap_i8 i = (i + 128) mod 256 - 128"

definition reserve_info_to_file_chunks :: "ReservedFragment list \<Rightarrow> FileChunk list" where
  "reserve_info_to_file_chunks fragments =
     map (\<lambda>(i, f). \<lparr>server_id = rv_node_id f, chunk_id = rv_chunk_id f, chunk_size = as_i64 (rv_size f),
                    chunk_order = wrap_i8 (int i)\<rparr>) (enumerate 0 fragments)"

fun push_nodes :: "(uuid \<times> u64) list \<Rightarrow> (uuid \<times> u64) list \<Rightarrow> u64 \<Rightarrow> (uuid \<times> u64) list \<times> u64" where
  "push_nodes [] target_list sz = (target_list, sz)"
| "push_nodes ((n, node_size) # nodes) target_list sz =
     (if sz = 0 then (target_list, sz)
      else if n \<in> fst ` set target_list then push_nodes nodes target_list sz
      else if sz \<ge> node_size then push_nodes nodes (target_list @ [(n, node_size)]) (sz - node_size)
      else push_nodes nodes (target_list @ [(n, sz)]) 0)"

definition push_most_used ::
    "('st, 'db) app_env \<Rightarrow> (uuid \<rightharpoonup> u64) \<Rightarrow> (uuid \<times> u64) list \<Rightarrow> u64 \<Rightarrow> (uuid \<times> u64) list \<times> u64" where
  "push_most_used env node_map target_list sz =
     push_nodes (sort_key (\<lambda>(_, s). - int (unat s)) (map (\<lambda>n. (n, the (node_map n))) (ae_map_order env node_map)))
       target_list sz"

definition resolve_targets ::
    "('st, 'db) app_env \<Rightarrow> u64 \<Rightarrow> ReservationMode \<Rightarrow> ('st, 'db) app_state \<Rightarrow> (uuid \<times> u64) list \<times> u64" where
  "resolve_targets env sz mode st =
     (let self_free = get_available_space (as_ledger st (ae_self env))
      in case mode of
           PreferSelfThenMostFree \<Rightarrow>
             if self_free \<ge> sz then ([(ae_self env, sz)], 0)
             else push_most_used env (as_storage_map st) [(ae_self env, self_free)] (sz - self_free)
         | PreferMostFree \<Rightarrow> push_most_used env (as_storage_map st) [] sz)"

definition refresh_peer_data :: "('st, 'db) app_env \<Rightarrow> ('st, 'db) app_state \<Rightarrow>
    unit node_result \<times> ('st, 'db) app_state" where
  "refresh_peer_data env st =
     (case ae_peers env of
        None \<Rightarrow> (Err InternalError, st)
      | Some peers \<Rightarrow>
          (Ok (), st\<lparr>as_storage_map := foldl (\<lambda>m (n, free). m(n \<mapsto> free)) (as_storage_map st) peers,
                     as_last_refresh := ae_utc_now env\<rparr>))"

definition num_seconds :: "int \<Rightarrow> i64" where
  "num_seconds ms = (if ms \<ge> 0 then ms div 1000 else - (- ms div 1000))"

definition safe_refresh_peer_data :: "('st, 'db) app_env \<Rightarrow> ('st, 'db) app_state \<Rightarrow>
    bool node_result \<times> ('st, 'db) app_state" where
  "safe_refresh_peer_data env st =
     (if num_seconds (ae_utc_now env - as_last_refresh st) \<ge> as_i64 (ae_heart_beat env) then
        (case refresh_peer_data env (st\<lparr>as_last_refresh := ae_utc_now env\<rparr>) of
           (Ok _, st') \<Rightarrow> (Ok True, st')
         | (Err e, st') \<Rightarrow> (Err e, st'))
      else (Ok False, st))"

definition try_reserve_chunk ::
    "('st, 'db) app_env \<Rightarrow> uuid \<Rightarrow> u64 \<Rightarrow> uuid \<Rightarrow> uuid \<Rightarrow> ReserveFlags \<Rightarrow> ('st, 'db) app_state \<Rightarrow>
     (ReservedFragment mdsftp_result \<times> ('st, 'db) app_state) option" where
  "try_reserve_chunk env node sz bucket f flags st =
     (if node = ae_self env then
        (let (r, l) = try_reserve (ae_ledger env node) (ae_uuid env (as_drawn st)) sz bucket f
                        (rf_durable flags) (as_ledger st node);
             st' = (set_ledger node l st)\<lparr>as_drawn := Suc (as_drawn st)\<rparr>
         in case r of
              Ok i \<Rightarrow> Some (Ok \<lparr>rv_channel = None, rv_node_id = node, rv_chunk_id = i, rv_size = sz,
                              rv_chunk_buffer = 0\<rparr>, st')
            | Err e \<Rightarrow> Some (Err (if e = InsufficientDiskSpace then ReservationError else MdsftpInternal), st'))
      else case open_channel env node of
             Err e \<Rightarrow> Some (Err e, st)
           | Ok ch \<Rightarrow>
               (case request env pick_reserve (HReserve sz bucket f flags) ch st of
                  None \<Rightarrow> None
                | Some (Ok res, ch', st') \<Rightarrow>
                    Some (Ok \<lparr>rv_channel = Some ch', rv_node_id = node, rv_chunk_id = rr_chunk_id res,
                            rv_size = sz, rv_chunk_buffer = rr_chunk_buffer res\<rparr>, st')
                | Some (Err (ReserveError free_space), _, st') \<Rightarrow>
                    Some (Err ReservationError, st'\<lparr>as_storage_map := (as_storage_map st')(node \<mapsto> free_space)\<rparr>)
                | Some (Err e, _, st') \<Rightarrow> Some (Err e, st')))"

fun reserve_all ::
    "('st, 'db) app_env \<Rightarrow> uuid \<Rightarrow> uuid \<Rightarrow> ReserveFlags \<Rightarrow> (uuid \<times> u64) list \<Rightarrow> ReservedFragment list \<Rightarrow>
     ('st, 'db) app_state \<Rightarrow> (unit mdsftp_result \<times> ReservedFragment list \<times> ('st, 'db) app_state) option" where
  "reserve_all env bucket f flags [] fragments st = Some (Ok (), fragments, st)"
| "reserve_all env bucket f flags ((n, sz) # targets) fragments st =
     (case try_reserve_chunk env n sz bucket f flags st of
        None \<Rightarrow> None
      | Some (Err e, st') \<Rightarrow> Some (Err e, fragments, st')
      | Some (Ok frag, st') \<Rightarrow> reserve_all env bucket f flags targets (fragments @ [frag]) st')"

definition cancel_fragment ::
    "('st, 'db) app_env \<Rightarrow> ReservedFragment \<Rightarrow> ('st, 'db) app_state \<Rightarrow> ('st, 'db) app_state" where
  "cancel_fragment env frag st =
     (case rv_channel frag of
        Some ch \<Rightarrow> notify env (HReserveCancel (rv_chunk_id frag)) ch st
      | None \<Rightarrow> set_ledger (ae_self env)
          (snd (cancel_reservation (ae_ledger env (ae_self env)) (rv_chunk_id frag) (as_ledger st (ae_self env)))) st)"

text \<open>Numbers in error messages.\<close>

fun decimal :: "nat \<Rightarrow> string" where
  "decimal n = (if n < 10 then [char_of (48 + n)] else decimal (n div 10) @ [char_of (48 + n mod 10)])"

definition no_space :: "u64 \<Rightarrow> NodeClientError" where
  "no_space rem = InsufficientStorage (''Failed to reserve space, rem='' @ decimal (unat rem))"

definition reserve_targets ::
    "('st, 'db) app_env \<Rightarrow> ReserveFlags \<Rightarrow> uuid \<Rightarrow> uuid \<Rightarrow> (uuid \<times> u64) list \<Rightarrow>
     (ReservedFragment list, 'st, 'db) service" where
  "reserve_targets env flags bucket f targets st =
     (case reserve_all env bucket f flags targets [] st of
        None \<Rightarrow> None
      | Some (Ok _, fragments, st') \<Rightarrow> Some (Ok fragments, st')
      | Some (Err _, fragments, st') \<Rightarrow>
          Some (Err (InsufficientStorage ''Remote reservation failed''), fold (cancel_fragment env) fragments st'))"

definition reserve_chunks ::
    "('st, 'db) app_env \<Rightarrow> u64 \<Rightarrow> ReserveFlags \<Rightarrow> uuid \<Rightarrow> uuid \<Rightarrow> ReservationMode \<Rightarrow>
     (ReservedFragment list, 'st, 'db) service" where
  "reserve_chunks env sz flags bucket f mode st =
     (let (targets, rem) = resolve_targets env sz mode st
      in if rem > 0 then
           (case safe_refresh_peer_data env st of
              (Err e, st1) \<Rightarrow> Some (Err e, st1)
            | (Ok refreshed, st1) \<Rightarrow>
                if \<not> refreshed then Some (Err (no_space rem), st1)
                else
                  (let (targets', rem') = resolve_targets env sz mode st1
                   in if rem' > 0 then Some (Err (no_space rem'), st1)
                      else reserve_targets env flags bucket f targets' st1))
         else reserve_targets env flags bucket f targets st)"

subsection \<open>The plan\<close>

definition planned :: "(uuid \<times> u64) list \<Rightarrow> nat" where
  "planned targets = sum_list (map (unat \<circ> snd) targets)"

lemma push_nodes_planned:
  "push_nodes nodes ts sz = (ts', rem) \<Longrightarrow> planned ts' + unat rem = planned ts + unat sz"
proof (induction nodes ts sz rule: push_nodes.induct)
  case (2 n free nodes ts sz)
  have "unat (sz - free) + unat free = unat sz" if "free \<le> sz"
    using that by (simp add: unat_sub word_le_nat_alt)
  with 2 show ?case by (auto simp: planned_def split: if_splits)
qed (simp add: planned_def)

lemma push_nodes_distinct:
  "push_nodes nodes ts sz = (ts', rem) \<Longrightarrow> distinct (map fst ts) \<Longrightarrow> distinct (map fst ts')"
  by (induction nodes ts sz rule: push_nodes.induct) (auto split: if_splits)

lemma push_nodes_mono: "push_nodes nodes ts sz = (ts', rem) \<Longrightarrow> set ts \<subseteq> set ts'"
  by (induction nodes ts sz rule: push_nodes.induct) (auto split: if_splits)

lemma push_nodes_within:
  "push_nodes nodes ts sz = (ts', rem) \<Longrightarrow> (m, a) \<in> set ts' \<Longrightarrow>
   (m, a) \<in> set ts \<or> (\<exists>free. (m, free) \<in> set nodes \<and> a \<le> free)"
proof (induction nodes ts sz rule: push_nodes.induct)
  case (2 n free nodes ts sz)
  consider "sz = 0" | "sz \<noteq> 0" "n \<in> fst ` set ts" | "sz \<noteq> 0" "n \<notin> fst ` set ts" "free \<le> sz"
    | "sz \<noteq> 0" "n \<notin> fst ` set ts" "\<not> free \<le> sz" by blast
  then show ?case
  proof cases
    case 3
    with 2 show ?thesis by (simp, blast)
  next
    case 4
    moreover from 4 have "sz \<le> free" by simp
    ultimately show ?thesis using 2 by (simp, blast)
  qed (use 2 in simp, use 2 in auto)
qed simp

lemma push_nodes_exhausts:
  "push_nodes nodes ts sz = (ts', rem) \<Longrightarrow> rem \<noteq> 0 \<Longrightarrow> distinct (map fst nodes) \<Longrightarrow>
   (m, fr) \<in> set nodes \<Longrightarrow> m \<in> fst ` set ts \<or> (m, fr) \<in> set ts'"
proof (induction nodes ts sz rule: push_nodes.induct)
  case (2 n free nodes ts sz)
  consider "sz = 0" | "sz \<noteq> 0" "n \<in> fst ` set ts" | "sz \<noteq> 0" "n \<notin> fst ` set ts" "free \<le> sz"
    | "sz \<noteq> 0" "n \<notin> fst ` set ts" "\<not> free \<le> sz" by blast
  then show ?case
  proof cases
    case 3
    with 2 have run: "push_nodes nodes (ts @ [(n, free)]) (sz - free) = (ts', rem)" by simp
    show ?thesis
    proof (cases "m = n")
      case True
      with 2 have "(m, fr) = (n, free)" by (auto simp: image_iff)
      with push_nodes_mono [OF run] show ?thesis by auto
    next
      case False
      with 2 3 show ?thesis by auto
    qed
  next
    case 4
    with 2 show ?thesis by (cases nodes) auto
  qed (use 2 in simp, use 2 in auto)
qed simp

lemmas push_nodes_props = push_nodes_planned push_nodes_distinct push_nodes_within push_nodes_exhausts

definition known_free ::
    "('st, 'db) app_env \<Rightarrow> ReservationMode \<Rightarrow> ('st, 'db) app_state \<Rightarrow> uuid \<rightharpoonup> u64" where
  "known_free env mode st n =
     (if mode = PreferSelfThenMostFree \<and> n = ae_self env
      then Some (get_available_space (as_ledger st (ae_self env))) else as_storage_map st n)"

definition iterates :: "('st, 'db) app_env \<Rightarrow> bool" where
  "iterates env \<longleftrightarrow> (\<forall>m. finite (dom m) \<longrightarrow> distinct (ae_map_order env m) \<and> set (ae_map_order env m) = dom m)"

lemma resolve_targets_exact:
  assumes "resolve_targets env sz mode st = (targets, rem)" "iterates env" "finite (dom (as_storage_map st))"
  shows "distinct (map fst targets)" "planned targets + unat rem = unat sz"
    and "(n, a) \<in> set targets \<Longrightarrow> \<exists>free. known_free env mode st n = Some free \<and> a \<le> free"
    and "rem \<noteq> 0 \<Longrightarrow> known_free env mode st n = Some free \<Longrightarrow> (n, free) \<in> set targets"
proof -
  define m where "m = as_storage_map st"
  define nodes where "nodes = sort_key (\<lambda>(_, s). - int (unat s)) (map (\<lambda>n. (n, the (m n))) (ae_map_order env m))"
  have order: "distinct (ae_map_order env m)" "set (ae_map_order env m) = dom m"
    using assms(2,3) by (auto simp: iterates_def m_def)
  have "mset (map fst nodes) = mset (ae_map_order env m)"
    by (simp add: nodes_def multiset.map_comp comp_def)
  then have nodes: "distinct (map fst nodes)" using order(1) by (metis mset_eq_imp_distinct_iff)
  have mem: "(n, a) \<in> set nodes \<longleftrightarrow> m n = Some a" for n a
    using order(2) by (auto simp: nodes_def image_iff domIff)
  let ?free = "get_available_space (as_ledger st (ae_self env))"
  have push: "push_most_used env (as_storage_map st) ts s = push_nodes nodes ts s" for ts s
    by (simp add: push_most_used_def nodes_def m_def)
  consider "mode = PreferSelfThenMostFree" "sz \<le> ?free"
    | "mode = PreferSelfThenMostFree" "\<not> sz \<le> ?free" | "mode = PreferMostFree" by (cases mode) auto
  then have "distinct (map fst targets) \<and> planned targets + unat rem = unat sz
    \<and> (\<forall>n a. (n, a) \<in> set targets \<longrightarrow> (\<exists>free. known_free env mode st n = Some free \<and> a \<le> free))
    \<and> (rem \<noteq> 0 \<longrightarrow> (\<forall>n free. known_free env mode st n = Some free \<longrightarrow> (n, free) \<in> set targets))"
  proof cases
    case 1
    with assms(1) show ?thesis by (auto simp: resolve_targets_def planned_def known_free_def)
  next
    case 2
    then have sum: "unat (sz - ?free) + unat ?free = unat sz" by (simp add: unat_sub word_le_nat_alt)
    from 2 assms(1) have run: "push_nodes nodes [(ae_self env, ?free)] (sz - ?free) = (targets, rem)"
      by (simp add: resolve_targets_def push Let_def)
    have d: "distinct (map fst targets)" using push_nodes_distinct [OF run] by simp
    have self: "(ae_self env, ?free) \<in> set targets" using push_nodes_mono [OF run] by simp
    have uniq: "a = ?free" if "(ae_self env, a) \<in> set targets" for a
      using d that self by (rule eq_key_imp_eq_value)
    show ?thesis
    proof (intro conjI allI impI)
      show "planned targets + unat rem = unat sz"
        using push_nodes_planned [OF run] sum by (simp add: planned_def)
      fix n a assume "(n, a) \<in> set targets"
      with push_nodes_within [OF run this] uniq show "\<exists>free. known_free env mode st n = Some free \<and> a \<le> free"
        using 2(1) by (cases "n = ae_self env") (simp_all add: known_free_def mem m_def)
    next
      fix n free assume "rem \<noteq> 0" "known_free env mode st n = Some free"
      with push_nodes_exhausts [OF run _ nodes, of n free] self 2(1) show "(n, free) \<in> set targets"
        by (cases "n = ae_self env") (simp_all add: known_free_def mem m_def)
    qed (rule d)
  next
    case 3
    with assms(1) have "push_nodes nodes [] sz = (targets, rem)" by (simp add: resolve_targets_def push)
    note p = push_nodes_props [OF this]
    show ?thesis using p(1,2) p(3) p(4) [OF _ nodes] 3 by (auto simp: planned_def mem known_free_def m_def)
  qed
  then show "distinct (map fst targets)" "planned targets + unat rem = unat sz"
    and "(n, a) \<in> set targets \<Longrightarrow> \<exists>free. known_free env mode st n = Some free \<and> a \<le> free"
    and "rem \<noteq> 0 \<Longrightarrow> known_free env mode st n = Some free \<Longrightarrow> (n, free) \<in> set targets" by blast+
qed

subsection \<open>What a reservation leaves in the ledgers\<close>

definition bookings :: "'st InternalLedger \<Rightarrow> (uuid \<rightharpoonup> Reservation) \<times> (uuid \<rightharpoonup> CommitInfo) \<times> u64" where
  "bookings l = (reservation_map l, uncommited_map l, disk_reserved_size l)"

definition booked :: "uuid \<Rightarrow> u64 \<Rightarrow> bool \<Rightarrow> 'st InternalLedger \<Rightarrow> 'st InternalLedger \<Rightarrow> bool" where
  "booked i sz d l l' \<longleftrightarrow>
     (\<exists>r u. bookings l' = ((reservation_map l)(i \<mapsto> r), (uncommited_map l)(i \<mapsto> u), disk_reserved_size l + sz)
        \<and> file_space r = sz \<and> durable r = d \<and> completed r = 0)"

lemma bookedI:
  "bookings l' = ((reservation_map l)(i \<mapsto> r), (uncommited_map l)(i \<mapsto> u), disk_reserved_size l + sz) \<Longrightarrow>
   file_space r = sz \<Longrightarrow> durable r = d \<Longrightarrow> completed r = 0 \<Longrightarrow> booked i sz d l l'"
  unfolding booked_def by blast

lemma try_reserve_booked:
  assumes "try_reserve le fresh sz b f d l = (Ok i, l')"
  shows "i = fresh \<and> booked i sz d l l'"
proof -
  have "i = fresh \<and> bookings l' = ((reservation_map l)(fresh \<mapsto>
      \<lparr>file_space = sz, completed = 0, durable = d, last_update = now le\<rparr>),
      (uncommited_map l)(fresh \<mapsto> \<lparr>access = now le\<rparr>), disk_reserved_size l + sz)"
    using assms by (auto simp: try_reserve_def bookings_def
        split: if_splits option.splits prod.splits result.splits)
  then show ?thesis by (auto intro: bookedI)
qed

lemma try_reserve_refused:
  "try_reserve le fresh sz b f d l = (Err e, l') \<Longrightarrow> bookings l' = bookings l"
  by (auto simp: try_reserve_def bookings_def split: if_splits option.splits prod.splits result.splits)

lemma pause_booked:
  assumes "booked i sz d l l'"
  shows "booked i sz d l (snd (pause_reservation le i l'))"
proof -
  from assms obtain r u where "bookings l' = ((reservation_map l)(i \<mapsto> r), (uncommited_map l)(i \<mapsto> u),
      disk_reserved_size l + sz)" "file_space r = sz" "durable r = d" "completed r = 0"
    unfolding booked_def by blast
  then show ?thesis
    by (intro bookedI [of _ l i "r\<lparr>last_update := now le\<rparr>" u])
      (simp_all add: bookings_def pause_reservation_def refresh_reservation_def Let_def)
qed

lemma cancel_booked:
  assumes "booked i sz d l l'" "reservation_map l i = None" "uncommited_map l i = None"
  shows "bookings (snd (cancel_reservation le i l')) = bookings l"
  using assms
  by (auto simp: booked_def bookings_def cancel_reservation_def ext_remove_def fs_remove_def Let_def
      fun_upd_idem_iff)

lemma start_receiving_keeps:
  assumes "start_receiving env i a s = (r, s')"
  shows "bookings (ns_ledger s') = bookings (ns_ledger s) \<and> ns_sent s' = ns_sent s \<and> ns_closed s' = ns_closed s
    \<and> r \<noteq> Err ConnectionError \<and> h_chunk_buffer (ns_handler s') = h_chunk_buffer (ns_handler s)"
  using assms
  by (auto simp: start_receiving_def store_write_guard_def bookings_def fragment_append_stream_def
      fragment_write_stream_def Let_def split: prod.splits result.splits if_splits)

lemma booked_cong: "bookings l'' = bookings l' \<Longrightarrow> booked i sz d l l'' = booked i sz d l l'"
  by (simp add: booked_def)

lemma handle_reserve_answer:
  assumes "handle_reserve env sz b f flags s = (r, s')" "ns_sent s = []" "ns_closed s = None" "ne_write_ok env"
  shows "(ns_sent s' = [] \<and> ns_closed s' = None \<and> r \<noteq> Err ConnectionError)
    \<or> (\<exists>n. ns_sent s' = [OutResponse (RespReserveErr n)] \<and> bookings (ns_ledger s') = bookings (ns_ledger s))
    \<or> (\<exists>cb. ns_sent s' = [OutResponse (RespReserveOk (ne_fresh env) cb)]
         \<and> booked (ne_fresh env) sz (rf_durable flags) (ns_ledger s) (ns_ledger s')
         \<and> r \<noteq> Err ConnectionError \<and> (ns_closed s' = None \<longleftrightarrow> \<not> rf_temp flags))"
proof (cases "try_reserve (ne_ledger env) (ne_fresh env) sz b f (rf_durable flags) (ns_ledger s)")
  case (Pair t l)
  show ?thesis
  proof (cases t)
    case (Err e)
    have "bookings l = bookings (ns_ledger s)" using try_reserve_refused [OF Pair [unfolded Err]] .
    then show ?thesis
      using assms unfolding handle_reserve_def Pair Err
      by (simp add: respond_close_def send_out_def close_channel_def Let_def) (auto simp: bookings_def)
  next
    case (Ok i)
    note booked = try_reserve_booked [OF Pair [unfolded Ok]]
    define s2 where "s2 = s\<lparr>ns_ledger := l, ns_handler := (ns_handler s)\<lparr>h_reservation_details :=
        Some \<lparr>rd_id = i, rd_size = sz, rd_durable = rf_durable flags\<rparr>\<rparr>\<rparr>"
    obtain r3 s3 where s3: "(if rf_auto_start flags then start_receiving env i False s2 else (Ok (), s2)) = (r3, s3)"
      by (rule prod.exhaust)
    have keeps: "bookings (ns_ledger s3) = bookings l \<and> ns_sent s3 = [] \<and> ns_closed s3 = None
        \<and> r3 \<noteq> Err ConnectionError"
    proof (cases "rf_auto_start flags")
      case True
      with s3 have "start_receiving env i False s2 = (r3, s3)" by simp
      from start_receiving_keeps [OF this] assms(2,3) show ?thesis by (simp add: s2_def)
    next
      case False
      with s3 have "s3 = s2" "r3 = Ok ()" by auto
      with assms(2,3) show ?thesis by (simp add: s2_def)
    qed
    have "booked i sz (rf_durable flags) (ns_ledger s) (ns_ledger s3)"
      using booked keeps booked_cong by metis
    note this pause_booked [OF this, of "ne_ledger env"]
    moreover have "handle_reserve env sz b f flags s = try_then (r3, s3) (\<lambda>s3.
        try_then (send_out env (OutResponse (RespReserveOk i (h_chunk_buffer (ns_handler s3)))) s3) (\<lambda>s4.
          if rf_temp flags then
            (let (p, ledger') = pause_reservation (ne_ledger env) i (ns_ledger s4); s5 = s4\<lparr>ns_ledger := ledger'\<rparr>
             in (Ok (), close_channel (if is_ok p then Ok () else Err MdsftpInternal) s5))
          else (Ok (), s4)))"
      using s3 unfolding handle_reserve_def Pair Ok
      by (cases "rf_auto_start flags") (simp_all add: s2_def [symmetric])
    ultimately show ?thesis
      using keeps booked assms(1,4)
      by (cases r3) (simp_all add: send_out_def close_channel_def split_beta Let_def split: if_splits)
  qed
qed

text \<open>Every peer can answer; then a reservation request has one of three ends.\<close>

definition linked :: "('st, 'db) app_env \<Rightarrow> bool" where
  "linked env \<longleftrightarrow> (\<forall>n. ae_link env n)"

definition reserved_at ::
    "('st, 'db) app_env \<Rightarrow> ReserveFlags \<Rightarrow> uuid \<Rightarrow> u64 \<Rightarrow> ('st, 'db) app_state \<Rightarrow> ReservedFragment \<Rightarrow>
     ('st, 'db) app_state \<Rightarrow> bool" where
  "reserved_at env flags n sz st frag st' \<longleftrightarrow>
     rv_node_id frag = n \<and> rv_size frag = sz \<and> rv_chunk_id frag = ae_uuid env (as_drawn st)
     \<and> as_drawn st' = Suc (as_drawn st) \<and> (\<forall>m. m \<noteq> n \<longrightarrow> as_ledger st' m = as_ledger st m)
     \<and> booked (rv_chunk_id frag) sz (rf_durable flags) (as_ledger st n) (as_ledger st' n)
     \<and> (case rv_channel frag of None \<Rightarrow> n = ae_self env
         | Some ch \<Rightarrow> rc_node ch = n \<and> (rc_closed ch = None \<longleftrightarrow> \<not> rf_temp flags))"

lemma request_reserve:
  assumes "request env pick_reserve (HReserve sz b f flags) ch st = Some (res, ch', st')" "linked env"
  shows "as_drawn st' = Suc (as_drawn st) \<and> (\<forall>m. m \<noteq> rc_node ch \<longrightarrow> as_ledger st' m = as_ledger st m)
    \<and> rc_node ch' = rc_node ch
    \<and> ((\<exists>k. res = Err (ReserveError k)
          \<and> bookings (as_ledger st' (rc_node ch)) = bookings (as_ledger st (rc_node ch)))
      \<or> (\<exists>cb. res = Ok \<lparr>rr_chunk_id = ae_uuid env (as_drawn st), rr_chunk_buffer = cb\<rparr>
          \<and> booked (ae_uuid env (as_drawn st)) sz (rf_durable flags)
              (as_ledger st (rc_node ch)) (as_ledger st' (rc_node ch))
          \<and> (rc_closed ch' = None \<longleftrightarrow> \<not> rf_temp flags)))"
proof -
  let ?n = "rc_node ch"
  obtain r s' where run: "handle_reserve (node_env_at env ?n st) sz b f flags (node_at ?n (rc_handler ch) st) = (r, s')"
    by (rule prod.exhaust)
  have answer: "(ns_sent s' = [] \<and> ns_closed s' = None \<and> r \<noteq> Err ConnectionError)
    \<or> (\<exists>k. ns_sent s' = [OutResponse (RespReserveErr k)] \<and> bookings (ns_ledger s') = bookings (as_ledger st ?n))
    \<or> (\<exists>cb. ns_sent s' = [OutResponse (RespReserveOk (ae_uuid env (as_drawn st)) cb)]
         \<and> booked (ae_uuid env (as_drawn st)) sz (rf_durable flags) (as_ledger st ?n) (ns_ledger s')
         \<and> r \<noteq> Err ConnectionError \<and> (ns_closed s' = None \<longleftrightarrow> \<not> rf_temp flags))"
    using handle_reserve_answer [OF run] assms(2) by (simp add: node_env_at_def node_at_def linked_def)
  show ?thesis
    using answer assms(1)
    by (elim disjE exE conjE) (simp_all add: request_def remote_run_def run Let_def split: if_splits, auto)
qed

lemma try_reserve_chunk_Ok:
  assumes "try_reserve_chunk env n sz b f flags st = Some (Ok frag, st')" "linked env"
  shows "reserved_at env flags n sz st frag st'"
proof (cases "n = ae_self env")
  case True
  with assms(1) show ?thesis
    by (auto simp: try_reserve_chunk_def reserved_at_def set_ledger_def Let_def
        dest: try_reserve_booked split: prod.splits result.splits)
next
  case False
  then obtain res ch' where
      req: "request env pick_reserve (HReserve sz b f flags) (channel_to env n) st = Some (Ok res, ch', st')"
    and frag: "frag = \<lparr>rv_channel = Some ch', rv_node_id = n, rv_chunk_id = rr_chunk_id res, rv_size = sz,
      rv_chunk_buffer = rr_chunk_buffer res\<rparr>"
    using assms(1) by (auto simp: try_reserve_chunk_def open_channel_def
        split: result.splits option.splits MDSFTPError.splits)
  with request_reserve [OF req assms(2)] show ?thesis by (auto simp: reserved_at_def)
qed

lemma try_reserve_chunk_Err:
  assumes "try_reserve_chunk env n sz b f flags st = Some (Err e, st')" "linked env"
  shows "bookings (as_ledger st' m) = bookings (as_ledger st m)"
proof (cases "n = ae_self env")
  case True
  with assms(1) show ?thesis
    by (auto simp: try_reserve_chunk_def set_ledger_def Let_def
        dest: try_reserve_refused split: prod.splits result.splits)
next
  case False
  then consider "st' = st" | e' ch' st1 where
    "request env pick_reserve (HReserve sz b f flags) (channel_to env n) st = Some (Err e', ch', st1)" "as_ledger st' = as_ledger st1"
    using assms(1) by (auto simp: try_reserve_chunk_def open_channel_def
        split: result.splits option.splits MDSFTPError.splits)
  then show ?thesis
  proof cases
    case 2
    with request_reserve [OF 2(1) assms(2)] show ?thesis by (cases "m = n") auto
  qed simp
qed

subsection \<open>Reserving all parts\<close>

definition placed ::
    "('st, 'db) app_env \<Rightarrow> ReserveFlags \<Rightarrow> ('st, 'db) app_state \<Rightarrow> ('st, 'db) app_state \<Rightarrow> ReservedFragment \<Rightarrow> bool" where
  "placed env flags st st' frag \<longleftrightarrow>
     booked (rv_chunk_id frag) (rv_size frag) (rf_durable flags)
       (as_ledger st (rv_node_id frag)) (as_ledger st' (rv_node_id frag))
     \<and> (\<exists>k\<ge>as_drawn st. rv_chunk_id frag = ae_uuid env k)
     \<and> (case rv_channel frag of None \<Rightarrow> rv_node_id frag = ae_self env
         | Some ch \<Rightarrow> rc_node ch = rv_node_id frag \<and> (rc_closed ch = None \<longleftrightarrow> \<not> rf_temp flags))"

lemma booked_from_cong: "bookings l = bookings l0 \<Longrightarrow> booked i sz d l l' = booked i sz d l0 l'"
  by (simp add: booked_def bookings_def)

lemma placed_cong:
  assumes "placed env flags st1 st2 frag" "as_drawn st \<le> as_drawn st1"
    and "bookings (as_ledger st (rv_node_id frag)) = bookings (as_ledger st1 (rv_node_id frag))"
    and "bookings (as_ledger st' (rv_node_id frag)) = bookings (as_ledger st2 (rv_node_id frag))"
  shows "placed env flags st st' frag"
  using assms booked_from_cong [OF assms(3)] booked_cong [OF assms(4)]
  unfolding placed_def by (metis le_trans)

lemma reserved_at_placed: "reserved_at env flags n sz st frag st' \<Longrightarrow> placed env flags st st' frag"
  unfolding reserved_at_def placed_def by (cases "rv_channel frag") (auto intro: exI [of _ "as_drawn st"])

lemma reserve_all_run:
  assumes "reserve_all env b f flags targets frs0 st = Some (r, frs, st')" "linked env" "distinct (map fst targets)"
  shows "\<exists>new. frs = frs0 @ new \<and> (is_ok r \<longrightarrow> map (\<lambda>x. (rv_node_id x, rv_size x)) new = targets)
    \<and> distinct (map rv_node_id new) \<and> set (map rv_node_id new) \<subseteq> set (map fst targets)
    \<and> list_all (placed env flags st st') new
    \<and> (\<forall>m. m \<notin> set (map rv_node_id new) \<longrightarrow> bookings (as_ledger st' m) = bookings (as_ledger st m))"
  using assms
proof (induction targets arbitrary: frs0 st)
  case (Cons x targets)
  obtain n sz where x: "x = (n, sz)" by (cases x)
  show ?case
  proof (cases "try_reserve_chunk env n sz b f flags st")
    case (Some y)
    then obtain t st1 where y: "try_reserve_chunk env n sz b f flags st = Some (t, st1)" by (cases y) auto
    show ?thesis
    proof (cases t)
      case (Err e)
      with Cons.prems x y try_reserve_chunk_Err [of env n sz b f flags st e st1] show ?thesis
        by (intro exI [of _ "[]"]) auto
    next
      case (Ok frag)
      note reserved = try_reserve_chunk_Ok [OF y [unfolded Ok] Cons.prems(2)]
      then have frag: "rv_node_id frag = n" "rv_size frag = sz" "as_drawn st \<le> as_drawn st1"
        and ledger: "\<And>m. m \<noteq> n \<Longrightarrow> as_ledger st1 m = as_ledger st m" by (simp_all add: reserved_at_def)
      from Cons.prems x y Ok have run: "reserve_all env b f flags targets (frs0 @ [frag]) st1 = Some (r, frs, st')"
        and n: "n \<notin> set (map fst targets)" and d: "distinct (map fst targets)" by auto
      from Cons.IH [OF run Cons.prems(2) d] obtain new where new: "frs = (frs0 @ [frag]) @ new"
        "is_ok r \<longrightarrow> map (\<lambda>x. (rv_node_id x, rv_size x)) new = targets" "distinct (map rv_node_id new)"
        "set (map rv_node_id new) \<subseteq> set (map fst targets)" "list_all (placed env flags st1 st') new"
        "\<forall>m. m \<notin> set (map rv_node_id new) \<longrightarrow> bookings (as_ledger st' m) = bookings (as_ledger st1 m)" by blast
      have "list_all (placed env flags st st') new"
        unfolding list_all_iff
      proof
        fix z assume z: "z \<in> set new"
        then have "rv_node_id z \<noteq> n" using new(4) n by (auto dest: imageI [of z _ rv_node_id])
        then have same: "as_ledger st1 (rv_node_id z) = as_ledger st (rv_node_id z)" by (rule ledger)
        have "placed env flags st1 st' z" using z new(5) by (simp add: list_all_iff)
        from placed_cong [OF this frag(3)] same show "placed env flags st st' z" by simp
      qed
      moreover have fresh: "rv_node_id frag \<notin> set (map rv_node_id new)" using frag(1) new(4) n by blast
      have "placed env flags st st' frag"
        using placed_cong [OF reserved_at_placed [OF reserved], of st st'] fresh new(6) by simp
      moreover have "bookings (as_ledger st' m) = bookings (as_ledger st m)"
        if "m \<notin> set (map rv_node_id (frag # new))" for m
        using that new(6) ledger [of m] frag(1) by simp
      ultimately show ?thesis
        using new(1-4) frag(1,2) x fresh by (intro exI [of _ "frag # new"]) auto
    qed
  qed (use Cons.prems x in simp)
qed simp

lemma cancel_placed:
  assumes "placed env flags st s frag" "\<not> rf_temp flags"
    and "\<And>k n. as_drawn st \<le> k \<Longrightarrow> reservation_map (as_ledger st n) (ae_uuid env k) = None
           \<and> uncommited_map (as_ledger st n) (ae_uuid env k) = None"
  shows "bookings (as_ledger (cancel_fragment env frag s) (rv_node_id frag)) = bookings (as_ledger st (rv_node_id frag))"
    and "m \<noteq> rv_node_id frag \<Longrightarrow> as_ledger (cancel_fragment env frag s) m = as_ledger s m"
proof -
  from assms(1,3) have "reservation_map (as_ledger st (rv_node_id frag)) (rv_chunk_id frag) = None"
    "uncommited_map (as_ledger st (rv_node_id frag)) (rv_chunk_id frag) = None"
    and b: "booked (rv_chunk_id frag) (rv_size frag) (rf_durable flags)
       (as_ledger st (rv_node_id frag)) (as_ledger s (rv_node_id frag))"
    by (auto simp: placed_def)
  note cancelled = cancel_booked [OF b this(1,2)]
  have "as_ledger (cancel_fragment env frag s) = (as_ledger s)(rv_node_id frag :=
      snd (cancel_reservation (ae_ledger env (rv_node_id frag)) (rv_chunk_id frag) (as_ledger s (rv_node_id frag))))"
  proof (cases "rv_channel frag")
    case None
    with assms(1) show ?thesis by (simp add: placed_def cancel_fragment_def set_ledger_def)
  next
    case (Some ch)
    with assms(1,2) show ?thesis
      by (simp add: placed_def cancel_fragment_def notify_def remote_run_def handle_reserve_cancel_def
          close_channel_def node_at_def node_env_at_def Let_def)
  qed
  with cancelled show "bookings (as_ledger (cancel_fragment env frag s) (rv_node_id frag))
      = bookings (as_ledger st (rv_node_id frag))"
    and "m \<noteq> rv_node_id frag \<Longrightarrow> as_ledger (cancel_fragment env frag s) m = as_ledger s m" by simp_all
qed

lemma cancel_all:
  assumes "list_all (placed env flags st s) frs" "distinct (map rv_node_id frs)" "\<not> rf_temp flags"
    and "\<And>k n. as_drawn st \<le> k \<Longrightarrow> reservation_map (as_ledger st n) (ae_uuid env k) = None
           \<and> uncommited_map (as_ledger st n) (ae_uuid env k) = None"
    and "\<And>m. m \<notin> set (map rv_node_id frs) \<Longrightarrow> bookings (as_ledger s m) = bookings (as_ledger st m)"
  shows "bookings (as_ledger (fold (cancel_fragment env) frs s) m) = bookings (as_ledger st m)"
  using assms(1,2,5)
proof (induction frs arbitrary: s)
  case (Cons frag frs)
  let ?s = "cancel_fragment env frag s"
  have p: "placed env flags st s frag" using Cons.prems by simp
  note c = cancel_placed [OF p assms(3,4)]
  have placed: "placed env flags st ?s z" if "z \<in> set frs" for z
  proof (rule placed_cong)
    show "placed env flags st s z" using that Cons.prems(1) by (simp add: list_all_iff)
    have "rv_node_id z \<noteq> rv_node_id frag" using that Cons.prems(2) by (simp add: image_iff) metis
    then show "bookings (as_ledger ?s (rv_node_id z)) = bookings (as_ledger s (rv_node_id z))" by (simp add: c(2))
  qed simp_all
  have "bookings (as_ledger (fold (cancel_fragment env) frs ?s) m) = bookings (as_ledger st m)"
  proof (rule Cons.IH)
    fix m assume m: "m \<notin> set (map rv_node_id frs)"
    show "bookings (as_ledger ?s m) = bookings (as_ledger st m)"
    proof (cases "m = rv_node_id frag")
      case False
      with m Cons.prems(3) [of m] show ?thesis by (simp add: c(2))
    qed (simp add: c(1))
  qed (use placed Cons.prems(2) in \<open>simp_all add: list_all_iff\<close>)
  then show ?case by simp
qed simp

lemma foldl_insert_finite: "finite (dom m) \<Longrightarrow> finite (dom (foldl (\<lambda>m (n, v). m(n \<mapsto> v)) m xs))"
  by (induction xs arbitrary: m) auto

lemma safe_refresh_keeps:
  assumes "safe_refresh_peer_data env st = (r, st')"
  shows "as_ledger st' = as_ledger st \<and> as_drawn st' = as_drawn st
    \<and> as_locks st' = as_locks st \<and> as_db st' = as_db st
    \<and> (finite (dom (as_storage_map st)) \<longrightarrow> finite (dom (as_storage_map st')))"
  using assms
  by (auto simp: safe_refresh_peer_data_def refresh_peer_data_def foldl_insert_finite
      split: if_splits option.splits)

text \<open>Every way through \<open>reserve_chunks\<close> either refuses without touching a ledger or reserves a
  complete plan.\<close>

lemma reserve_chunks_cases:
  assumes "reserve_chunks env sz flags b f mode st = Some (r, st')" "iterates env" "finite (dom (as_storage_map st))"
  obtains (refused) e where "r = Err e" "as_ledger st' = as_ledger st"
  | (plan) st1 targets where "as_ledger st1 = as_ledger st" "as_drawn st1 = as_drawn st"
      "distinct (map fst targets)" "planned targets = unat sz"
      "reserve_targets env flags b f targets st1 = Some (r, st')"
      "as_locks st1 = as_locks st" "as_db st1 = as_db st"
proof -
  obtain targets rem where t: "resolve_targets env sz mode st = (targets, rem)" by (rule prod.exhaust)
  note exact = resolve_targets_exact [OF t assms(2,3)]
  show ?thesis
  proof (cases "rem = 0")
    case True
    with exact assms(1) t show ?thesis by (intro plan [of st targets]) (simp_all add: reserve_chunks_def)
  next
    case False
    then have pos: "0 < rem" by (simp add: word_neq_0_conv)
    obtain q st1 where q: "safe_refresh_peer_data env st = (q, st1)" by (rule prod.exhaust)
    note keeps = safe_refresh_keeps [OF q]
    obtain targets' rem' where t': "resolve_targets env sz mode st1 = (targets', rem')" by (rule prod.exhaust)
    note exact' = resolve_targets_exact [OF t' assms(2)]
    show ?thesis
    proof (cases "q = Ok True \<and> rem' = 0")
      case True
      with exact' keeps assms t t' q pos show ?thesis
        by (intro plan [of st1 targets']) (simp_all add: reserve_chunks_def)
    next
      case False
      have "\<exists>e. r = Err e \<and> st' = st1"
      proof (cases q)
        case (Ok refreshed)
        with False assms(1) t t' q pos show ?thesis
          by (cases refreshed) (auto simp: reserve_chunks_def word_neq_0_conv)
      next
        case (Err e)
        with assms(1) t q pos show ?thesis by (auto simp: reserve_chunks_def)
      qed
      with keeps show ?thesis by (auto intro: refused)
    qed
  qed
qed

text \<open>C7. A reservation that succeeds is complete. The parts lie on pairwise different nodes, their
  sizes add up to the size of the file, each node has recorded a reservation of exactly its part
  under the chunk id that was returned, empty so far and durable exactly when asked for, and no
  other node's reservations have changed.\<close>

theorem reservation_complete:
  assumes "reserve_chunks env sz flags b f mode st = Some (Ok frags, st')"
    and "linked env" "iterates env" "finite (dom (as_storage_map st))"
  shows "distinct (map rv_node_id frags) \<and> sum_list (map (unat \<circ> rv_size) frags) = unat sz
    \<and> list_all (\<lambda>x. booked (rv_chunk_id x) (rv_size x) (rf_durable flags)
        (as_ledger st (rv_node_id x)) (as_ledger st' (rv_node_id x))) frags
    \<and> (\<forall>n. n \<notin> rv_node_id ` set frags \<longrightarrow> bookings (as_ledger st' n) = bookings (as_ledger st n))"
  using assms(1,3,4)
proof (cases rule: reserve_chunks_cases)
  case (plan st1 targets)
  then have run: "reserve_all env b f flags targets [] st1 = Some (Ok (), frags, st')"
    by (auto simp: reserve_targets_def split: option.splits result.splits)
  from reserve_all_run [OF run assms(2) plan(3)]
  have t: "map (\<lambda>x. (rv_node_id x, rv_size x)) frags = targets" and d: "distinct (map rv_node_id frags)"
    and p: "list_all (placed env flags st1 st') frags"
    and o: "\<forall>m. m \<notin> set (map rv_node_id frags) \<longrightarrow> bookings (as_ledger st' m) = bookings (as_ledger st1 m)"
    by auto
  have "sum_list (map (unat \<circ> rv_size) frags) = unat sz"
    using plan(4) t by (auto simp: planned_def comp_def)
  with d p o plan(1) show ?thesis by (auto simp: list_all_iff placed_def)
qed simp

lemma two_nodes_plan:
  "room 1 = 1000 \<Longrightarrow> resolve_targets two_nodes_env 1500 PreferSelfThenMostFree (two_nodes room db)
     = ([(1, 1000), (2, 500)], 0)"
  by (simp add: resolve_targets_def push_most_used_def two_nodes_def two_nodes_env_def plain_ledger_def
      ledger_new_def get_available_space_def Let_def)

lemma two_nodes_iterates: "iterates two_nodes_env" "linked two_nodes_env"
  by (simp_all add: iterates_def linked_def two_nodes_env_def)

lemmas run_two_nodes = reserve_targets_def try_reserve_chunk_def two_nodes_def two_nodes_env_def
  open_channel_def request_def remote_run_def node_at_def node_env_at_def channel_to_def handle_reserve_def
  packet_handler_new_def send_out_def set_ledger_def try_reserve_def plain_defs Let_def

theorem reservation_complete_witness:
  "\<exists>frags st'. reserve_chunks two_nodes_env 1500 \<lparr>rf_auto_start = False, rf_durable = True, rf_temp = False,
        rf_overwrite = False\<rparr> 11 12 PreferSelfThenMostFree (two_nodes (\<lambda>_. 1000) no_rows) = Some (Ok frags, st')
    \<and> map rv_size frags = [1000, 500]
    \<and> distinct (map rv_node_id frags) \<and> sum_list (map (unat \<circ> rv_size) frags) = 1500"
proof -
  obtain frags st' where run: "reserve_chunks two_nodes_env 1500 \<lparr>rf_auto_start = False, rf_durable = True,
      rf_temp = False, rf_overwrite = False\<rparr> 11 12 PreferSelfThenMostFree (two_nodes (\<lambda>_. 1000) no_rows)
      = Some (Ok frags, st')" and "map rv_size frags = [1000, 500]"
    by (simp add: reserve_chunks_def two_nodes_plan) (simp add: run_two_nodes)
  then show ?thesis
    using reservation_complete [OF run two_nodes_iterates(2,1)] by (simp add: two_nodes_def)
qed

text \<open>C8. A reservation that fails leaves no trace. When one of the nodes refuses its part, the parts
  that were already reserved are given back, so that afterwards the reservations, the uncommitted
  chunks and the reserved space of every node are what they were before. This holds for the
  reservations of a one-shot upload, whose channels stay open, on nodes that can answer.\<close>

theorem failed_reservation_leaves_no_trace:
  assumes "reserve_chunks env sz flags b f mode st = Some (Err e, st')"
    and "linked env" "iterates env" "finite (dom (as_storage_map st))" "\<not> rf_temp flags"
    and "\<And>k n. as_drawn st \<le> k \<Longrightarrow> reservation_map (as_ledger st n) (ae_uuid env k) = None
           \<and> uncommited_map (as_ledger st n) (ae_uuid env k) = None"
  shows "bookings (as_ledger st' n) = bookings (as_ledger st n)"
  using assms(1,3,4)
proof (cases rule: reserve_chunks_cases)
  case (plan st1 targets)
  from plan(5) obtain e' frags s where run: "reserve_all env b f flags targets [] st1 = Some (Err e', frags, s)"
    and st': "st' = fold (cancel_fragment env) frags s"
    by (auto simp: reserve_targets_def split: option.splits result.splits)
  from reserve_all_run [OF run assms(2) plan(3)]
  have d: "distinct (map rv_node_id frags)" and p: "list_all (placed env flags st1 s) frags"
    and o: "\<And>m. m \<notin> set (map rv_node_id frags) \<Longrightarrow> bookings (as_ledger s m) = bookings (as_ledger st1 m)"
    by auto
  from cancel_all [OF p d assms(5) _ o] assms(6) plan(1,2) show ?thesis by (simp add: st')
qed simp

theorem failed_reservation_leaves_no_trace_witness:
  "\<exists>st'. reserve_chunks two_nodes_env 1500 \<lparr>rf_auto_start = False, rf_durable = True, rf_temp = False,
        rf_overwrite = False\<rparr> 11 12 PreferSelfThenMostFree (two_nodes (\<lambda>n. if n = 1 then 1000 else 100) no_rows)
      = Some (Err (InsufficientStorage ''Remote reservation failed''), st')
    \<and> bookings (as_ledger st' 1) = (Map.empty, Map.empty, 0)"
proof -
  let ?st = "two_nodes (\<lambda>n. if n = 1 then 1000 else 100) no_rows"
  obtain st' where run: "reserve_chunks two_nodes_env 1500 \<lparr>rf_auto_start = False, rf_durable = True,
      rf_temp = False, rf_overwrite = False\<rparr> 11 12 PreferSelfThenMostFree ?st
      = Some (Err (InsufficientStorage ''Remote reservation failed''), st')"
    by (simp add: reserve_chunks_def two_nodes_plan) (simp add: run_two_nodes respond_close_def close_channel_def)
  have "bookings (as_ledger st' 1) = bookings (as_ledger ?st 1)"
    by (rule failed_reservation_leaves_no_trace [OF run two_nodes_iterates(2,1)])
      (simp_all add: two_nodes_def plain_ledger_def ledger_new_def)
  with run show ?thesis by (simp add: two_nodes_def plain_ledger_def ledger_new_def bookings_def)
qed

subsection \<open>Reservations of a durable upload\<close>

lemma cancel_temp_elsewhere:
  assumes "list_all (placed env flags st s) frags" "rf_temp flags" "m \<noteq> ae_self env"
  shows "as_ledger (fold (cancel_fragment env) frags s') m = as_ledger s' m"
  using assms(1)
proof (induction frags arbitrary: s')
  case (Cons frag frags)
  have "as_ledger (cancel_fragment env frag s') m = as_ledger s' m"
    using Cons.prems assms(2,3)
    by (cases "rv_channel frag") (auto simp: placed_def cancel_fragment_def set_ledger_def notify_def)
  with Cons show ?case by simp
qed simp

text \<open>The reservations of a durable upload are not given back. A peer closes the channel of a
  \<open>temp\<close> reservation right after it has answered, and ignores the cancellation that arrives on
  it later: when a later part is refused and the upload fails, a part that a peer has granted stays
  reserved there.\<close>

theorem temp_reservation_kept_on_failure:
  assumes "reserve_targets env flags b f ((n, sz) # targets) st = Some (Err e, st')"
    and "try_reserve_chunk env n sz b f flags st = Some (Ok frag, st1)"
    and "rf_temp flags" "n \<noteq> ae_self env" "linked env" "distinct (n # map fst targets)"
  shows "booked (rv_chunk_id frag) sz (rf_durable flags) (as_ledger st n) (as_ledger st' n)"
proof -
  from assms(1) obtain e' frags s where run: "reserve_all env b f flags ((n, sz) # targets) [] st = Some (Err e', frags, s)"
    and st': "st' = fold (cancel_fragment env) frags s"
    by (auto simp: reserve_targets_def split: option.splits result.splits)
  then have rest: "reserve_all env b f flags targets [frag] st1 = Some (Err e', frags, s)"
    using assms(2) by simp
  from reserve_all_run [OF rest assms(5)] assms(6) have first: "frag \<in> set frags" by auto
  have placed: "list_all (placed env flags st s) frags"
    using reserve_all_run [OF run assms(5)] assms(6) by auto
  have "rv_node_id frag = n" "rv_size frag = sz"
    using try_reserve_chunk_Ok [OF assms(2,5)] by (simp_all add: reserved_at_def)
  then have "booked (rv_chunk_id frag) sz (rf_durable flags) (as_ledger st n) (as_ledger s n)"
    using placed first by (auto simp: list_all_iff placed_def)
  then show ?thesis using cancel_temp_elsewhere [OF placed assms(3,4), of s] by (simp add: st')
qed

theorem temp_reservation_kept_on_failure_witness:
  "\<exists>st'. reserve_targets two_nodes_env \<lparr>rf_auto_start = False, rf_durable = True, rf_temp = True,
        rf_overwrite = False\<rparr> 11 12 [(2, 500), (1, 2000)] (two_nodes (\<lambda>_. 1000) no_rows)
      = Some (Err (InsufficientStorage ''Remote reservation failed''), st')
    \<and> booked 100 500 True (plain_ledger 1000) (as_ledger st' 2)"
proof -
  let ?st = "two_nodes (\<lambda>_. 1000) no_rows"
  let ?fl = "\<lparr>rf_auto_start = False, rf_durable = True, rf_temp = True, rf_overwrite = False\<rparr>"
  obtain frag st1 where frag: "try_reserve_chunk two_nodes_env 2 500 11 12 ?fl ?st = Some (Ok frag, st1)"
    and i: "rv_chunk_id frag = 100"
    by (simp add: run_two_nodes pause_reservation_def refresh_reservation_def close_channel_def)
  obtain st' where run: "reserve_targets two_nodes_env ?fl 11 12 [(2, 500), (1, 2000)] ?st
      = Some (Err (InsufficientStorage ''Remote reservation failed''), st')"
    by (simp add: run_two_nodes pause_reservation_def refresh_reservation_def close_channel_def)
  from temp_reservation_kept_on_failure [OF run frag _ _ two_nodes_iterates(2)] run i show ?thesis
    by (simp add: two_nodes_def two_nodes_env_def)
qed

end
