(* ===== verification/Upload_Sessions.thy ===== *)
theory Upload_Sessions
  imports File_Access Fragment_Ledger
begin

section \<open>Upload sessions\<close>

text \<open>
  \<^verbatim>\<open>node/src/public/service/durable_transfer_session_manager.rs\<close>: the rows that describe uploads in
  progress, shared by all nodes through the database.

  A session is locked by changing its state with a lightweight transaction on the last access, so
  that of several requests that have read the same row only one gets it. The times at which the
  requests run are arguments. The space promised to the sessions of a bucket is counted when a new
  upload asks for quota; sessions that have expired are removed on the way.
\<close>

subsection \<open>Operations\<close>

definition start_session :: "'db cql \<Rightarrow> BucketUploadSession \<Rightarrow> 'db \<Rightarrow> (uuid, NodeClientError) result \<times> 'db" where
  "start_session c session db =
     (case insert_upload_session c session db of
        (Ok _, db') \<Rightarrow> (Ok (s_id session), db')
      | (Err e, db') \<Rightarrow> (Err (node_from_data e), db'))"

definition update_session :: "'db cql \<Rightarrow> timestamp \<Rightarrow> BucketUploadSession \<Rightarrow> 'db \<Rightarrow>
    (unit, NodeClientError) result \<times> BucketUploadSession \<times> 'db" where
  "update_session c utc_now session db =
     (let (r, session', db') = try_update_upload_session c utc_now session db
      in (map_err node_from_data r, session', db'))"

definition get_session :: "'db cql \<Rightarrow> 'db \<Rightarrow> uuid \<Rightarrow> uuid \<Rightarrow> uuid \<Rightarrow> (BucketUploadSession, NodeClientError) result" where
  "get_session c db app_id bucket_id i = map_err (\<lambda>_. NoSuchSession) (get_upload_session c db app_id bucket_id i)"

definition try_lock_session :: "'db cql \<Rightarrow> timestamp \<Rightarrow> BucketUploadSession \<Rightarrow> SessionState \<Rightarrow> SessionState \<Rightarrow> 'db \<Rightarrow>
    (unit, NodeClientError) result \<times> BucketUploadSession \<times> 'db" where
  "try_lock_session c utc_now session expected target db =
     (if s_state session \<noteq> session_state_i8 expected then (Err BadRequest, session, db)
      else
        (let (r, session', db') = try_update_upload_session c utc_now
               (session\<lparr>s_state := session_state_i8 target\<rparr>) db
         in (map_err node_from_data r, session', db')))"

definition manager_end_session :: "'db cql \<Rightarrow> uuid \<Rightarrow> uuid \<Rightarrow> uuid \<Rightarrow> 'db \<Rightarrow> 'db" where
  "manager_end_session c app_id bucket_id i db = snd (delete_upload_session_by c app_id bucket_id i db)"

definition session_valid :: "timestamp \<Rightarrow> BucketUploadSession \<Rightarrow> bool" where
  "session_valid utc_now session =
     (utc_now - s_last_access session \<le>
        1000 * (if s_durable session then int DURABLE_UPLOAD_SESSION_VALIDITY_TIME_SECS else 2 * 60))"

definition validate_session :: "'db cql \<Rightarrow> timestamp \<Rightarrow> BucketUploadSession \<Rightarrow> 'db \<Rightarrow> bool \<times> 'db" where
  "validate_session c utc_now session db =
     (let valid = session_valid utc_now session
      in (valid, if valid then db
                 else manager_end_session c (s_app_id session) (s_bucket session) (s_id session) db))"

text \<open>The loop over the rows of the bucket; \<open>utc_now\<close> gives the time of each step.\<close>

fun sum_sessions :: "'db cql \<Rightarrow> (nat \<Rightarrow> timestamp) \<Rightarrow> i64 \<Rightarrow> BucketUploadSession list \<Rightarrow> 'db \<Rightarrow> i64 \<times> 'db" where
  "sum_sessions c utc_now total_size [] db = (total_size, db)"
| "sum_sessions c utc_now total_size (session # rows) db =
     (let (valid, db') = validate_session c (utc_now (length rows)) session db
      in sum_sessions c utc_now (if valid then i64_add total_size (s_size session) else total_size) rows db')"

definition get_reserved_space :: "'db cql \<Rightarrow> (nat \<Rightarrow> timestamp) \<Rightarrow> uuid \<Rightarrow> uuid \<Rightarrow> 'db \<Rightarrow>
    (i64, NodeClientError) result \<times> 'db" where
  "get_reserved_space c utc_now app_id bucket_id db =
     (case get_upload_sessions c db app_id bucket_id of
        Err e \<Rightarrow> (Err (node_from_data e), db)
      | Ok rows \<Rightarrow> (let (total_size, db') = sum_sessions c utc_now 0 rows db in (Ok total_size, db')))"

subsection \<open>Locking a session\<close>

text \<open>Requests that have all read the row \<open>session\<close> try to lock it one after the other, each at its
  own time; which of them succeed.\<close>

fun lock_attempts :: "'db cql \<Rightarrow> BucketUploadSession \<Rightarrow> SessionState \<Rightarrow> SessionState \<Rightarrow> timestamp list \<Rightarrow> 'db \<Rightarrow> bool list" where
  "lock_attempts c session expected target [] db = []"
| "lock_attempts c session expected target (t # ts) db =
     (let (r, _, db') = try_lock_session c t session expected target db
      in is_ok r # lock_attempts c session expected target ts db')"

lemma length_lock_attempts [simp]: "length (lock_attempts c s e tg ts db) = length ts"
  by (induction ts arbitrary: db) (simp_all add: split_beta Let_def)

lemma session_key_update [simp]:
  "session_key (s\<lparr>s_state := x\<rparr>) = session_key s" "session_key (s\<lparr>s_last_access := t\<rparr>) = session_key s"
  by (simp_all add: session_key_def)

context cql_service
begin

text \<open>The row has been touched since it was read.\<close>

definition touched :: "BucketUploadSession \<Rightarrow> 'db \<Rightarrow> bool" where
  "touched s db \<longleftrightarrow> (\<forall>s0. t_sessions (view db) (session_key s) = Some s0 \<longrightarrow> s_last_access s0 \<noteq> s_last_access s)"

lemma try_lock_touches:
  assumes "try_lock_session c t s e tg db = (Ok u, s', db')" "t \<noteq> s_last_access s"
  shows "touched s db'"
proof -
  let ?s = "s\<lparr>s_state := session_state_i8 tg, s_last_access := t\<rparr>"
  from assms(1) obtain x where "lwt_session c db ?s (s_last_access s) = (Ok (Some (True, x)), db')"
    by (auto simp: try_lock_session_def try_update_upload_session_def Let_def
        split: if_splits prod.splits result.splits option.splits)
  from lwt_session_ok [OF this] assms(2) show ?thesis by (simp add: touched_def)
qed

lemma touched_fails:
  assumes "try_lock_session c t s e tg db = (r, s', db')" "touched s db"
  shows "\<not> is_ok r \<and> touched s db'"
proof (cases "s_state s = session_state_i8 e")
  case True
  let ?s = "s\<lparr>s_state := session_state_i8 tg, s_last_access := t\<rparr>"
  obtain q d where q: "lwt_session c db ?s (s_last_access s) = (q, d)" by (rule prod.exhaust)
  have key: "session_key ?s = session_key s" by (simp add: session_key_def)
  consider x where "q = Ok (Some (True, x))" | x where "q = Ok (Some (False, x))" | "q = Ok None"
    | err where "q = Err err" by (metis (full_types) option.exhaust prod.exhaust result.exhaust)
  then have "(\<forall>x. q \<noteq> Ok (Some (True, x))) \<and> touched s d"
  proof cases
    case 1
    with lwt_session_ok [OF q [unfolded 1]] assms(2) show ?thesis by (auto simp: touched_def key)
  next
    case 2
    with lwt_session_no [OF q [unfolded 2]] assms(2) show ?thesis by (simp add: touched_def)
  next
    case 3
    with lwt_session_none [OF q [unfolded 3]] assms(2) show ?thesis by (simp add: touched_def)
  next
    case 4
    with lwt_session_err [OF q [unfolded 4]] assms(2) show ?thesis by (auto simp: touched_def key)
  qed
  with assms(1) True q show ?thesis
    by (auto simp: try_lock_session_def try_update_upload_session_def Let_def
        split: result.splits option.splits prod.splits if_splits)
next
  case False
  with assms show ?thesis by (auto simp: try_lock_session_def)
qed

lemma touched_attempts: "touched s db \<Longrightarrow> True \<notin> set (lock_attempts c s e tg ts db)"
proof (induction ts arbitrary: db)
  case (Cons t ts)
  obtain r s' db' where "try_lock_session c t s e tg db = (r, s', db')" by (metis prod.exhaust)
  with touched_fails [OF this Cons.prems] Cons.IH show ?case by auto
qed simp

lemma at_most_one_lock:
  assumes "s_last_access s \<notin> set ts"
  shows "length (filter id (lock_attempts c s e tg ts db)) \<le> 1"
  using assms
proof (induction ts arbitrary: db)
  case (Cons t ts)
  obtain r s' db' where attempt: "try_lock_session c t s e tg db = (r, s', db')" by (metis prod.exhaust)
  show ?case
  proof (cases r)
    case (Ok u)
    with try_lock_touches [of t s e tg db u s' db'] attempt Cons.prems have "touched s db'" by auto
    from touched_attempts [OF this] attempt Ok show ?thesis by (auto simp: filter_empty_conv)
  next
    case (Err e)
    with attempt Cons show ?thesis by simp
  qed
qed simp

lemma none_after_touch: "touched s db \<Longrightarrow> lock_attempts c s e tg ts db = replicate (length ts) False"
  using touched_attempts [of s db e tg ts] by (intro replicate_eqI) auto

end

text \<open>On a database that answers, the first request gets the row that it has read.\<close>

context reliable_cql
begin

lemma first_lock:
  assumes "t_sessions (view db) (session_key s) = Some s" "s_state s = session_state_i8 e" "s_last_access s \<notin> set (t # ts)"
  shows "lock_attempts c s e tg (t # ts) db = True # replicate (length ts) False"
proof -
  let ?s = "s\<lparr>s_state := session_state_i8 tg, s_last_access := t\<rparr>"
  have key: "session_key ?s = session_key s" by (simp add: session_key_def)
  obtain y db' where y: "lwt_session c db ?s (s_last_access s) = (Ok (Some y), db')"
    using lwt_session_up [of db ?s "s_last_access s"] assms(1) key by auto
  have "fst y" using lwt_session_no [of db ?s "s_last_access s" "snd y" db'] y assms(1) key by (cases y) auto
  then have run: "try_lock_session c t s e tg db = (Ok (), ?s, db')"
    using y assms(2)
    by (cases y) (simp add: try_lock_session_def try_update_upload_session_def Let_def)
  then show ?thesis using none_after_touch [OF try_lock_touches [OF run]] assms(3) by simp
qed

end

text \<open>C20. A session is locked by one request only. Of any number of requests that have read the same
  session row and try to lock it, at most one succeeds, whatever state is asked for and even when
  statements fail in between. On a database that answers, and when the row is still the one they
  have read and in the state they expect, the first of them succeeds and all others are refused.
  Both hold provided that no request runs in the very millisecond in which the row was last accessed.\<close>

theorem session_lock_exclusive:
  assumes "cql_service c view" "s_last_access session \<notin> set ts"
  shows "length (filter id (lock_attempts c session expected target ts db)) \<le> 1
    \<and> (reliable_cql c view \<and> t_sessions (view db) (session_key session) = Some session
         \<and> s_state session = session_state_i8 expected \<and> ts \<noteq> [] \<longrightarrow>
       lock_attempts c session expected target ts db = True # replicate (length ts - 1) False)"
proof (intro conjI impI)
  show "length (filter id (lock_attempts c session expected target ts db)) \<le> 1"
    using assms by (rule cql_service.at_most_one_lock)
  assume "reliable_cql c view \<and> t_sessions (view db) (session_key session) = Some session
    \<and> s_state session = session_state_i8 expected \<and> ts \<noteq> []"
  then show "lock_attempts c session expected target ts db = True # replicate (length ts - 1) False"
    using reliable_cql.first_lock assms(2) by (cases ts) fastforce+
qed

definition sample_session :: BucketUploadSession where
  "sample_session = \<lparr>s_app_id = 1, s_bucket = 2, s_id = 3, s_file_id = 4, s_path = ''a'', s_size = 10,
     s_durable = True, s_fragments = [], s_last_access = 500, s_state = 2\<rparr>"

definition session_db :: "BucketUploadSession list \<Rightarrow> mem_db" where
  "session_db ss = \<lparr>m_files = [], m_dirs = [], m_buckets = [], m_sessions = ss\<rparr>"

lemmas session_eval = try_lock_session_def try_update_upload_session_def mem_cql_def rows_map_def
  put_row_def session_key_def sample_session_def session_db_def Let_def

theorem session_lock_exclusive_witness:
  "lock_attempts mem_cql sample_session AwaitingData Writing [600, 601, 600] (session_db [sample_session])
     = [True, False, False]"
proof -
  have "t_sessions (mem_view (session_db [sample_session])) (session_key sample_session) = Some sample_session"
    "s_state sample_session = session_state_i8 AwaitingData" "s_last_access sample_session \<notin> set [600, 601, 600]"
    by (simp_all add: mem_view_def session_db_def rows_map_def sample_session_def)
  then show ?thesis
    using session_lock_exclusive [OF mem_db.cql_service_axioms, of sample_session "[600, 601, 600]" AwaitingData Writing
        "session_db [sample_session]"] mem_up.reliable_cql_axioms
    by (simp add: numeral_2_eq_2)
qed

text \<open>In the millisecond of the last access the transaction does not notice the other request.\<close>

lemma session_lock_same_millisecond:
  "lock_attempts mem_cql sample_session AwaitingData Writing [500, 500] (session_db [sample_session]) = [True, True]"
  by (simp add: session_eval)

subsection \<open>Space promised to the sessions of a bucket\<close>

lemma sum_sessions_total:
  "in_i64 n \<Longrightarrow> fst (sum_sessions c (\<lambda>_. t) n rows db) = wrap_i64 (n + sum_list (map s_size (filter (session_valid t) rows)))"
proof (induction rows arbitrary: n db)
  case (Cons r rows)
  have "wrap_i64 (i64_add n (s_size r) + x) = wrap_i64 (n + (s_size r + x))" for x
    by (simp add: i64_add_def wrap_i64_add_left add.assoc)
  then show ?case
    using Cons by (simp add: validate_session_def Let_def i64_add_def)
qed simp

lemma reserved_space_exact:
  assumes "get_reserved_space c (\<lambda>_. t) a b db = (Ok n, db')"
  shows "\<exists>rows. get_upload_sessions c db a b = Ok rows
    \<and> n = wrap_i64 (sum_list (map s_size (filter (session_valid t) rows)))"
  using assms sum_sessions_total [of 0 c t]
  by (auto simp: get_reserved_space_def in_i64_def split: result.splits prod.splits) (metis fst_conv)

end
