(* ===== verification/File_Upload.thy ===== *)
theory File_Upload
  imports File_Download Reservation_Service Upload_Sessions
begin

section \<open>Uploads, deletion and renaming of files\<close>

text \<open>
  \<^verbatim>\<open>node/src/public/service/file_action_service.rs\<close> and the upload requests of
  \<^verbatim>\<open>file_access_service.rs\<close>. The body of a request is the list of its bytes; each transfer takes its
  part from the front.

  While a transfer runs, a task wakes up every minute to keep the uncommitted chunks and the session
  alive. How often it wakes up before each chunk is the argument \<open>ticks\<close>. Futures that are joined run in
  the order of their list, and the first error ends them; they concern different chunks. A commit is
  always answered, so a wake-up that hangs does not occur and leaves the state as it is here.
\<close>

subsection \<open>Deleting and renaming files\<close>

fun remove_chunks :: "('st, 'db) app_env \<Rightarrow> FileChunk list \<Rightarrow> ('st, 'db) app_state \<Rightarrow> ('st, 'db) app_state" where
  "remove_chunks env [] st = st"
| "remove_chunks env (chunk # chunks) st =
     remove_chunks env chunks
       (if server_id chunk = ae_self env
        then set_ledger (ae_self env) (snd (delete_chunk (ae_ledger env (ae_self env)) (chunk_id chunk)
               (as_ledger st (ae_self env)))) st
        else case open_channel env (server_id chunk) of
               Err _ \<Rightarrow> st
             | Ok ch \<Rightarrow> notify env (HDeleteChunk (chunk_id chunk)) ch st)"

definition do_delete_file :: "('st, 'db) app_env \<Rightarrow> File \<Rightarrow> Bucket \<Rightarrow> (unit, 'st, 'db) service" where
  "do_delete_file env file bucket st =
     db_update (delete_file (ae_cql env) (ae_others env) file bucket) (remove_chunks env (f_chunk_ids file) st)"

definition delete_file_srv ::
    "('st, 'db) app_env \<Rightarrow> EntryPath \<Rightarrow> BucketAccessor \<Rightarrow> (unit, 'st, 'db) service" where
  "delete_file_srv env path accessor =
     then_svc (of_result (has_permission accessor (e_app_id path) (e_bucket_id path) DELETE_ALLOWANCE)) (\<lambda>_.
     let (dir, name) = split_path (e_path path) in
     then_svc (db_query (\<lambda>db. get_bucket (ae_cql env) db (e_app_id path) (e_bucket_id path))) (\<lambda>bucket.
     then_svc (db_query (\<lambda>db. get_file_dir (ae_cql env) db (e_bucket_id path) dir name)) (\<lambda>(file, _).
     do_delete_file env file bucket)))"

definition move_file ::
    "('st, 'db) app_env \<Rightarrow> File \<Rightarrow> Directory option \<Rightarrow> string \<Rightarrow> (unit, 'st, 'db) service" where
  "move_file env file dir name =
     then_svc (db_update (update_file_path (ae_cql env) (ae_utc_now env) file (DID_of dir) name))
       (\<lambda>_. of_result (Ok ()))"

definition rename_file_srv ::
    "('st, 'db) app_env \<Rightarrow> EntryPath \<Rightarrow> string \<Rightarrow> BucketAccessor \<Rightarrow> (unit, 'st, 'db) service" where
  "rename_file_srv env path to_path accessor =
     (if e_path path = to_path then of_result (Ok ())
      else
        let (old_dir, old_name) = split_path (e_path path); (new_dir, new_name) = split_path to_path in
        then_svc (db_query (\<lambda>db. get_file_dir (ae_cql env) db (e_bucket_id path) old_dir old_name)) (\<lambda>(old_file, _).
        then_svc (db_query (\<lambda>db. maybe_get_file_dir (ae_cql env) db (e_bucket_id path) new_dir new_name)) (\<lambda>(new_file, dir).
        case new_file of
          None \<Rightarrow> move_file env old_file dir new_name
        | Some existing \<Rightarrow>
            then_svc (of_result (has_permission accessor (e_app_id path) (e_bucket_id path) DELETE_ALLOWANCE)) (\<lambda>_.
            then_svc (db_query (\<lambda>db. get_bucket (ae_cql env) db (e_app_id path) (e_bucket_id path))) (\<lambda>bucket.
            then_svc (do_delete_file env existing bucket) (\<lambda>_.
            move_file env old_file dir new_name))))))"

subsection \<open>Before an upload\<close>

definition draw_uuid :: "('st, 'db) app_env \<Rightarrow> (uuid, 'st, 'db) service" where
  "draw_uuid env st = Some (Ok (ae_uuid env (as_drawn st)), st\<lparr>as_drawn := Suc (as_drawn st)\<rparr>)"

text \<open>Whether a file is overwritten, and the file that is left to be deleted at the end. In a bucket
  without atomic uploads it is deleted at once.\<close>

definition check_overwrite ::
    "('st, 'db) app_env \<Rightarrow> EntryPath \<Rightarrow> BucketAccessor \<Rightarrow> Bucket \<Rightarrow> (bool \<times> File option, 'st, 'db) service" where
  "check_overwrite env path accessor bucket st =
     (let (dir, name) = split_path (e_path path) in
      case get_file_dir (ae_cql env) (as_db st) (e_bucket_id path) dir name of
        Err _ \<Rightarrow> Some (Ok (False, None), st)
      | Ok (file, _) \<Rightarrow>
          then_svc (of_result (has_permission accessor (e_app_id path) (e_bucket_id path) UPLOAD_OVERWRITE_ALLOWANCE)) (\<lambda>_.
          if atomic_upload bucket then of_result (Ok (True, Some file))
          else then_svc (do_delete_file env file bucket) (\<lambda>_. of_result (Ok (True, None)))) st)"

definition decimal_i64 :: "i64 \<Rightarrow> string" where
  "decimal_i64 i = (if i < 0 then CHR ''-'' # decimal (nat (- i)) else decimal (nat i))"

definition check_quota ::
    "('st, 'db) app_env \<Rightarrow> uuid \<Rightarrow> uuid \<Rightarrow> Bucket \<Rightarrow> u64 \<Rightarrow> (unit, 'st, 'db) service" where
  "check_quota env app_id bucket_id bucket sz =
     then_svc (\<lambda>st. case get_reserved_space (ae_cql env) (\<lambda>_. ae_utc_now env) app_id bucket_id (as_db st) of
                     (r, db) \<Rightarrow> Some (r, st\<lparr>as_db := db\<rparr>)) (\<lambda>reserved.
     of_result
       (if i64_add (i64_add (space_taken bucket) (as_i64 sz)) reserved > b_quota bucket
        then Err (InsufficientStorage (''Insufficient space in bucket. quota='' @ decimal_i64 (b_quota bucket)
               @ '', size='' @ decimal (unat sz) @ '', taken='' @ decimal_i64 (space_taken bucket)
               @ '', reserved='' @ decimal_i64 reserved))
        else Ok ()))"

subsection \<open>The notifier\<close>

fun join_commits :: "('st, 'db) app_env \<Rightarrow> CommitFlags \<Rightarrow> FileChunk list \<Rightarrow> (unit, 'st, 'db) service" where
  "join_commits env flags [] = of_result (Ok ())"
| "join_commits env flags (chunk # chunks) =
     then_svc (service_commit_chunk env flags (server_id chunk) (chunk_id chunk)) (\<lambda>_.
     join_commits env flags chunks)"

definition notifier_tick ::
    "('st, 'db) app_env \<Rightarrow> BucketUploadSession \<times> ('st, 'db) app_state \<Rightarrow> BucketUploadSession \<times> ('st, 'db) app_state" where
  "notifier_tick env x =
     (let (session, st) = x in
      case join_commits env commit_keep_alive (s_fragments session) st of
        None \<Rightarrow> (session, st)
      | Some (_, st') \<Rightarrow>
          (let (_, session', db) = update_session (ae_cql env) (ae_utc_now env) session (as_db st')
           in (session', st'\<lparr>as_db := db\<rparr>)))"

subsection \<open>Ending an upload\<close>

definition end_session ::
    "('st, 'db) app_env \<Rightarrow> string option \<times> string \<Rightarrow> i64 \<Rightarrow> BucketUploadSession \<Rightarrow> Bucket \<Rightarrow> uuid \<times> uuid \<Rightarrow>
     File option option \<Rightarrow> uuid \<Rightarrow> (unit, 'st, 'db) service" where
  "end_session env path sz session bucket app_session_ids old_file file_id =
     then_svc (join_commits env commit_final (s_fragments session)) (\<lambda>_.
     then_svc (case fst path of
                 Some directory \<Rightarrow>
                   then_svc (try_mkdir env (b_id bucket) directory) (\<lambda>dir. of_result (Ok (map_option d_id dir)))
               | None \<Rightarrow> of_result (Ok (Some ROOT_DIR))) (\<lambda>directory st.
     let file = \<lparr>f_bucket_id = b_id bucket, f_directory = or_root directory, f_name = snd path, f_id = file_id,
                 f_size = sz, f_chunk_ids = s_fragments session,
                 f_created = ae_utc_now env, f_last_modified = ae_utc_now env\<rparr>;
         found = (case get_file (ae_cql env) (as_db st) (b_id bucket) directory (snd path) of
                    Ok f \<Rightarrow> Some f | Err _ \<Rightarrow> None);
         old = (case old_file of Some f \<Rightarrow> f | None \<Rightarrow> found)
     in then_svc (case old of Some f \<Rightarrow> do_delete_file env f bucket | None \<Rightarrow> of_result (Ok ())) (\<lambda>_.
        then_svc (db_update (insert_file (ae_cql env) (ae_others env) file bucket)) (\<lambda>_ st'.
        Some (Ok (), st'\<lparr>as_db := manager_end_session (ae_cql env) (fst app_session_ids) (b_id bucket)
                           (snd app_session_ids) (as_db st')\<rparr>))) st))"

subsection \<open>Uploads in one request\<close>

fun oneshot_transfer ::
    "('st, 'db) app_env \<Rightarrow> (nat \<Rightarrow> nat) \<Rightarrow> ReservedFragment list \<Rightarrow> u8 list \<Rightarrow>
     BucketUploadSession \<times> ('st, 'db) app_state \<Rightarrow>
     (unit node_result \<times> BucketUploadSession \<times> ('st, 'db) app_state) option" where
  "oneshot_transfer env ticks [] reader x = Some (Ok (), x)"
| "oneshot_transfer env ticks (space # fragments) reader x =
     (let (session, st) = (notifier_tick env ^^ ticks (length fragments)) x in
      case inbound_transfer env reader 0 (rv_node_id space) (rv_chunk_id space) (rv_channel space)
             \<lparr>ci_chunk_buffer = rv_chunk_buffer space, ci_size = rv_size space, ci_append = False\<rparr> st of
        None \<Rightarrow> None
      | Some (Err e, st') \<Rightarrow> Some (Err e, session, st')
      | Some (Ok reader', st') \<Rightarrow> oneshot_transfer env ticks fragments reader' (session, st'))"

definition new_session ::
    "('st, 'db) app_env \<Rightarrow> EntryPath \<Rightarrow> u64 \<Rightarrow> bool \<Rightarrow> SessionState \<Rightarrow> uuid \<Rightarrow> uuid \<Rightarrow> ReservedFragment list \<Rightarrow>
     BucketUploadSession" where
  "new_session env path sz is_durable state file_id session_id fragments =
     \<lparr>s_app_id = e_app_id path, s_bucket = e_bucket_id path, s_id = session_id, s_file_id = file_id,
      s_path = e_path path, s_size = as_i64 sz, s_durable = is_durable,
      s_fragments = reserve_info_to_file_chunks fragments, s_last_access = ae_utc_now env,
      s_state = session_state_i8 state\<rparr>"

definition open_session ::
    "('st, 'db) app_env \<Rightarrow> BucketUploadSession \<Rightarrow> (uuid, 'st, 'db) service" where
  "open_session env session st =
     (case start_session (ae_cql env) session (as_db st) of (r, db) \<Rightarrow> Some (r, st\<lparr>as_db := db\<rparr>))"

text \<open>What both kinds of upload do first: the bucket, the file to overwrite, the quota, the space.\<close>

definition admit_upload ::
    "('st, 'db) app_env \<Rightarrow> EntryPath \<Rightarrow> BucketAccessor \<Rightarrow> (bool \<Rightarrow> ReserveFlags) \<Rightarrow> u64 \<Rightarrow>
     (Bucket \<times> File option \<times> uuid \<times> ReservedFragment list, 'st, 'db) service" where
  "admit_upload env path accessor flags sz =
     then_svc (db_query (\<lambda>db. get_bucket (ae_cql env) db (e_app_id path) (e_bucket_id path))) (\<lambda>bucket.
     then_svc (check_overwrite env path accessor bucket) (\<lambda>(overwrite, old_file).
     then_svc (check_quota env (e_app_id path) (e_bucket_id path) bucket sz) (\<lambda>_.
     then_svc (draw_uuid env) (\<lambda>file_id.
     then_svc (reserve_chunks env sz (flags overwrite) (b_id bucket) file_id PreferSelfThenMostFree) (\<lambda>reservation.
     of_result (Ok (bucket, old_file, file_id, reservation)))))))"

definition oneshot_flags :: "bool \<Rightarrow> ReserveFlags" where
  "oneshot_flags overwrite = \<lparr>rf_auto_start = True, rf_durable = False, rf_temp = False, rf_overwrite = overwrite\<rparr>"

definition durable_flags :: "bool \<Rightarrow> ReserveFlags" where
  "durable_flags overwrite = \<lparr>rf_auto_start = False, rf_durable = True, rf_temp = True, rf_overwrite = overwrite\<rparr>"

definition handle_upload_oneshot ::
    "('st, 'db) app_env \<Rightarrow> (nat \<Rightarrow> nat) \<Rightarrow> EntryPath \<Rightarrow> u64 \<Rightarrow> BucketAccessor \<Rightarrow> u8 list \<Rightarrow> (unit, 'st, 'db) service" where
  "handle_upload_oneshot env ticks path sz accessor reader =
     then_svc (of_result (has_permission accessor (e_app_id path) (e_bucket_id path) UPLOAD_ALLOWANCE)) (\<lambda>_.
     then_svc (admit_upload env path accessor oneshot_flags sz) (\<lambda>(bucket, old_file, file_id, reservation).
     then_svc (draw_uuid env) (\<lambda>new_id.
     let session = new_session env path sz False Writing file_id new_id reservation in
     then_svc (open_session env session) (\<lambda>session_id st.
     case oneshot_transfer env ticks reservation reader (session, st) of
       None \<Rightarrow> None
     | Some (Err e, session', st') \<Rightarrow>
         then_svc (join_commits env commit_reject (s_fragments session')) (\<lambda>_. of_result (Err e))
           (st'\<lparr>as_db := manager_end_session (ae_cql env) (e_app_id path) (e_bucket_id path) session_id (as_db st')\<rparr>)
     | Some (Ok _, session', st') \<Rightarrow>
         end_session env (split_path (e_path path)) (as_i64 sz) session' bucket (e_app_id path, session_id)
           (Some old_file) file_id st'))))"

subsection \<open>Durable uploads\<close>

text \<open>The code is the id of the session, which the response spells as text.\<close>

record UploadSessionStartResponse =
  us_code :: uuid
  us_validity :: u32
  us_uploaded :: u64

definition start_upload_session ::
    "('st, 'db) app_env \<Rightarrow> EntryPath \<Rightarrow> BucketAccessor \<Rightarrow> u64 \<Rightarrow> (UploadSessionStartResponse, 'st, 'db) service" where
  "start_upload_session env path accessor sz =
     then_svc (of_result (map_err (\<lambda>_. BadRequest)
                 (has_permission accessor (e_app_id path) (e_bucket_id path) UPLOAD_ALLOWANCE))) (\<lambda>_.
     then_svc (admit_upload env path accessor durable_flags sz) (\<lambda>(bucket, _, file_id, reservation).
     then_svc (draw_uuid env) (\<lambda>new_id.
     then_svc (open_session env (new_session env path sz True AwaitingData file_id new_id reservation)) (\<lambda>session_id.
     of_result (Ok \<lparr>us_code = session_id, us_validity = of_nat DURABLE_UPLOAD_SESSION_VALIDITY_TIME_SECS,
                    us_uploaded = 0\<rparr>)))))"

fun query_chunks :: "('st, 'db) app_env \<Rightarrow> FileChunk list \<Rightarrow> (u64 option list, 'st, 'db) service" where
  "query_chunks env [] = of_result (Ok [])"
| "query_chunks env (chunk # chunks) =
     then_svc (query_chunk env (chunk_id chunk) (server_id chunk)) (\<lambda>x.
     then_svc (query_chunks env chunks) (\<lambda>xs. of_result (Ok (x # xs))))"

definition uploaded_sum :: "u64 option list \<Rightarrow> i64" where
  "uploaded_sum items = foldl (\<lambda>s item. i64_add s (as_i64 (case item of None \<Rightarrow> 0 | Some x \<Rightarrow> x))) 0 items"

text \<open>The chunk an interrupted upload continues in, and how many of its bytes are there.\<close>

fun resume_point :: "i64 \<Rightarrow> nat \<Rightarrow> i64 \<Rightarrow> FileChunk list \<Rightarrow> (nat \<times> i64) option" where
  "resume_point already_uploaded idx cur [] = None"
| "resume_point already_uploaded idx cur (frag # frags) =
     (let cur' = i64_add cur (chunk_size frag) in
      if cur' > already_uploaded
      then Some (idx, wrap_i64 (chunk_size frag - wrap_i64 (cur' - already_uploaded)))
      else resume_point already_uploaded (Suc idx) cur' frags)"

fun durable_transfer ::
    "('st, 'db) app_env \<Rightarrow> (nat \<Rightarrow> nat) \<Rightarrow> bool \<Rightarrow> u64 \<Rightarrow> FileChunk list \<Rightarrow> u8 list \<Rightarrow>
     BucketUploadSession \<times> ('st, 'db) app_state \<Rightarrow>
     (unit node_result \<times> BucketUploadSession \<times> ('st, 'db) app_state) option" where
  "durable_transfer env ticks is_first skip [] reader x = Some (Ok (), x)"
| "durable_transfer env ticks is_first skip (chunk # chunks) reader x =
     (let (session, st) = (notifier_tick env ^^ ticks (length chunks)) x in
      case inbound_transfer env reader skip (server_id chunk) (chunk_id chunk) None
             \<lparr>ci_chunk_buffer = 0, ci_size = as_u64 (chunk_size chunk), ci_append = is_first\<rparr> st of
        None \<Rightarrow> None
      | Some (Err e, st') \<Rightarrow> Some (Err e, session, st')
      | Some (Ok reader', st') \<Rightarrow> durable_transfer env ticks False 0 chunks reader' (session, st'))"

definition lock_session ::
    "('st, 'db) app_env \<Rightarrow> BucketUploadSession \<Rightarrow> SessionState \<Rightarrow> SessionState \<Rightarrow>
     (BucketUploadSession, 'st, 'db) service" where
  "lock_session env session expected target st =
     (let (r, session', db) = try_lock_session (ae_cql env) (ae_utc_now env) session expected target (as_db st)
      in Some (and_then r (\<lambda>_. Ok session'), st\<lparr>as_db := db\<rparr>))"

definition find_session ::
    "('st, 'db) app_env \<Rightarrow> uuid \<Rightarrow> uuid \<Rightarrow> uuid \<Rightarrow> (BucketUploadSession, 'st, 'db) service" where
  "find_session env app_id bucket_id session_id st =
     Some (get_session (ae_cql env) (as_db st) app_id bucket_id session_id, st)"

definition handle_upload_durable ::
    "('st, 'db) app_env \<Rightarrow> (nat \<Rightarrow> nat) \<Rightarrow> uuid \<Rightarrow> uuid \<Rightarrow> uuid \<Rightarrow> u8 list \<Rightarrow> (unit, 'st, 'db) service" where
  "handle_upload_durable env ticks session_id app_id bucket_id reader =
     then_svc (find_session env app_id bucket_id session_id) (\<lambda>session0.
     then_svc (db_query (\<lambda>db. get_bucket (ae_cql env) db app_id bucket_id)) (\<lambda>bucket.
     then_svc (lock_session env session0 AwaitingData Writing) (\<lambda>session.
     let sorted_chunks = sort_key chunk_order (s_fragments session); path = split_path (s_path session) in
     then_svc (query_chunks env sorted_chunks) (\<lambda>items.
     let already_uploaded = uploaded_sum items in
     if already_uploaded = s_size session
     then end_session env path (s_size session) session bucket (app_id, session_id) None (s_file_id session)
     else case resume_point already_uploaded 0 0 sorted_chunks of
            None \<Rightarrow> of_result (Err InternalError)
          | Some (i, skip) \<Rightarrow> (\<lambda>st.
              let is_first = already_uploaded > 0 in
              case durable_transfer env ticks is_first (if is_first then as_u64 skip else 0) (drop i sorted_chunks)
                     reader (session, st) of
                None \<Rightarrow> None
              | Some (Err e, session', st') \<Rightarrow>
                  (let (r, _, db) = update_session (ae_cql env) (ae_utc_now env)
                         (session'\<lparr>s_state := session_state_i8 TimedOut\<rparr>) (as_db st')
                   in Some (and_then r (\<lambda>_. Err BadRequest), st'\<lparr>as_db := db\<rparr>))
              | Some (Ok _, session', st') \<Rightarrow>
                  end_session env path (s_size session') session' bucket (app_id, session_id) None
                    (s_file_id session') st')))))"

definition resume_upload_session ::
    "('st, 'db) app_env \<Rightarrow> uuid \<Rightarrow> uuid \<Rightarrow> uuid \<Rightarrow> (i64, 'st, 'db) service" where
  "resume_upload_session env app_id bucket_id session_id =
     then_svc (find_session env app_id bucket_id session_id) (\<lambda>session0.
     then_svc (lock_session env session0 TimedOut AwaitingData) (\<lambda>session.
     then_svc (query_chunks env (sort_key chunk_order (s_fragments session))) (\<lambda>items.
     of_result (Ok (uploaded_sum items)))))"

subsection \<open>Where an interrupted upload continues\<close>

lemma resume_point_exact:
  assumes "list_all (\<lambda>c. 0 \<le> chunk_size c) cs" "0 \<le> cur" "cur \<le> up" "up < cur + sum_list (map chunk_size cs)"
    "in_i64 (cur + sum_list (map chunk_size cs))"
  shows "\<exists>i skip. resume_point up idx cur cs = Some (idx + i, skip) \<and> i < length cs
    \<and> cur + sum_list (map chunk_size (take i cs)) + skip = up \<and> 0 \<le> skip \<and> skip < chunk_size (cs ! i)"
  using assms
proof (induction cs arbitrary: idx cur)
  case (Cons c cs)
  have nonneg: "0 \<le> sum_list (map chunk_size cs)" using Cons.prems(1) by (auto intro!: sum_list_nonneg simp: list_all_iff)
  have fits: "in_i64 (cur + chunk_size c)" using Cons.prems nonneg by (simp add: in_i64_def)
  then have add: "i64_add cur (chunk_size c) = cur + chunk_size c" by (simp add: i64_add_def)
  show ?case
  proof (cases "up < cur + chunk_size c")
    case True
    have "in_i64 (cur + chunk_size c - up)" "in_i64 (up - cur)" using Cons.prems fits True by (simp_all add: in_i64_def)
    then have "resume_point up idx cur (c # cs) = Some (idx + 0, up - cur)" using True by (simp add: add Let_def)
    then show ?thesis using True Cons.prems(3) by (intro exI [of _ 0] exI [of _ "up - cur"]) simp
  next
    case False
    obtain i skip where ih: "resume_point up (Suc idx) (cur + chunk_size c) cs = Some (Suc idx + i, skip)" "i < length cs"
      "cur + chunk_size c + sum_list (map chunk_size (take i cs)) + skip = up" "0 \<le> skip" "skip < chunk_size (cs ! i)"
      using Cons.IH [of "cur + chunk_size c" "Suc idx"] Cons.prems False by (auto simp: add.assoc)
    then show ?thesis using False by (intro exI [of _ "Suc i"] exI [of _ skip]) (simp add: add Let_def)
  qed
qed simp

end
