(* ===== verification/Upload_Correctness.thy ===== *)
theory Upload_Correctness
  imports File_Upload
begin

section \<open>An upload that is admitted can be downloaded\<close>

text \<open>
  The path of the bytes of a one-shot upload: space is reserved on several nodes, each with an open
  stream; the transfers fill the streams; the final commit moves the chunks in place; the file row is
  inserted. Each chunk goes through the stages \<open>armed\<close>, \<open>written\<close> and served; the parts of a file lie
  on different nodes, and what happens on one node leaves the ledgers and locks of the others alone.
\<close>

definition healthy :: "('st, 'db) app_env \<Rightarrow> bool" where
  "healthy env \<longleftrightarrow> (\<forall>n. (\<forall>p. \<not> fs_refuses (ae_ledger env n) p) \<and> ae_link env n \<and> ae_channel env n = Ok ()
     \<and> (\<forall>b. ae_finish_ok env n b) \<and> ae_fragment_size env n \<noteq> 0) \<and> ae_output_ok env
     \<and> (\<forall>i. ae_copy_fails env i = None)"

text \<open>Nobody holds a lock on a chunk, and nobody has yet asked for one.\<close>

definition unlocked :: "uuid lock_table \<Rightarrow> uuid \<Rightarrow> bool" where
  "unlocked l i \<longleftrightarrow> entries l i = None \<and> 1 \<le> max_readers l \<and> (\<forall>j x. entries l j = Some x \<longrightarrow> x < next_lock l)"

lemma unlocked_try_write:
  assumes "unlocked l i"
  obtains k where "try_write i g l = (Ok g, k)" "readable (drop_guard (Some g) k) i"
  using assms
  by (intro that)
    (auto simp: unlocked_def readable_def try_write_def try_lock_def file_lock_new_def guard_new_def drop_guard_def
      start_drop_def finish_drop_def release_write_def Let_def less_Suc_eq split: if_splits)

text \<open>Only node \<open>n\<close> has changed.\<close>

definition only_at :: "uuid \<Rightarrow> ('st, 'db) app_state \<Rightarrow> ('st, 'db) app_state \<Rightarrow> bool" where
  "only_at n st st' \<longleftrightarrow> (\<forall>m. m \<noteq> n \<longrightarrow> as_ledger st' m = as_ledger st m \<and> as_locks st' m = as_locks st m)
     \<and> as_db st' = as_db st"

text \<open>Space is reserved for a chunk and, on another node, a channel is ready to receive it.\<close>

definition armed :: "('st, 'db) app_env \<Rightarrow> ('st, 'db) app_state \<Rightarrow> ReservedFragment \<Rightarrow> bool" where
  "armed env st frag \<longleftrightarrow>
     (let n = rv_node_id frag; i = rv_chunk_id frag; l = as_ledger st n in
      (\<exists>r. reservation_map l i = Some r \<and> file_space r = rv_size frag) \<and> uncommited_map l i \<noteq> None
      \<and> (case rv_channel frag of
           None \<Rightarrow> n = ae_self env
         | Some ch \<Rightarrow> n \<noteq> ae_self env \<and> rc_node ch = n \<and> rc_closed ch = None \<and> data_dir l (UncommitedFile i) = Some []
             \<and> h_receive_file_stream (rc_handler ch) = Some (FileTarget (UncommitedFile i))
             \<and> h_reservation_details (rc_handler ch) = Some \<lparr>rd_id = i, rd_size = rv_size frag, rd_durable = False\<rparr>
             \<and> h_auto_close (rc_handler ch)
             \<and> readable (drop_handler (rc_handler ch) (as_locks st n)) i))"

lemma armed_frame:
  "armed env st frag \<Longrightarrow> only_at n st st' \<Longrightarrow> rv_node_id frag \<noteq> n \<Longrightarrow> armed env st' frag"
  by (simp add: armed_def only_at_def Let_def split: option.splits)

lemma reserve_one_armed:
  assumes "try_reserve_chunk env n sz b f flags st = Some (Ok frag, st')" "healthy env"
    and "rf_auto_start flags" "\<not> rf_durable flags" "\<not> rf_temp flags"
    and "unlocked (as_locks st n) (ae_uuid env (as_drawn st))"
  shows "armed env st' frag \<and> rv_node_id frag = n \<and> rv_size frag = sz \<and> rv_chunk_id frag = ae_uuid env (as_drawn st)
    \<and> only_at n st st' \<and> as_drawn st' = Suc (as_drawn st)"
proof (cases "n = ae_self env")
  case True
  with assms(1,4) show ?thesis
    by (auto simp: try_reserve_chunk_def armed_def only_at_def set_ledger_def Let_def
        dest: try_reserve_OkD split: prod.splits result.splits)
next
  case False
  let ?s = "node_at n (rc_handler (channel_to env n)) st" and ?e = "node_env_at env n st"
  obtain t l where t: "try_reserve (ne_ledger ?e) (ne_fresh ?e) sz b f (rf_durable flags) (ns_ledger ?s) = (t, l)"
    by (rule prod.exhaust)
  show ?thesis
  proof (cases t)
    case (Err e)
    have "\<exists>k. ns_sent (snd (handle_reserve ?e sz b f flags ?s)) = [OutResponse (RespReserveErr k)]"
      using t Err assms(2) unfolding handle_reserve_def
      by (simp add: respond_close_def send_out_def close_channel_def Let_def node_env_at_def node_at_def healthy_def)
    with assms(1) False show ?thesis
      by (auto simp: try_reserve_chunk_def open_channel_def request_def remote_run_def split_beta Let_def
          split: result.splits option.splits if_splits MDSFTPError.splits)
  next
    case (Ok i)
    obtain k where k: "try_write i (ne_guard ?e) (ns_locks ?s) = (Ok (ne_guard ?e), k)"
      and free: "readable (drop_guard (Some (ne_guard ?e)) k) i"
      using unlocked_try_write [of "ns_locks ?s" i "ne_guard ?e"] assms(6) try_reserve_OkD [OF t [unfolded Ok]]
      by (auto simp: node_at_def node_env_at_def)
    have run: "handle_reserve ?e sz b f flags ?s = (Ok (),
        ?s\<lparr>ns_ledger := l\<lparr>data_dir := (data_dir l)(UncommitedFile i \<mapsto> [])\<rparr>, ns_locks := k,
          ns_handler := (ns_handler ?s)\<lparr>h_reservation_details := Some \<lparr>rd_id = i, rd_size = sz, rd_durable = rf_durable flags\<rparr>,
            h_write_guard := Some (ne_guard ?e), h_receive_file_stream := Some (FileTarget (UncommitedFile i))\<rparr>,
          ns_sent := ns_sent ?s @ [OutResponse (RespReserveOk i (h_chunk_buffer (ns_handler ?s)))]\<rparr>)"
      by (rule handle_reserve_auto_start [OF t [unfolded Ok] k])
        (use assms(2,3,5) in \<open>simp_all add: node_env_at_def node_at_def healthy_def channel_to_def packet_handler_new_def\<close>)
    define h where "h = (packet_handler_new BUFFER_SIZE (ae_fragment_size env n))\<lparr>h_reservation_details :=
        Some \<lparr>rd_id = i, rd_size = sz, rd_durable = rf_durable flags\<rparr>, h_write_guard := Some (as_drawn st),
        h_receive_file_stream := Some (FileTarget (UncommitedFile i))\<rparr>"
    define st1 where "st1 = st\<lparr>as_ledger := (as_ledger st)(n := l\<lparr>data_dir := (data_dir l)(UncommitedFile i \<mapsto> [])\<rparr>),
        as_locks := (as_locks st)(n := k), as_drawn := Suc (as_drawn st)\<rparr>"
    have req: "request env pick_reserve (HReserve sz b f flags) (channel_to env n) st
        = Some (Ok \<lparr>rr_chunk_id = i, rr_chunk_buffer = BUFFER_SIZE\<rparr>, (channel_to env n)\<lparr>rc_handler := h, rc_closed := None\<rparr>, st1)"
      using run by (simp add: request_def remote_run_def node_at_def node_env_at_def channel_to_def
          packet_handler_new_def Let_def h_def st1_def)
    have st': "st' = st1" and frag: "frag = \<lparr>rv_channel = Some ((channel_to env n)\<lparr>rc_handler := h, rc_closed := None\<rparr>),
        rv_node_id = n, rv_chunk_id = i, rv_size = sz, rv_chunk_buffer = BUFFER_SIZE\<rparr>"
      using assms(1,2) False req by (simp_all add: try_reserve_chunk_def open_channel_def healthy_def)
    have "readable (drop_handler h k) i"
      using free by (simp add: drop_handler_def h_def packet_handler_new_def node_env_at_def drop_guard_def)
    with try_reserve_OkD [OF t [unfolded Ok]] assms(4) False show ?thesis
      unfolding st' frag armed_def only_at_def
      by (auto simp: st1_def h_def packet_handler_new_def channel_to_def node_env_at_def Let_def)
  qed
qed

lemma reserve_all_armed:
  assumes "reserve_all env b f flags targets frs0 st = Some (Ok (), frs, st')" "healthy env" "distinct (map fst targets)"
    and "rf_auto_start flags" "\<not> rf_durable flags" "\<not> rf_temp flags"
    and "\<forall>n\<in>set (map fst targets). \<forall>k\<ge>as_drawn st. unlocked (as_locks st n) (ae_uuid env k)"
    and "list_all (armed env st) frs0" "set (map rv_node_id frs0) \<inter> set (map fst targets) = {}"
  shows "list_all (armed env st') frs \<and> (\<exists>new. frs = frs0 @ new \<and> map (\<lambda>x. (rv_node_id x, rv_size x)) new = targets)
    \<and> as_db st' = as_db st"
  using assms(1,3,7-)
proof (induction targets arbitrary: frs0 st)
  case (Cons x targets)
  obtain n sz where x: "x = (n, sz)" by (cases x)
  obtain frag st1 where one: "try_reserve_chunk env n sz b f flags st = Some (Ok frag, st1)"
    and rest: "reserve_all env b f flags targets (frs0 @ [frag]) st1 = Some (Ok (), frs, st')"
    using Cons.prems(1) by (auto simp: x split: option.splits result.splits)
  have step: "armed env st1 frag" "rv_node_id frag = n" "rv_size frag = sz" "only_at n st st1" "as_drawn st1 = Suc (as_drawn st)"
    using reserve_one_armed [OF one assms(2,4-6)] Cons.prems(3) by (auto simp: x)
  have n: "n \<notin> set (map fst targets)" using Cons.prems(2) x by simp
  have "armed env st1 y" if "y \<in> set frs0" for y
  proof (rule armed_frame [OF _ step(4)])
    show "armed env st y" using Cons.prems(4) that by (simp add: list_all_iff)
    show "rv_node_id y \<noteq> n" using Cons.prems(5) that by (auto simp: x)
  qed
  then have "list_all (armed env st1) (frs0 @ [frag])" using step(1) by (simp add: list_all_iff)
  moreover have "\<forall>m\<in>set (map fst targets). \<forall>k\<ge>as_drawn st1. unlocked (as_locks st1 m) (ae_uuid env k)"
  proof (intro ballI allI impI)
    fix m k assume "m \<in> set (map fst targets)" "as_drawn st1 \<le> k"
    moreover from this(1) have "as_locks st1 m = as_locks st m" using step(4) n by (auto simp: only_at_def)
    ultimately show "unlocked (as_locks st1 m) (ae_uuid env k)" using Cons.prems(3) step(5) by (auto simp: x)
  qed
  moreover have "set (map rv_node_id (frs0 @ [frag])) \<inter> set (map fst targets) = {}"
    using Cons.prems(5) step(2) n by (auto simp: x)
  ultimately have IH: "list_all (armed env st') frs \<and> (\<exists>new. frs = (frs0 @ [frag]) @ new
      \<and> map (\<lambda>x. (rv_node_id x, rv_size x)) new = targets) \<and> as_db st' = as_db st1"
    using Cons.IH [OF rest] Cons.prems(2) by simp
  then show ?case using step by (auto simp: x only_at_def intro: exI [of _ "frag # _"])
qed simp

subsection \<open>Filling the streams\<close>

definition written :: "('st, 'db) app_env \<Rightarrow> ('st, 'db) app_state \<Rightarrow> ReservedFragment \<Rightarrow> u8 list \<Rightarrow> bool" where
  "written env st frag bs \<longleftrightarrow>
     (let n = rv_node_id frag; i = rv_chunk_id frag; l = as_ledger st n in
      uncommited_map l i \<noteq> None \<and> data_dir l (UncommitedFile i) = Some bs \<and> length bs = unat (rv_size frag)
      \<and> map_option content_size (chunk_set l i) = Some (rv_size frag)
      \<and> (n = ae_self env \<or> readable (as_locks st n) i))"

lemma written_frame:
  "written env st frag bs \<Longrightarrow> only_at n st st' \<Longrightarrow> rv_node_id frag \<noteq> n \<Longrightarrow> written env st' frag bs"
  by (simp add: written_def only_at_def Let_def)

lemma receive_whole:
  assumes "h_receive_file_stream (ns_handler s) = Some (FileTarget (UncommitedFile i))"
    and "h_reservation_details (ns_handler s) = Some \<lparr>rd_id = i, rd_size = sz, rd_durable = d\<rparr>"
    and "data_dir (ns_ledger s) (UncommitedFile i) = Some []"
    and "\<not> fs_refuses (ne_ledger env) (UncommitedFile i)" "ne_write_ok env" "\<forall>b. ne_finish_ok env b" "ns_closed s = None"
    and "map (\<lambda>(l, _, _). l) cs = replicate (length cs - 1) False @ [True]" "filled cs"
    and "release_reservation (ne_ledger env) i sz
          ((ns_ledger s)\<lparr>data_dir := (data_dir (ns_ledger s))(UncommitedFile i \<mapsto> contents cs)\<rparr>) = (Ok (), l')"
  shows "\<exists>s'. receive_fragments env cs s = (Ok (), s') \<and> ns_ledger s' = l' \<and> ns_closed s' = Some (Ok ())
    \<and> ns_locks s' = ns_locks s \<and> h_read_guard (ns_handler s') = h_read_guard (ns_handler s)
    \<and> h_write_guard (ns_handler s') = h_write_guard (ns_handler s)"
proof -
  obtain ds n c where cs: "cs = ds @ [(True, n, c)]" and ds: "list_all (\<lambda>(l, _, _). \<not> l) ds"
    using assms(8) by (rule fragments_split)
  have filled: "filled ds" "c \<noteq> []" using assms(9) by (simp_all add: cs)
  define s2 where "s2 = s\<lparr>ns_ledger := (ns_ledger s)\<lparr>data_dir := (data_dir (ns_ledger s))(UncommitedFile i \<mapsto> contents ds)\<rparr>,
      ns_handler := (ns_handler s)\<lparr>h_data_transferred :=
        h_data_transferred (ns_handler s) + of_nat (length (contents ds))\<rparr>,
      ns_sent := ns_sent s @ map (\<lambda>(_, i, _). OutAck i) ds\<rparr>"
  have recv: "receive_fragments env ds s = (Ok (), s2)"
    using receive_open [OF assms(1,4,5,3) ds filled(1)] by (simp add: s2_def)
  have "stream_write (UncommitedFile i) c (ns_ledger s2)
      = (ns_ledger s)\<lparr>data_dir := (data_dir (ns_ledger s))(UncommitedFile i \<mapsto> contents cs)\<rparr>"
    by (simp add: s2_def stream_write_def cs)
  then have "release_reservation (ne_ledger env) i sz (stream_write (UncommitedFile i) c (ns_ledger s2)) = (Ok (), l')"
    using assms(10) by simp
  then have "handle_file_chunk env c n True s2 = (Ok (),
      s2\<lparr>ns_ledger := l', ns_handler := (ns_handler s2)\<lparr>h_data_transferred :=
        h_data_transferred (ns_handler s2) + of_nat (length c), h_receive_file_stream := None\<rparr>,
      ns_sent := ns_sent s2 @ [OutAck n], ns_closed := Some (Ok ())\<rparr>)"
    by (intro handle_last_chunk [where i = i and sz = sz and d = d]) (use assms in \<open>simp_all add: s2_def\<close>)
  then show ?thesis using recv filled(2) by (simp add: cs receive_fragments_append s2_def)
qed

lemma release_written:
  assumes "reservation_map l i = Some r" "file_space r = sz" "uncommited_map l i \<noteq> None"
    and "\<not> fs_refuses le (UncommitedFile i)" "data_dir l (UncommitedFile i) = Some bs"
  obtains l' where "release_reservation le i sz l = (Ok (), l')" "uncommited_map l' = uncommited_map l"
    "data_dir l' = data_dir l" "map_option content_size (chunk_set l' i) = Some sz"
  using assms release_complete [OF assms(1), of le bs] by (auto simp: get_path_def)

lemma transfer_one:
  assumes frag: "armed env st frag" and env: "healthy env"
    and enough: "unat (rv_size frag) \<le> length reader" "rv_size frag \<noteq> 0"
    and few: "unat (rv_size frag) div unat (ae_fragment_size env (ae_self env)) \<le> 2 ^ 32 - 2"
  shows "\<exists>st'. inbound_transfer env reader 0 (rv_node_id frag) (rv_chunk_id frag) (rv_channel frag)
        \<lparr>ci_chunk_buffer = cb, ci_size = rv_size frag, ci_append = False\<rparr> st
      = Some (Ok (drop (unat (rv_size frag)) reader), st')
    \<and> written env st' frag (take (unat (rv_size frag)) reader) \<and> only_at (rv_node_id frag) st st'"
proof -
  let ?n = "rv_node_id frag" and ?i = "rv_chunk_id frag" and ?sz = "rv_size frag"
  let ?bs = "take (unat ?sz) reader"
  have len: "length ?bs = unat ?sz" using enough(1) by simp
  obtain r where r: "reservation_map (as_ledger st ?n) ?i = Some r" "file_space r = ?sz"
    and unc: "uncommited_map (as_ledger st ?n) ?i \<noteq> None" using frag by (auto simp: armed_def Let_def)
  have fs: "\<not> fs_refuses (ae_ledger env m) p" for m p using env by (simp add: healthy_def)
  define l1 where "l1 = (as_ledger st ?n)\<lparr>data_dir := (data_dir (as_ledger st ?n))(UncommitedFile ?i \<mapsto> ?bs)\<rparr>"
  obtain l' where l': "release_reservation (ae_ledger env ?n) ?i ?sz l1 = (Ok (), l')" "uncommited_map l' = uncommited_map l1"
    "data_dir l' = data_dir l1" "map_option content_size (chunk_set l' ?i) = Some ?sz"
    by (rule release_written [of l1 ?i r ?sz "ae_ledger env ?n" ?bs]) (use r unc fs in \<open>simp_all add: l1_def\<close>)
  show ?thesis
  proof (cases "rv_channel frag")
    case None
    then have self: "?n = ae_self env" using frag by (simp add: armed_def Let_def)
    have "copy_in (ae_ledger env ?n) (ae_copy_fails env ?i) reader 0 ?i \<lparr>ci_chunk_buffer = cb, ci_size = ?sz, ci_append = False\<rparr> (as_ledger st ?n)
        = (Ok (), l1)"
      using len fs env by (simp add: healthy_def copy_in_def fragment_write_stream_def get_path_def stream_write_def Let_def l1_def)
    then have "inbound_transfer env reader 0 ?n ?i None \<lparr>ci_chunk_buffer = cb, ci_size = ?sz, ci_append = False\<rparr> st
        = Some (Ok (drop (unat ?sz) reader), set_ledger ?n l' st)"
      using l'(1) by (simp add: inbound_transfer_def local_inbound_def self Let_def then_svc_def)
    then show ?thesis
      using None l' unc len self
      by (simp add: written_def only_at_def set_ledger_def Let_def l1_def)
  next
    case (Some ch)
    then have ch: "?n \<noteq> ae_self env" "rc_node ch = ?n" "rc_closed ch = None"
      "data_dir (as_ledger st ?n) (UncommitedFile ?i) = Some []"
      "h_receive_file_stream (rc_handler ch) = Some (FileTarget (UncommitedFile ?i))"
      "h_reservation_details (rc_handler ch) = Some \<lparr>rd_id = ?i, rd_size = ?sz, rd_durable = False\<rparr>"
      "readable (drop_handler (rc_handler ch) (as_locks st ?n)) ?i"
      using frag by (auto simp: armed_def Let_def)
    let ?p = "\<lparr>sp_size = ?sz, sp_range = None\<rparr> :: SizeParams"
    obtain cs sent where up: "mdsftp_upload False reader ?p (ae_fragment_size env (ae_self env)) = Some (cs, sent)"
      using env by (auto simp: mdsftp_upload_def Let_def healthy_def unat_eq_zero split: prod.split)
        (metis surj_pair)
    have cs: "sent = Ok ()" "contents cs = ?bs" "map (\<lambda>(l, _, _). l) cs = replicate (length cs - 1) False @ [True]"
      "list_all (\<lambda>(_, _, c). c \<noteq> []) cs"
      using upload_fragments [OF up] upload_fragments_nonempty [OF up] few enough
      by (simp_all add: size_params_size_def)
    let ?s = "node_at ?n (rc_handler ch) st" and ?e = "node_env_at env ?n st"
    obtain s' where s': "receive_fragments ?e cs ?s = (Ok (), s')" "ns_ledger s' = l'" "ns_closed s' = Some (Ok ())"
      "ns_locks s' = ns_locks ?s" "h_read_guard (ns_handler s') = h_read_guard (ns_handler ?s)"
      "h_write_guard (ns_handler s') = h_write_guard (ns_handler ?s)"
      using receive_whole [of ?s ?i ?sz False ?e cs l'] ch cs l'(1) env
      by (auto simp: node_at_def node_env_at_def healthy_def l1_def)
    define st1 where "st1 = st\<lparr>as_ledger := (as_ledger st)(?n := l'),
        as_locks := (as_locks st)(?n := drop_handler (ns_handler s') (as_locks st ?n)), as_drawn := Suc (as_drawn st)\<rparr>"
    have "send_content env reader ?sz ch st = Some (Ok (), st1)"
      using s' ch by (simp add: send_content_def up cs(1) remote_run_def Let_def st1_def node_at_def)
    then have "inbound_transfer env reader 0 ?n ?i (Some ch) \<lparr>ci_chunk_buffer = cb, ci_size = ?sz, ci_append = False\<rparr> st
        = Some (Ok (drop (unat ?sz) reader), st1)"
      using ch(1) by (simp add: inbound_transfer_def remote_inbound_def then_svc_def)
    moreover have "drop_handler (ns_handler s') (as_locks st ?n) = drop_handler (rc_handler ch) (as_locks st ?n)"
      using s'(5,6) by (simp add: drop_handler_def node_at_def)
    ultimately show ?thesis
      using Some l' unc len ch(7) by (simp add: written_def only_at_def st1_def Let_def l1_def)
  qed
qed

subsection \<open>Commits\<close>

lemma healthy_linked: "healthy env \<Longrightarrow> ae_link env n" "healthy env \<Longrightarrow> ae_channel env n = Ok ()"
  by (simp_all add: healthy_def)

lemma commit_effect:
  assumes "ae_link env n" "ae_channel env n = Ok ()"
  obtains st' where "service_commit_chunk env flags n i st = Some (Ok (), st')"
    "as_ledger st' = (as_ledger st)(n := apply_commit (ae_ledger env n) i flags (as_ledger st n))"
    "as_locks st' = as_locks st" "as_db st' = as_db st"
proof (cases "n = ae_self env")
  case True
  then show ?thesis using that by (simp add: service_commit_chunk_def set_ledger_def)
next
  case False
  let ?l = "apply_commit (ae_ledger env n) i flags (as_ledger st n)"
  define st1 where "st1 = st\<lparr>as_ledger := (as_ledger st)(n := ?l), as_locks := (as_locks st)(n := as_locks st n),
    as_drawn := Suc (as_drawn st)\<rparr>"
  have "\<exists>r ch. request env pick_commit (HCommit i flags) (channel_to env n) st = Some (Ok r, ch, st1)"
    using assms
    by (simp add: request_def remote_run_def handle_commit_def respond_close_def send_out_def close_channel_def
        node_at_def node_env_at_def channel_to_def packet_handler_new_def drop_handler_def drop_guard_def Let_def
        st1_def)
  then have "service_commit_chunk env flags n i st = Some (Ok (), st1)"
    using assms False by (auto simp: service_commit_chunk_def open_channel_def)
  then show ?thesis by (rule that) (simp_all add: st1_def)
qed

text \<open>What keeping chunks alive leaves alone: all files, all sizes, and which chunks are uncommitted.\<close>

definition alike :: "('st, 'db) app_state \<Rightarrow> ('st, 'db) app_state \<Rightarrow> bool" where
  "alike st st' \<longleftrightarrow> as_locks st' = as_locks st \<and>
     (\<forall>n. data_dir (as_ledger st' n) = data_dir (as_ledger st n) \<and> chunk_set (as_ledger st' n) = chunk_set (as_ledger st n)
       \<and> (\<forall>i. (uncommited_map (as_ledger st' n) i = None) = (uncommited_map (as_ledger st n) i = None)
            \<and> map_option file_space (reservation_map (as_ledger st' n) i) = map_option file_space (reservation_map (as_ledger st n) i)))"

lemma alike_refl [simp]: "alike st st"
  by (simp add: alike_def)

lemma alike_trans: "alike st1 st2 \<Longrightarrow> alike st2 st3 \<Longrightarrow> alike st1 st3"
  by (simp add: alike_def)

lemma armed_alike: "armed env st frag \<Longrightarrow> alike st st' \<Longrightarrow> armed env st' frag"
  unfolding armed_def alike_def Let_def
  by (auto split: option.splits simp: map_option_case) (metis option.simps(5) option.exhaust)+

lemma written_alike: "written env st frag bs \<Longrightarrow> alike st st' \<Longrightarrow> written env st' frag bs"
  unfolding written_def alike_def Let_def by metis

lemma alive_keeps:
  assumes "l' = apply_commit le i commit_keep_alive l"
  shows "data_dir l' = data_dir l" "chunk_set l' = chunk_set l" "(uncommited_map l' j = None) = (uncommited_map l j = None)"
    "map_option file_space (reservation_map l' j) = map_option file_space (reservation_map l j)"
  using assms
  by (auto simp: apply_commit_def commit_keep_alive_def commit_alive_def refresh_reservation_def Let_def
      split: option.splits prod.splits)

lemma join_alive:
  assumes "healthy env"
  shows "\<exists>st'. join_commits env commit_keep_alive cs st = Some (Ok (), st') \<and> alike st st' \<and> as_db st' = as_db st"
proof (induction cs arbitrary: st)
  case (Cons c cs)
  obtain st1 where st1: "service_commit_chunk env commit_keep_alive (server_id c) (chunk_id c) st = Some (Ok (), st1)"
    "as_ledger st1 = (as_ledger st)(server_id c := apply_commit (ae_ledger env (server_id c)) (chunk_id c) commit_keep_alive
      (as_ledger st (server_id c)))" "as_locks st1 = as_locks st" "as_db st1 = as_db st"
    by (rule commit_effect [OF healthy_linked [OF assms]])
  have "alike st st1" using st1(2,3) by (simp add: alike_def alive_keeps [OF refl])
  with Cons.IH [of st1] st1(1,4) show ?case by (auto simp: then_svc_def intro: alike_trans)
qed (simp add: of_result_def)

text \<open>Only the table of sessions has changed.\<close>

definition session_only :: "('db \<Rightarrow> tables) \<Rightarrow> 'db \<Rightarrow> 'db \<Rightarrow> bool" where
  "session_only view db db' \<longleftrightarrow> t_files (view db') = t_files (view db) \<and> t_dirs (view db') = t_dirs (view db)
     \<and> t_buckets (view db') = t_buckets (view db)"

lemma session_only_refl [simp]: "session_only view db db"
  by (simp add: session_only_def)

lemma session_only_trans: "session_only view db1 db2 \<Longrightarrow> session_only view db2 db3 \<Longrightarrow> session_only view db1 db3"
  by (simp add: session_only_def)

lemma update_session_only:
  assumes "cql_service c view" "update_session c tm s db = (r, s', db')"
  shows "session_only view db db' \<and> s_fragments s' = s_fragments s"
proof -
  let ?u = "s\<lparr>s_last_access := tm\<rparr>"
  obtain x db1 where lwt: "lwt_session c db ?u (s_last_access s) = (x, db1)" by (rule prod.exhaust)
  have "session_only view db db1"
  proof (cases x)
    case (Ok y)
    then consider "x = Ok None" | t where "x = Ok (Some (True, t))" | t where "x = Ok (Some (False, t))"
      by (metis (full_types) option.exhaust surj_pair)
    then show ?thesis
    proof cases
      case 1
      with lwt cql_service.lwt_session_none [OF assms(1), of db ?u] show ?thesis by (auto simp: session_only_def)
    next
      case 2
      with lwt cql_service.lwt_session_ok [OF assms(1), of db ?u] show ?thesis by (auto simp: session_only_def)
    next
      case 3
      with lwt cql_service.lwt_session_no [OF assms(1), of db ?u] show ?thesis by (auto simp: session_only_def)
    qed
  next
    case (Err e)
    then show ?thesis using cql_service.lwt_session_err [OF assms(1), of db ?u "s_last_access s" e db1] lwt
      by (auto simp: session_only_def)
  qed
  then show ?thesis
    using assms(2) lwt
    by (auto simp: update_session_def try_update_upload_session_def Let_def split: result.splits option.splits
        prod.splits if_splits)
qed

lemma tick_keeps:
  assumes "healthy env" "cql_service (ae_cql env) view" "notifier_tick env (s, st) = (s', st')"
  shows "alike st st' \<and> s_fragments s' = s_fragments s \<and> session_only view (as_db st) (as_db st')"
proof -
  obtain st1 where st1: "join_commits env commit_keep_alive (s_fragments s) st = Some (Ok (), st1)" "alike st st1"
    "as_db st1 = as_db st" using join_alive [OF assms(1)] by blast
  obtain r s1 db where u: "update_session (ae_cql env) (ae_utc_now env) s (as_db st) = (r, s1, db)"
    by (rule prod_cases3)
  have "s' = s1" "st' = st1\<lparr>as_db := db\<rparr>" using assms(3) st1 u by (simp_all add: notifier_tick_def)
  with st1(2) update_session_only [OF assms(2) u] show ?thesis by (simp add: alike_def)
qed

lemma ticks_keep:
  assumes "healthy env" "cql_service (ae_cql env) view" "(notifier_tick env ^^ k) (s, st) = (s', st')"
  shows "alike st st' \<and> s_fragments s' = s_fragments s \<and> session_only view (as_db st) (as_db st')"
  using assms(3)
proof (induction k arbitrary: s' st')
  case (Suc k)
  obtain s1 st1 where one: "(notifier_tick env ^^ k) (s, st) = (s1, st1)" by (rule prod.exhaust)
  with Suc.prems have "notifier_tick env (s1, st1) = (s', st')" by simp
  from tick_keeps [OF assms(1,2) this] Suc.IH [OF one] show ?case by (auto intro: alike_trans session_only_trans)
qed simp

lemma oneshot_transfer_Ok:
  assumes env: "healthy env" "cql_service (ae_cql env) view"
    and "distinct (map rv_node_id (front @ frs))" "list_all2 (written env st) front fbs" "list_all (armed env st) frs"
    and "(\<Sum>x\<leftarrow>frs. unat (rv_size x)) \<le> length reader"
    and "list_all (\<lambda>x. rv_size x \<noteq> 0 \<and> unat (rv_size x) div unat (ae_fragment_size env (ae_self env)) \<le> 2 ^ 32 - 2) frs"
  shows "\<exists>s' st' bss. oneshot_transfer env ticks frs reader (s, st) = Some (Ok (), s', st')
    \<and> list_all2 (written env st') (front @ frs) (fbs @ bss)
    \<and> concat bss = take (\<Sum>x\<leftarrow>frs. unat (rv_size x)) reader
    \<and> s_fragments s' = s_fragments s \<and> session_only view (as_db st) (as_db st')"
  using assms(3-)
proof (induction frs arbitrary: front fbs reader s st)
  case (Cons x frs)
  obtain s1 st1 where t: "(notifier_tick env ^^ ticks (length frs)) (s, st) = (s1, st1)" by (rule prod.exhaust)
  note t1 = ticks_keep [OF env t]
  have front: "list_all2 (written env st1) front fbs"
    using Cons.prems(2) t1 by (auto elim!: list_all2_mono intro: written_alike)
  have armed: "armed env st1 y" if "y \<in> set (x # frs)" for y
    using Cons.prems(3) t1 that by (auto simp: list_all_iff intro: armed_alike)
  obtain st2 where st2: "inbound_transfer env reader 0 (rv_node_id x) (rv_chunk_id x) (rv_channel x)
        \<lparr>ci_chunk_buffer = rv_chunk_buffer x, ci_size = rv_size x, ci_append = False\<rparr> st1
      = Some (Ok (drop (unat (rv_size x)) reader), st2)"
    "written env st2 x (take (unat (rv_size x)) reader)" "only_at (rv_node_id x) st1 st2"
    using transfer_one [OF armed env(1), of x reader "rv_chunk_buffer x"] Cons.prems(4,5) by auto
  have other: "rv_node_id y \<noteq> rv_node_id x" if "y \<in> set (front @ frs)" for y
    using that Cons.prems(1) by (simp add: image_iff) metis
  have "list_all2 (written env st2) (front @ [x]) (fbs @ [take (unat (rv_size x)) reader])"
  proof (intro list_all2_appendI)
    show "list_all2 (written env st2) front fbs"
      using front other by (auto simp: list_all2_conv_all_nth intro: written_frame [OF _ st2(3)])
  qed (use st2(2) in simp)
  moreover have "list_all (armed env st2) frs"
    using armed other by (auto simp: list_all_iff intro: armed_frame [OF _ st2(3)])
  moreover have "(\<Sum>x\<leftarrow>frs. unat (rv_size x)) \<le> length (drop (unat (rv_size x)) reader)"
    using Cons.prems(4) by simp
  ultimately obtain s' st' bss where rest: "oneshot_transfer env ticks frs (drop (unat (rv_size x)) reader) (s1, st2) = Some (Ok (), s', st')"
    "list_all2 (written env st') ((front @ [x]) @ frs) ((fbs @ [take (unat (rv_size x)) reader]) @ bss)"
    "concat bss = take (\<Sum>x\<leftarrow>frs. unat (rv_size x)) (drop (unat (rv_size x)) reader)"
    "s_fragments s' = s_fragments s1" "session_only view (as_db st2) (as_db st')"
    using Cons.IH [of "front @ [x]" st2 "fbs @ [take (unat (rv_size x)) reader]" "drop (unat (rv_size x)) reader" s1]
      Cons.prems(1,5) by auto
  have "oneshot_transfer env ticks (x # frs) reader (s, st) = Some (Ok (), s', st')"
    using t st2(1) rest(1) by simp
  moreover have "session_only view (as_db st) (as_db st')"
    using t1 st2(3) rest(5) by (auto simp: only_at_def intro: session_only_trans)
  ultimately show ?case using rest t1
    by (intro exI [of _ s'] exI [of _ st'] exI [of _ "take (unat (rv_size x)) reader # bss"]) (simp add: take_add)
qed (auto intro: exI [of _ "[]"])

text \<open>A chunk is in place: what \<open>serves\<close> asks for, for a reserved fragment.\<close>

definition stored :: "('st, 'db) app_env \<Rightarrow> ('st, 'db) app_state \<Rightarrow> ReservedFragment \<Rightarrow> u8 list \<Rightarrow> bool" where
  "stored env st frag bs \<longleftrightarrow>
     (let n = rv_node_id frag; i = rv_chunk_id frag in
      holds_chunk (ae_ledger env n) (as_ledger st n) i bs \<and> length bs = unat (rv_size frag)
      \<and> (n = ae_self env \<or> readable (as_locks st n) i))"

lemma stored_frame:
  "stored env st frag bs \<Longrightarrow> only_at n st st' \<Longrightarrow> rv_node_id frag \<noteq> n \<Longrightarrow> stored env st' frag bs"
  by (simp add: stored_def only_at_def Let_def)

lemma commit_final_stored:
  assumes "healthy env" "written env st frag bs" "length bs < 2 ^ 63"
  obtains st' where "service_commit_chunk env commit_final (rv_node_id frag) (rv_chunk_id frag) st = Some (Ok (), st')"
    "stored env st' frag bs" "only_at (rv_node_id frag) st st'"
proof -
  let ?n = "rv_node_id frag" and ?i = "rv_chunk_id frag"
  obtain st' where st': "service_commit_chunk env commit_final ?n ?i st = Some (Ok (), st')"
    "as_ledger st' = (as_ledger st)(?n := apply_commit (ae_ledger env ?n) ?i commit_final (as_ledger st ?n))"
    "as_locks st' = as_locks st" "as_db st' = as_db st"
    by (rule commit_effect [OF healthy_linked [OF assms(1)]])
  have fs: "\<not> fs_refuses (ae_ledger env m) p" for m p using assms(1) by (simp add: healthy_def)
  have w: "uncommited_map (as_ledger st ?n) ?i \<noteq> None" "data_dir (as_ledger st ?n) (UncommitedFile ?i) = Some bs"
    "length bs = unat (rv_size frag)" "map_option content_size (chunk_set (as_ledger st ?n) ?i) = Some (rv_size frag)"
    "?n = ae_self env \<or> readable (as_locks st ?n) ?i"
    using assms(2) unfolding written_def Let_def by blast+
  note committed = commit_chunk_Ok [OF w(1,2) fs fs]
  have "stored env st' frag bs"
    using w(3-5) assms(3) st'(2,3) committed fs
    by (auto simp: stored_def holds_chunk_def fragment_read_stream_def fs_read_def get_path_def existing_fragment_meta_def
        apply_commit_def commit_final_def Let_def)
  moreover have "only_at ?n st st'" using st'(2-4) by (simp add: only_at_def)
  ultimately show ?thesis using st'(1) that by blast
qed

lemma join_final:
  assumes "healthy env" "distinct (map rv_node_id (front @ frs))"
    and "list_all2 (stored env st) front fbs" "list_all2 (written env st) frs bss" "list_all (\<lambda>bs. length bs < 2 ^ 63) bss"
    and "list_all2 (\<lambda>c x. server_id c = rv_node_id x \<and> chunk_id c = rv_chunk_id x) cs frs"
  shows "\<exists>st'. join_commits env commit_final cs st = Some (Ok (), st')
    \<and> list_all2 (stored env st') (front @ frs) (fbs @ bss) \<and> as_db st' = as_db st"
  using assms(2-)
proof (induction frs arbitrary: front fbs bss cs st)
  case (Cons x frs)
  obtain bs bss' c cs' where lists: "bss = bs # bss'" "cs = c # cs'"
    and x: "written env st x bs" "length bs < 2 ^ 63" "server_id c = rv_node_id x" "chunk_id c = rv_chunk_id x"
    and rest: "list_all2 (written env st) frs bss'" "list_all (\<lambda>bs. length bs < 2 ^ 63) bss'"
      "list_all2 (\<lambda>c x. server_id c = rv_node_id x \<and> chunk_id c = rv_chunk_id x) cs' frs"
    using Cons.prems(3-5) by (auto simp: list_all2_Cons1 list_all2_Cons2)
  obtain st1 where st1: "service_commit_chunk env commit_final (rv_node_id x) (rv_chunk_id x) st = Some (Ok (), st1)"
    "stored env st1 x bs" "only_at (rv_node_id x) st st1"
    by (rule commit_final_stored [OF assms(1) x(1,2)])
  have other: "rv_node_id y \<noteq> rv_node_id x" if "y \<in> set (front @ frs)" for y
    using that Cons.prems(1) by (simp add: image_iff) metis
  have "list_all2 (stored env st1) (front @ [x]) (fbs @ [bs])"
    using Cons.prems(2) st1(2) other
    by (intro list_all2_appendI) (auto simp: list_all2_conv_all_nth intro: stored_frame [OF _ st1(3)])
  moreover have "list_all2 (written env st1) frs bss'"
    using rest(1) other by (auto simp: list_all2_conv_all_nth intro: written_frame [OF _ st1(3)])
  ultimately obtain st' where "join_commits env commit_final cs' st1 = Some (Ok (), st')"
    "list_all2 (stored env st') ((front @ [x]) @ frs) ((fbs @ [bs]) @ bss')" "as_db st' = as_db st1"
    using Cons.IH [of "front @ [x]" st1 "fbs @ [bs]" bss' cs'] Cons.prems(1) rest(2,3) by auto
  then show ?case using st1(1,3) x(3,4) by (auto simp: lists then_svc_def only_at_def)
qed (simp add: of_result_def)

lemma chunks_in_order:
  assumes "length frs \<le> 128"
  shows "sort_key chunk_order (reserve_info_to_file_chunks frs) = reserve_info_to_file_chunks frs"
proof (rule sort_key_id_if_sorted)
  have "map chunk_order (reserve_info_to_file_chunks frs) = map int [0..<length frs]"
    using assms by (auto simp: reserve_info_to_file_chunks_def wrap_i8_def intro!: nth_equalityI)
      (simp add: nth_enumerate_eq)
  then show "sorted (map chunk_order (reserve_info_to_file_chunks frs))" by (simp add: sorted_iff_nth_mono)
qed

lemma chunks_of_fragments:
  "list_all2 (\<lambda>c x. server_id c = rv_node_id x \<and> chunk_id c = rv_chunk_id x \<and> chunk_size c = as_i64 (rv_size x))
     (reserve_info_to_file_chunks frs) frs"
  by (auto simp: reserve_info_to_file_chunks_def list_all2_conv_all_nth nth_enumerate_eq)

subsection \<open>The row of the file\<close>

abbreviation parent_of :: "string list \<Rightarrow> string option" where
  "parent_of ws \<equiv> (if ws = [] then None else Some (join_segs ws))"

context reliable_cql
begin

lemma target_directory:
  assumes "ae_cql env = c" "names ws" "tree_closed (view (as_db st)) b"
  obtains dir st' where "(case parent_of ws of
        Some directory \<Rightarrow> then_svc (try_mkdir env b directory) (\<lambda>dir. of_result (Ok (map_option d_id dir)))
      | None \<Rightarrow> of_result (Ok (Some ROOT_DIR))) st
      = Some (Ok (Some (case dir of Some d \<Rightarrow> d_id d | None \<Rightarrow> ROOT_DIR)), st')"
    "get_directory c (as_db st') b (parent_of ws) = Ok dir"
    "t_files (view (as_db st')) = t_files (view (as_db st))" "t_buckets (view (as_db st')) = t_buckets (view (as_db st))"
    "as_ledger st' = as_ledger st" "as_locks st' = as_locks st"
proof (cases "ws = []")
  case True
  then show ?thesis using that [of None st] by (simp add: of_result_def get_directory_def)
next
  case False
  obtain d st' where run: "try_mkdir env b (join_segs ws) st = Some (Ok (Some d), st')"
    and at: "dir_at (view (as_db st')) b ws = Some d"
    and eq: "view (as_db st') = (view (as_db st))\<lparr>t_dirs := t_dirs (view (as_db st'))\<rparr>"
    and rest: "as_ledger st' = as_ledger st" "as_locks st' = as_locks st"
    using mkdir_ancestors [OF assms(1,2) False assms(3)] by (elim exE conjE) (rule that)
  have "t_files (view (as_db st')) = t_files (view (as_db st))" "t_buckets (view (as_db st')) = t_buckets (view (as_db st))"
    by (subst eq, simp)+
  with False run at rest get_directory_at [OF assms(2) False] that [of "Some d" st'] show ?thesis
    by (simp add: then_svc_def of_result_def)
qed

lemma insert_file_up:
  assumes "\<And>n db. view (others n db) = view db" "counters (view db) (bucket_key b) = Some x"
  obtains db' where "insert_file c others f b db = (Ok (), db')"
    "t_files (view db') = (t_files (view db))(file_key f \<mapsto> f)" "t_dirs (view db') = t_dirs (view db)"
    "counters (view db') (bucket_key b) = Some (add_counters x (1, f_size f))"
proof -
  obtain db1 where db1: "ins_file c db f = (Ok (), db1)" using ins_file_up by blast
  have v1: "view db1 = (view db)\<lparr>t_files := (t_files (view db))(file_key f \<mapsto> f)\<rparr>" by (rule ins_file_ok [OF db1])
  then have c1: "counters (view db1) (bucket_key b) = Some x" using assms(2) by simp
  have "2 \<le> QUERY_ATTEMPTS" by (simp add: QUERY_ATTEMPTS_def)
  from space_loop_uncontended [where others = others and dc = 1 and ds = "f_size f", OF assms(1) lwt_space_up c1 this]
  obtain db' where "update_bucket_space c others b 1 (f_size f) db1 = (Ok (), db')"
    "counters (view db') (bucket_key b) = Some (add_counters x (1, f_size f))"
    "t_files (view db') = t_files (view db1)" "t_dirs (view db') = t_dirs (view db1)"
    unfolding update_bucket_space_def by blast
  with db1 v1 that show ?thesis by (simp add: insert_file_def try_join_def)
qed

lemma end_manager_session_only: "session_only view db (manager_end_session c a b i db)"
proof -
  obtain db' where db': "del_session c db (a, b, i) = (Ok (), db')" using del_session_up by blast
  from del_session_ok [OF db'] db' show ?thesis
    by (simp add: manager_end_session_def delete_upload_session_by_def session_only_def)
qed

lemma end_session_up:
  assumes "ae_cql env = c" "\<And>n db. view (ae_others env n db) = view db" "names ws"
    and "tree_closed (view (as_db st)) (b_id bucket)" "counters (view (as_db st)) (bucket_key bucket) = Some x"
    and "join_commits env commit_final (s_fragments session) st = Some (Ok (), st1)" "as_db st1 = as_db st"
  shows "\<exists>st' row dir. end_session env (parent_of ws, w) sz session bucket ids (Some None) file_id st = Some (Ok (), st')
    \<and> get_file_dir c (as_db st') (b_id bucket) (parent_of ws) w = Ok (row, dir)
    \<and> f_chunk_ids row = s_fragments session \<and> f_size row = sz \<and> f_id row = file_id
    \<and> as_ledger st' = as_ledger st1 \<and> as_locks st' = as_locks st1
    \<and> counters (view (as_db st')) (bucket_key bucket) = Some (add_counters x (1, sz))"
proof -
  have closed: "tree_closed (view (as_db st1)) (b_id bucket)" using assms(4,7) by simp
  obtain dir st2 where dir: "(case parent_of ws of
        Some directory \<Rightarrow> then_svc (try_mkdir env (b_id bucket) directory) (\<lambda>dir. of_result (Ok (map_option d_id dir)))
      | None \<Rightarrow> of_result (Ok (Some ROOT_DIR))) st1
      = Some (Ok (Some (case dir of Some d \<Rightarrow> d_id d | None \<Rightarrow> ROOT_DIR)), st2)"
    and got: "get_directory c (as_db st2) (b_id bucket) (parent_of ws) = Ok dir"
    and kept: "t_buckets (view (as_db st2)) = t_buckets (view (as_db st1))"
      "as_ledger st2 = as_ledger st1" "as_locks st2 = as_locks st1"
    by (rule target_directory [OF assms(1,3) closed])
  define row where "row = \<lparr>f_bucket_id = b_id bucket, f_directory = (case dir of Some d \<Rightarrow> d_id d | None \<Rightarrow> ROOT_DIR),
    f_name = w, f_id = file_id, f_size = sz, f_chunk_ids = s_fragments session,
    f_created = ae_utc_now env, f_last_modified = ae_utc_now env\<rparr>"
  have "counters (view (as_db st2)) (bucket_key bucket) = Some x"
    using assms(5,7) kept(1) by (simp add: counters_def)
  then obtain db where db: "insert_file c (ae_others env) row bucket (as_db st2) = (Ok (), db)"
    "t_files (view db) = (t_files (view (as_db st2)))(file_key row \<mapsto> row)" "t_dirs (view db) = t_dirs (view (as_db st2))"
    "counters (view db) (bucket_key bucket) = Some (add_counters x (1, f_size row))"
    by (rule insert_file_up [OF assms(2)])
  let ?db = "manager_end_session c (fst ids) (b_id bucket) (snd ids) db"
  have run: "end_session env (parent_of ws, w) sz session bucket ids (Some None) file_id st
      = Some (Ok (), st2\<lparr>as_db := ?db\<rparr>)"
    using assms(1,6) db(1) dir
    by (cases "ws = []") (simp_all add: end_session_def then_svc_def of_result_def db_update_def or_root_def row_def Let_def)
  have only: "session_only view db ?db" by (rule end_manager_session_only)
  have dirs: "get_directory c ?db (b_id bucket) (parent_of ws) = Ok dir"
  proof -
    have "dir_at (view ?db) (b_id bucket) ws = dir_at (view (as_db st2)) (b_id bucket) ws"
      using only db(3) by (simp add: dir_at_def session_only_def)
    with got get_directory_at [OF assms(3), of _ "b_id bucket"] show ?thesis
      by (cases "ws = []") (simp_all add: get_directory_def)
  qed
  obtain y where y: "sel_file c ?db (file_key row) = Ok y" using sel_file_up by blast
  then have "y = Some row" using sel_file_ok [OF y] only db(2) by (simp add: session_only_def)
  then have "get_file_dir c ?db (b_id bucket) (parent_of ws) w = Ok (row, dir)"
    using y dirs by (simp add: get_file_dir_def found_def file_key_def row_def)
  moreover have "counters (view ?db) (bucket_key bucket) = Some (add_counters x (1, sz))"
    using only db(4) by (simp add: session_only_def counters_def row_def)
  ultimately show ?thesis using run kept(2,3)
    by (intro exI [of _ "st2\<lparr>as_db := ?db\<rparr>"] exI [of _ row] exI [of _ dir]) (simp add: row_def)
qed

end

subsection \<open>Admission\<close>

context reliable_cql
begin

lemma sum_sessions_only: "session_only view db (snd (sum_sessions c t n rows db))"
  by (induction rows arbitrary: n db)
    (auto simp: validate_session_def Let_def intro: session_only_trans [OF end_manager_session_only])

lemma reserved_space_only: "session_only view db (snd (get_reserved_space c t a b db))"
  using sum_sessions_only [of db t 0] by (simp add: get_reserved_space_def split_beta split: result.split)

lemma quota_only:
  assumes "ae_cql env = c" "check_quota env a b bucket sz st = Some (Ok (), st')"
  shows "session_only view (as_db st) (as_db st') \<and> as_ledger st' = as_ledger st \<and> as_locks st' = as_locks st
    \<and> as_drawn st' = as_drawn st \<and> as_storage_map st' = as_storage_map st"
  using assms(2) reserved_space_only [of "as_db st" "\<lambda>_. ae_utc_now env" a b]
  by (auto simp: check_quota_def assms(1) then_svc_def of_result_def split: prod.splits result.splits if_splits)

lemma bucket_row:
  assumes "get_bucket c db a b = Ok bucket"
  shows "t_buckets (view db) (a, b) = Some bucket" "bucket_key bucket = (a, b)" "b_id bucket = b"
proof -
  show *: "t_buckets (view db) (a, b) = Some bucket"
    using assms sel_bucket_ok by (auto simp: get_bucket_def found_def split: result.splits option.splits)
  show "bucket_key bucket = (a, b)" using keyed_buckets [OF *] .
  then show "b_id bucket = b" by (simp add: bucket_key_def)
qed

end

text \<open>The next ids are of chunks nobody has locked.\<close>

definition fresh_locks :: "('st, 'db) app_env \<Rightarrow> ('st, 'db) app_state \<Rightarrow> bool" where
  "fresh_locks env st \<longleftrightarrow> (\<forall>n. \<forall>k\<ge>as_drawn st. unlocked (as_locks st n) (ae_uuid env k))"

lemma reserved_armed:
  assumes "reserve_chunks env sz (oneshot_flags ow) b f mode st = Some (Ok frs, st')" "healthy env" "iterates env"
    "finite (dom (as_storage_map st))" "fresh_locks env st"
  shows "list_all (armed env st') frs \<and> distinct (map rv_node_id frs) \<and> (\<Sum>x\<leftarrow>frs. unat (rv_size x)) = unat sz
    \<and> as_db st' = as_db st"
  using assms(1,3,4)
proof (cases rule: reserve_chunks_cases)
  case (plan st1 targets)
  then have run: "reserve_all env b f (oneshot_flags ow) targets [] st1 = Some (Ok (), frs, st')"
    by (auto simp: reserve_targets_def split: option.splits result.splits)
  have "list_all (armed env st') frs \<and> (\<exists>new. frs = [] @ new \<and> map (\<lambda>x. (rv_node_id x, rv_size x)) new = targets)
      \<and> as_db st' = as_db st1"
    by (rule reserve_all_armed [OF run assms(2) plan(3)])
      (use assms(5) plan in \<open>auto simp: oneshot_flags_def fresh_locks_def\<close>)
  moreover from this have "map rv_node_id frs = map fst targets" "map rv_size frs = map snd targets"
    by (auto simp: comp_def)
  ultimately show ?thesis using plan(3,4,7) by (auto simp: planned_def comp_def)
qed simp

lemma admitted:
  assumes "reliable_cql (ae_cql env) view" "healthy env" "iterates env" "finite (dom (as_storage_map st))" "fresh_locks env st"
    and run: "admit_upload env path accessor oneshot_flags sz st = Some (Ok (bucket, old, file_id, frs), st1)"
    and new: "split_path (e_path path) = (dir, name)" "get_file_dir (ae_cql env) (as_db st) (e_bucket_id path) dir name = Err e"
  shows "old = None \<and> t_buckets (view (as_db st)) (e_app_id path, e_bucket_id path) = Some bucket
    \<and> bucket_key bucket = (e_app_id path, e_bucket_id path) \<and> b_id bucket = e_bucket_id path
    \<and> session_only view (as_db st) (as_db st1) \<and> list_all (armed env st1) frs \<and> distinct (map rv_node_id frs)
    \<and> (\<Sum>x\<leftarrow>frs. unat (rv_size x)) = unat sz"
proof -
  have bucket: "get_bucket (ae_cql env) (as_db st) (e_app_id path) (e_bucket_id path) = Ok bucket"
    and old: "old = None"
    and rest: "\<exists>st2 st3. check_quota env (e_app_id path) (e_bucket_id path) bucket sz st = Some (Ok (), st2)
      \<and> st3 = st2\<lparr>as_drawn := Suc (as_drawn st2)\<rparr>
      \<and> reserve_chunks env sz (oneshot_flags False) (b_id bucket) file_id PreferSelfThenMostFree st3 = Some (Ok frs, st1)"
    using run new
    by (auto simp: admit_upload_def then_svc_Ok db_query_def check_overwrite_def draw_uuid_def of_result_def)
  obtain st2 st3 where st2: "check_quota env (e_app_id path) (e_bucket_id path) bucket sz st = Some (Ok (), st2)"
    "st3 = st2\<lparr>as_drawn := Suc (as_drawn st2)\<rparr>"
    "reserve_chunks env sz (oneshot_flags False) (b_id bucket) file_id PreferSelfThenMostFree st3 = Some (Ok frs, st1)"
    using rest by blast
  note q = reliable_cql.quota_only [OF assms(1) refl st2(1)]
  have "fresh_locks env st3" "finite (dom (as_storage_map st3))" using assms(4,5) q by (auto simp: fresh_locks_def st2(2))
  from reserved_armed [OF st2(3) assms(2,3) this(2,1)] q old reliable_cql.bucket_row [OF assms(1) bucket] st2(2) show ?thesis
    by simp
qed

subsection \<open>From the request to the download\<close>

lemma length_le_concat: "bs \<in> set bss \<Longrightarrow> length bs \<le> length (concat bss)"
  by (induction bss) auto

text \<open>The transfer and the commit of an upload that is admitted.\<close>

lemma session_written:
  assumes "healthy env" "reliable_cql (ae_cql env) view" "list_all (armed env st) frs" "distinct (map rv_node_id frs)"
    and "(\<Sum>x\<leftarrow>frs. unat (rv_size x)) = length bytes" "length bytes < 2 ^ 63" "\<forall>x\<in>set frs. rv_size x \<noteq> 0"
    and "\<forall>n. length bytes div unat (ae_fragment_size env n) \<le> 2 ^ 32 - 2" "s_fragments s = reserve_info_to_file_chunks frs"
  obtains s' st' st'' bss where "oneshot_transfer env ticks frs bytes (s, st) = Some (Ok (), s', st')"
    "s_fragments s' = s_fragments s" "session_only view (as_db st) (as_db st')"
    "join_commits env commit_final (s_fragments s') st' = Some (Ok (), st'')" "as_db st'' = as_db st'"
    "list_all2 (stored env st'') frs bss" "concat bss = bytes"
proof -
  have svc: "cql_service (ae_cql env) view" using assms(2) by (simp add: reliable_cql_def)
  have le: "unat (rv_size x) \<le> length bytes" if "x \<in> set frs" for x
    using member_le_sum_list [of "unat (rv_size x)" "map (\<lambda>x. unat (rv_size x)) frs"] that assms(5) by auto
  have few: "list_all (\<lambda>x. rv_size x \<noteq> 0 \<and> unat (rv_size x) div unat (ae_fragment_size env (ae_self env)) \<le> 2 ^ 32 - 2) frs"
    unfolding list_all_iff using le assms(7,8) div_le_mono order_trans by blast
  obtain s' st' bss where t: "oneshot_transfer env ticks frs bytes (s, st) = Some (Ok (), s', st')"
    "list_all2 (written env st') frs bss" "concat bss = bytes" "s_fragments s' = s_fragments s"
    "session_only view (as_db st) (as_db st')"
    using oneshot_transfer_Ok [OF assms(1) svc, of "[]" frs st "[]" bytes ticks s] assms(3-5) few by auto
  have "list_all (\<lambda>bs. length bs < 2 ^ 63) bss"
    using length_le_concat [of _ bss] t(3) assms(6) by (fastforce simp: list_all_iff)
  moreover have "list_all2 (\<lambda>c x. server_id c = rv_node_id x \<and> chunk_id c = rv_chunk_id x) (s_fragments s') frs"
    unfolding t(4) assms(9) by (rule list_all2_mono [OF chunks_of_fragments]) simp
  ultimately obtain st'' where "join_commits env commit_final (s_fragments s') st' = Some (Ok (), st'')"
    "list_all2 (stored env st'') frs bss" "as_db st'' = as_db st'"
    using join_final [OF assms(1), of "[]" frs st' "[]" bss "s_fragments s'"] assms(4) t(2) by auto
  with t that show ?thesis by blast
qed

lemma stored_serves:
  assumes "healthy env" "list_all2 (stored env st) frs bss" "\<forall>x\<in>set frs. rv_size x \<noteq> 0" "length (concat bss) < 2 ^ 63"
    and "\<forall>n. length (concat bss) div unat (ae_fragment_size env n) \<le> 2 ^ 32 - 2"
  shows "list_all2 (serves env st) (reserve_info_to_file_chunks frs) bss"
proof -
  let ?cs = "reserve_info_to_file_chunks frs"
  have len: "length ?cs = length frs" "length frs = length bss"
    using chunks_of_fragments list_all2_lengthD assms(2) by blast+
  have "serves env st (?cs ! i) (bss ! i)" if i: "i < length frs" for i
  proof -
    have c: "server_id (?cs ! i) = rv_node_id (frs ! i)" "chunk_id (?cs ! i) = rv_chunk_id (frs ! i)"
      "chunk_size (?cs ! i) = as_i64 (rv_size (frs ! i))"
      using list_all2_nthD2 [OF chunks_of_fragments i] by simp_all
    have s: "stored env st (frs ! i) (bss ! i)" using assms(2) i by (rule list_all2_nthD)
    then have bs: "length (bss ! i) = unat (rv_size (frs ! i))" by (simp add: stored_def Let_def)
    have le: "length (bss ! i) \<le> length (concat bss)"
      using i len by (intro length_le_concat) simp
    have "rv_size (frs ! i) \<noteq> 0" using assms(3) i by simp
    then have "bss ! i \<noteq> []" using bs by (auto simp: unat_eq_zero)
    moreover have "as_i64 (rv_size (frs ! i)) = int (length (bss ! i))"
      using as_i64_small [of "rv_size (frs ! i)"] le assms(4) bs by linarith
    moreover have "length (bss ! i) div unat (ae_fragment_size env m) \<le> 2 ^ 32 - 2" for m
      using div_le_mono [OF le] assms(5) order_trans by blast
    ultimately show ?thesis
      using s c assms(1) by (auto simp: serves_def stored_def healthy_def Let_def)
  qed
  with len show ?thesis by (simp add: list_all2_conv_all_nth)
qed

text \<open>What is asked of the cluster, the database and the request of an upload. The lock tables, the
  iteration order and the database are as their libraries promise, nothing fails, and nobody else writes
  to the bucket; the path is a list of names, the directories of the bucket have their ancestors, and
  no file is at the path yet.\<close>

definition upload_setting ::
    "('st, 'db) app_env \<Rightarrow> ('db \<Rightarrow> tables) \<Rightarrow> EntryPath \<Rightarrow> string list \<Rightarrow> string \<Rightarrow> ('st, 'db) app_state \<Rightarrow> bool" where
  "upload_setting env view path ws w st \<longleftrightarrow>
     reliable_cql (ae_cql env) view \<and> healthy env \<and> iterates env \<and> (\<forall>n db. view (ae_others env n db) = view db)
     \<and> finite (dom (as_storage_map st)) \<and> fresh_locks env st
     \<and> names (ws @ [w]) \<and> e_path path = join_segs (ws @ [w]) \<and> tree_closed (view (as_db st)) (e_bucket_id path)
     \<and> \<not> is_ok (get_file_dir (ae_cql env) (as_db st) (e_bucket_id path) (parent_of ws) w)"

lemma session_opened:
  assumes "reliable_cql (ae_cql env) view" "list_all (armed env st) frs"
  obtains st' where "open_session env session (st\<lparr>as_drawn := Suc (as_drawn st)\<rparr>) = Some (Ok (s_id session), st')"
    "session_only view (as_db st) (as_db st')" "list_all (armed env st') frs"
proof -
  obtain db where ins: "ins_session (ae_cql env) (as_db st) session = (Ok (), db)"
    using reliable_cql.ins_session_up [OF assms(1)] by blast
  have "view db = (view (as_db st))\<lparr>t_sessions := (t_sessions (view (as_db st)))(session_key session \<mapsto> session)\<rparr>"
    by (rule cql_service.ins_session_ok [OF _ ins]) (use assms(1) in \<open>simp add: reliable_cql_def\<close>)
  moreover have "armed env (st\<lparr>as_drawn := Suc (as_drawn st), as_db := db\<rparr>) x" if "armed env st x" for x
    by (rule armed_alike [OF that]) (simp add: alike_def)
  ultimately show ?thesis
    using ins assms(2) that [of "st\<lparr>as_drawn := Suc (as_drawn st), as_db := db\<rparr>"]
    by (simp add: open_session_def start_session_def insert_upload_session_def session_only_def list_all_iff)
qed

lemma upload_runs:
  assumes set: "upload_setting env view path ws w st"
    and perm: "has_permission accessor (e_app_id path) (e_bucket_id path) UPLOAD_ALLOWANCE = Ok ()"
    and admit: "admit_upload env path accessor oneshot_flags (of_nat (length bytes)) st = Some (Ok (bucket, old, file_id, frs), st1)"
    and size: "length bytes < 2 ^ 63" "\<forall>n. length bytes div unat (ae_fragment_size env n) \<le> 2 ^ 32 - 2"
    and frs: "length frs \<le> 128" "\<forall>x\<in>set frs. rv_size x \<noteq> 0"
  shows "\<exists>st' row dir bss. handle_upload_oneshot env ticks path (of_nat (length bytes)) accessor bytes st = Some (Ok (), st')
    \<and> get_file_dir (ae_cql env) (as_db st') (e_bucket_id path) (parent_of ws) w = Ok (row, dir)
    \<and> f_size row = int (length bytes) \<and> f_id row = file_id \<and> concat bss = bytes
    \<and> list_all2 (serves env st') (sort_key chunk_order (f_chunk_ids row)) bss
    \<and> counters (view (as_db st')) (e_app_id path, e_bucket_id path)
        = Some (add_counters (file_count bucket, space_taken bucket) (1, int (length bytes)))"
proof -
  let ?sz = "of_nat (length bytes) :: u64"
  note set' = set [unfolded upload_setting_def]
  have db: "reliable_cql (ae_cql env) view" and env: "healthy env" "iterates env" using set' by blast+
  have split: "split_path (e_path path) = (parent_of ws, w)" using set' split_path_join [of "ws @ [w]"] by simp
  obtain e where none: "get_file_dir (ae_cql env) (as_db st) (e_bucket_id path) (parent_of ws) w = Err e"
    using set' by (cases "get_file_dir (ae_cql env) (as_db st) (e_bucket_id path) (parent_of ws) w") auto
  have sz: "unat ?sz = length bytes" "as_i64 ?sz = int (length bytes)"
    using size(1) by (simp_all add: unat_of_nat_small as_i64_small)
  note ad = admitted [OF db env _ _ admit split none]
  define session where "session = new_session env path ?sz False Writing file_id (ae_uuid env (as_drawn st1)) frs"
  obtain st2 where opened: "open_session env session (st1\<lparr>as_drawn := Suc (as_drawn st1)\<rparr>) = Some (Ok (s_id session), st2)"
    and same: "session_only view (as_db st1) (as_db st2)" "list_all (armed env st2) frs"
    by (rule session_opened [OF db, of st1 frs session]) (use ad set' in simp_all)
  from ad set' same have ad2: "old = None" "session_only view (as_db st) (as_db st2)"
      "distinct (map rv_node_id frs)" "(\<Sum>x\<leftarrow>frs. unat (rv_size x)) = length bytes"
      "bucket_key bucket = (e_app_id path, e_bucket_id path)" "b_id bucket = e_bucket_id path"
      "t_buckets (view (as_db st)) (e_app_id path, e_bucket_id path) = Some bucket"
    by (auto simp: sz intro: session_only_trans)
  obtain s' st3 st4 bss where t: "oneshot_transfer env ticks frs bytes (session, st2) = Some (Ok (), s', st3)"
    "s_fragments s' = s_fragments session" "session_only view (as_db st2) (as_db st3)"
    "join_commits env commit_final (s_fragments s') st3 = Some (Ok (), st4)" "as_db st4 = as_db st3"
    "list_all2 (stored env st4) frs bss" "concat bss = bytes"
    by (rule session_written [OF env(1) db same(2) ad2(3,4) size(1) frs(2) size(2), of session ticks])
      (simp add: session_def new_session_def)
  have only: "session_only view (as_db st) (as_db st3)" using ad2(2) t(3) by (rule session_only_trans)
  have quiet: "view (ae_others env n db) = view db" for n db using set' by blast
  have names: "names ws" using set' by simp
  have closed: "tree_closed (view (as_db st3)) (b_id bucket)"
    using set' only ad2(6) by (simp add: session_only_def tree_closed_def dir_at_def)
  have count: "counters (view (as_db st3)) (bucket_key bucket) = Some (file_count bucket, space_taken bucket)"
    using only ad2(5,7) by (simp add: session_only_def counters_def)
  obtain st' row dir where e: "end_session env (parent_of ws, w) (int (length bytes)) s' bucket
        (e_app_id path, ae_uuid env (as_drawn st1)) (Some None) file_id st3 = Some (Ok (), st')"
    "get_file_dir (ae_cql env) (as_db st') (b_id bucket) (parent_of ws) w = Ok (row, dir)"
    "f_chunk_ids row = s_fragments s'" "f_size row = int (length bytes)" "f_id row = file_id"
    "as_ledger st' = as_ledger st4" "as_locks st' = as_locks st4"
    "counters (view (as_db st')) (bucket_key bucket)
      = Some (add_counters (file_count bucket, space_taken bucket) (1, int (length bytes)))"
    using reliable_cql.end_session_up [OF db refl quiet names closed count t(4,5),
        of w "int (length bytes)" "(e_app_id path, ae_uuid env (as_drawn st1))" file_id] by blast
  have run: "handle_upload_oneshot env ticks path ?sz accessor bytes st = Some (Ok (), st')"
    using perm admit opened t(1) e(1) ad2(1) split
    by (simp add: handle_upload_oneshot_def then_svc_def of_result_def draw_uuid_def session_def new_session_def sz Let_def)
  have "sort_key chunk_order (f_chunk_ids row) = reserve_info_to_file_chunks frs"
    using chunks_in_order [OF frs(1)] e(3) t(2) by (simp add: session_def new_session_def)
  moreover have "list_all2 (serves env st4) (reserve_info_to_file_chunks frs) bss"
    using stored_serves [OF env(1) t(6) frs(2)] size t(7) by simp
  ultimately have "list_all2 (serves env st') (sort_key chunk_order (f_chunk_ids row)) bss"
    using e(6,7) by (auto simp: serves_def elim!: list_all2_mono)
  then show ?thesis using run e t(7) ad2(5,6) by auto
qed

text \<open>C1. What is uploaded can be downloaded. When an upload in one request is admitted, which
  gives it parts \<open>frs\<close> on different nodes, in a cluster that works and for a path at which there is no
  file, then however often the notifier runs in between, the upload succeeds, and a download of
  the path afterwards yields exactly the bytes of the request. The file and space counters of the bucket
  have grown by the one file and its size. The parts must not be empty and number at most 128,
  the range of the order stored with a chunk.\<close>

theorem upload_then_download:
  assumes "upload_setting env view path ws w st"
    and "has_permission accessor (e_app_id path) (e_bucket_id path) UPLOAD_ALLOWANCE = Ok ()"
    and "has_permission accessor (e_app_id path) (e_bucket_id path) DOWNLOAD_ALLOWANCE = Ok ()"
    and "admit_upload env path accessor oneshot_flags (of_nat (length bytes)) st = Some (Ok (bucket, old, file_id, frs), st1)"
    and "length frs \<le> 128" "\<forall>x\<in>set frs. rv_size x \<noteq> 0"
    and "length bytes < 2 ^ 63" "\<forall>n. length bytes div unat (ae_fragment_size env n) \<le> 2 ^ 32 - 2"
  shows "\<exists>st' info parts st''.
      handle_upload_oneshot env ticks path (of_nat (length bytes)) accessor bytes st = Some (Ok (), st')
    \<and> handle_download env satisfiable guess path accessor None (as_db st') = Ok (info, parts)
    \<and> unat (dl_size info) = length bytes \<and> dl_attachment_name info = w
    \<and> download_task env parts st' = Some (Ok bytes, st'')
    \<and> counters (view (as_db st')) (e_app_id path, e_bucket_id path)
        = Some (add_counters (file_count bucket, space_taken bucket) (1, int (length bytes)))"
proof -
  obtain st' row dir bss where up: "handle_upload_oneshot env ticks path (of_nat (length bytes)) accessor bytes st = Some (Ok (), st')"
    "get_file_dir (ae_cql env) (as_db st') (e_bucket_id path) (parent_of ws) w = Ok (row, dir)"
    "f_size row = int (length bytes)" "concat bss = bytes"
    "list_all2 (serves env st') (sort_key chunk_order (f_chunk_ids row)) bss"
    "counters (view (as_db st')) (e_app_id path, e_bucket_id path)
        = Some (add_counters (file_count bucket, space_taken bucket) (1, int (length bytes)))"
    using upload_runs [OF assms(1,2,4,7,8,5,6), of ticks] by blast
  have out: "output_works env" using assms(1) by (simp add: upload_setting_def healthy_def output_works_def)
  have split: "split_path (e_path path) = (parent_of ws, w)"
    using assms(1) split_path_join [of "ws @ [w]"] by (simp add: upload_setting_def)
  let ?cs = "sort_key chunk_order (f_chunk_ids row)"
  have len: "length ?cs = length bss" using up(5) by (rule list_all2_lengthD)
  obtain st'' where "send_chunks env (zip ?cs (replicate (length bss) (Some chunk_range_default))) [] st' = Some (Ok bytes, st'')"
    using send_chunks_Ok [OF out up(5) whole_parts(1), of "[]"] whole_parts(2) [of bss] up(4) by auto
  then have "download_task env (zip ?cs (replicate (length bss) (Some chunk_range_default))) st' = Some (Ok bytes, st'')"
    using out by (simp add: download_task_def then_svc_def of_result_def output_works_def)
  moreover have "unat (as_u64 (f_size row)) = length bytes" using up(3) assms(7) by (simp add: unat_as_u64)
  ultimately show ?thesis using up(1-3,6) assms(3) split len by (auto simp: handle_download_def)
qed

definition upload_bucket :: Bucket where
  "upload_bucket = \<lparr>b_app_id = 6, b_id = 7, b_name = ''b'', encrypted = False, atomic_upload = False,
     b_quota = 100, file_count = 3, space_taken = 30, b_created = 0, b_last_modified = 0\<rparr>"

definition upload_state :: "((u8 list \<rightharpoonup> u8 list), mem_db) app_state" where
  "upload_state = two_nodes (\<lambda>n. if n = 1 then 3 else 100) (no_rows\<lparr>m_buckets := [upload_bucket]\<rparr>)"

definition upload_path :: EntryPath where
  "upload_path = \<lparr>e_app_id = 6, e_bucket_id = 7, e_path = ''a/f''\<rparr>"

lemma upload_setting_two_nodes: "upload_setting two_nodes_env mem_view upload_path [''a''] ''f'' upload_state"
proof -
  have dirs: "t_dirs (mem_view (as_db upload_state)) k = None" for k
    by (simp add: upload_state_def two_nodes_def no_rows_def mem_view_def rows_map_def)
  have "get_directory mem_cql (as_db upload_state) 7 (Some (join_segs [''a''])) = Err DataNotFound"
    using mem_up.get_directory_at [of "[''a'']" "as_db upload_state" 7] dirs names_sample_a by (simp add: dir_at_def)
  then show ?thesis
    using mem_up.reliable_cql_axioms two_nodes_iterates(1) names_sample_a dirs
    by (simp add: upload_setting_def healthy_def fresh_locks_def unlocked_def two_nodes_env_def upload_path_def
        get_file_dir_def tree_closed_def dir_at_def plain_env_def lock_table_new_def)
      (simp add: upload_state_def two_nodes_def lock_table_new_def name_seg_def plain_seg_def is_sep_def)
qed

lemma upload_admitted:
  "\<exists>frs st1. admit_upload two_nodes_env upload_path full_accessor oneshot_flags (of_nat (length [1, 2, 3, 4, 5 :: u8])) upload_state
      = Some (Ok (upload_bucket, None, 100, frs), st1)
    \<and> map rv_size frs = [3, 2]"
proof -
  have plan: "resolve_targets two_nodes_env 5 PreferSelfThenMostFree (upload_state\<lparr>as_drawn := n\<rparr>) = ([(1, 3), (2, 2)], 0)" for n
    by (simp add: upload_state_def resolve_targets_def push_most_used_def two_nodes_def two_nodes_env_def plain_ledger_def
      ledger_new_def get_available_space_def Let_def)
  have split: "split_path ''a/f'' = (Some ''a'', ''f'')"
    using split_path_join [of "[''a'', ''f'']"] names_sample_a by (simp add: name_seg_def plain_seg_def is_sep_def)
  have "check_overwrite two_nodes_env upload_path full_accessor upload_bucket upload_state = Some (Ok (False, None), upload_state)"
    using upload_setting_two_nodes
    by (cases "get_file_dir mem_cql (as_db upload_state) 7 (Some ''a'') ''f''")
      (simp_all add: upload_setting_def check_overwrite_def split upload_path_def two_nodes_env_def)
  moreover have "check_quota two_nodes_env 6 7 upload_bucket 5 upload_state = Some (Ok (), upload_state)"
    by (simp add: check_quota_def then_svc_def of_result_def get_reserved_space_def get_upload_sessions_def two_nodes_env_def
        upload_state_def two_nodes_def no_rows_def mem_cql_sel unique_rows_def upload_bucket_def i64_add_def as_i64_small in_i64_def)
  moreover have "get_bucket mem_cql (as_db upload_state) 6 7 = Ok upload_bucket"
    by (simp add: get_bucket_def found_def upload_state_def two_nodes_def mem_cql_sel rows_map_def upload_bucket_def bucket_key_def)
  moreover have "\<exists>frs st1. reserve_chunks two_nodes_env 5 (oneshot_flags False) 7 100 PreferSelfThenMostFree
        (upload_state\<lparr>as_drawn := Suc 0\<rparr>) = Some (Ok frs, st1) \<and> map rv_size frs = [3, 2]"
    by (simp add: reserve_chunks_def plan)
      (simp add: run_two_nodes upload_state_def oneshot_flags_def no_rows_def start_receiving_def try_write_def try_lock_def
        lock_table_new_def file_lock_new_def guard_new_def fragment_write_stream_def get_path_def
        store_write_guard_def try_then_def)
  moreover have "ae_cql two_nodes_env = mem_cql" "ae_uuid two_nodes_env 0 = 100" by (simp_all add: two_nodes_env_def)
  moreover have "b_id upload_bucket = 7" "as_drawn upload_state = 0" "e_app_id upload_path = 6" "e_bucket_id upload_path = 7"
    by (simp_all add: upload_bucket_def upload_state_def two_nodes_def upload_path_def)
  ultimately show ?thesis
    by (auto simp: admit_upload_def then_svc_def of_result_def draw_uuid_def db_query_def)
qed

theorem upload_then_download_witness:
  "\<exists>st' info parts st''. handle_upload_oneshot two_nodes_env (\<lambda>k. k) upload_path 5 full_accessor [1, 2, 3, 4, 5] upload_state
        = Some (Ok (), st')
     \<and> handle_download two_nodes_env (\<lambda>spec n. Some spec) (\<lambda>_. ''text/plain'') upload_path full_accessor None (as_db st')
        = Ok (info, parts)
     \<and> download_task two_nodes_env parts st' = Some (Ok [1, 2, 3, 4, 5], st'')
     \<and> counters (mem_view (as_db st')) (6, 7) = Some (4, 35)"
proof -
  let ?bs = "[1, 2, 3, 4, 5] :: u8 list"
  obtain frs st1 where admit: "admit_upload two_nodes_env upload_path full_accessor oneshot_flags (of_nat (length ?bs)) upload_state
      = Some (Ok (upload_bucket, None, 100, frs), st1)" and sizes: "map rv_size frs = [3, 2]"
    using upload_admitted by (elim exE conjE) (rule that)
  have perm: "has_permission full_accessor (e_app_id upload_path) (e_bucket_id upload_path) p = Ok ()" for p
    by (simp add: upload_path_def)
  have frs: "length frs \<le> 128" "\<forall>x\<in>set frs. rv_size x \<noteq> 0"
    using sizes by (auto simp: map_eq_Cons_conv)
  have few: "\<forall>n. length ?bs div unat (ae_fragment_size two_nodes_env n) \<le> 2 ^ 32 - 2"
    by (simp add: two_nodes_env_def)
  have "length ?bs < 2 ^ 63" by simp
  from upload_then_download [OF upload_setting_two_nodes perm perm admit frs this few, of "\<lambda>k. k" "\<lambda>spec n. Some spec" "\<lambda>_. ''text/plain''"]
  show ?thesis by (auto simp: upload_path_def upload_bucket_def add_counters_def i64_add_def in_i64_def)
qed

end
