(* ===== verification/Upload_Failures.thy ===== *)
theory Upload_Failures
  imports Upload_Correctness
begin

section \<open>Uploads that fail unnoticed\<close>

text \<open>
  Two ways in which an upload harms data. A peer that cannot complete the file of a chunk reports this by
  closing its channel, and the uploading node takes the closed channel for the end of the transfer. In
  a bucket without atomic uploads, an upload over a file deletes the file before it asks for room.
\<close>

subsection \<open>A peer that cannot complete a chunk\<close>

text \<open>A cluster that works, but for the completion of received files.\<close>

definition healthy_but_finish :: "('st, 'db) app_env \<Rightarrow> bool" where
  "healthy_but_finish env \<longleftrightarrow> healthy (env\<lparr>ae_finish_ok := \<lambda>_ _. True\<rparr>)"

lemma receive_unfinished:
  assumes "h_receive_file_stream (ns_handler s) = Some (FileTarget (UncommitedFile i))"
    and "data_dir (ns_ledger s) (UncommitedFile i) = Some []" "\<not> fs_refuses (ne_ledger env) (UncommitedFile i)"
    and "ne_write_ok env" "\<not> ne_finish_ok env (h_auto_close (ns_handler s))" "ns_closed s = None"
    and "map (\<lambda>(l, _, _). l) cs = replicate (length cs - 1) False @ [True]" "filled cs"
  shows "\<exists>s' e. receive_fragments env cs s = (Err MdsftpInternal, s') \<and> ns_closed s' = Some (Err e)
    \<and> ns_ledger s' = (ns_ledger s)\<lparr>data_dir := (data_dir (ns_ledger s))(UncommitedFile i \<mapsto> contents cs)\<rparr>"
proof -
  obtain ds n c where cs: "cs = ds @ [(True, n, c)]" and ds: "list_all (\<lambda>(l, _, _). \<not> l) ds"
    using assms(7) by (rule fragments_split)
  have "filled ds" "c \<noteq> []" using assms(8) by (simp_all add: cs)
  then show ?thesis
    using receive_open [OF assms(1,3,4,2) ds] assms
    by (simp add: cs receive_fragments_append handle_file_chunk_def write_target_def stream_write_def close_channel_def Let_def)
qed

lemma transfer_unfinished:
  assumes frag: "armed env st frag" "rv_channel frag = Some ch" and env: "healthy_but_finish env"
    and bad: "\<not> ae_finish_ok env (rv_node_id frag) True"
    and enough: "unat (rv_size frag) \<le> length reader" "rv_size frag \<noteq> 0"
    and few: "unat (rv_size frag) div unat (ae_fragment_size env (ae_self env)) \<le> 2 ^ 32 - 2"
  shows "\<exists>st'. inbound_transfer env reader 0 (rv_node_id frag) (rv_chunk_id frag) (rv_channel frag)
        \<lparr>ci_chunk_buffer = cb, ci_size = rv_size frag, ci_append = False\<rparr> st
      = Some (Ok (drop (unat (rv_size frag)) reader), st')
    \<and> chunk_set (as_ledger st' (rv_node_id frag)) = chunk_set (as_ledger st (rv_node_id frag))
    \<and> reservation_map (as_ledger st' (rv_node_id frag)) = reservation_map (as_ledger st (rv_node_id frag))"
proof -
  let ?n = "rv_node_id frag" and ?i = "rv_chunk_id frag" and ?sz = "rv_size frag"
  note env' = env [unfolded healthy_but_finish_def healthy_def]
  have ch: "?n \<noteq> ae_self env" "rc_node ch = ?n" "rc_closed ch = None"
    "data_dir (as_ledger st ?n) (UncommitedFile ?i) = Some []"
    "h_receive_file_stream (rc_handler ch) = Some (FileTarget (UncommitedFile ?i))" "h_auto_close (rc_handler ch)"
    using frag by (auto simp: armed_def Let_def)
  let ?p = "\<lparr>sp_size = ?sz, sp_range = None\<rparr> :: SizeParams"
  obtain cs sent where up: "mdsftp_upload False reader ?p (ae_fragment_size env (ae_self env)) = Some (cs, sent)"
    using env' by (auto simp: mdsftp_upload_def Let_def unat_eq_zero split: prod.split) (metis surj_pair)
  have cs: "map (\<lambda>(l, _, _). l) cs = replicate (length cs - 1) False @ [True]" "list_all (\<lambda>(_, _, c). c \<noteq> []) cs"
    using upload_fragments [OF up] upload_fragments_nonempty [OF up] few enough
    by (simp_all add: size_params_size_def)
  let ?s = "node_at ?n (rc_handler ch) st" and ?e = "node_env_at env ?n st"
  obtain s' e where s': "receive_fragments ?e cs ?s = (Err MdsftpInternal, s')" "ns_closed s' = Some (Err e)"
    "chunk_set (ns_ledger s') = chunk_set (as_ledger st ?n)" "reservation_map (ns_ledger s') = reservation_map (as_ledger st ?n)"
    using receive_unfinished [of ?s ?i ?e cs] ch cs env' bad
    by (auto simp: node_at_def node_env_at_def)
  define st1 where "st1 = st\<lparr>as_ledger := (as_ledger st)(?n := ns_ledger s'),
    as_locks := (as_locks st)(?n := drop_handler (ns_handler s') (ns_locks s')), as_drawn := Suc (as_drawn st)\<rparr>"
  have "send_content env reader ?sz ch st = Some (Ok (), st1)"
    using s' ch by (simp add: send_content_def up remote_run_def Let_def st1_def)
  then show ?thesis
    using frag(2) ch(1) s'(3,4) by (simp add: inbound_transfer_def remote_inbound_def then_svc_def st1_def)
qed

lemma retrieve_missing:
  assumes "n \<noteq> ae_self env" "ae_channel env n = Ok ()" "chunk_set (as_ledger st n) i = None"
  shows "outbound_transfer env out n i rng st = None"
  using assms
  by (simp add: outbound_transfer_def remote_outbound_def open_channel_def remote_run_def handle_retrieve_def node_at_def
      existing_fragment_meta_def then_svc_def Let_def split: result.split)

lemma commit_keeps_chunk_set: "chunk_set (apply_commit le i commit_final l) = chunk_set l"
  by (simp add: apply_commit_def commit_final_def commit_chunk_def fs_rename_def Let_def split: option.splits)

text \<open>C36. A peer that fails to complete a chunk goes unnoticed. When the file of a chunk cannot be
  flushed and closed on its node after the last fragment, the transfer still ends with \<open>Ok\<close>, and
  so does the final commit, so that the upload goes on to record the file. But the node has not recorded
  the chunk, and reading it from another node, whatever the range, never returns.\<close>

theorem remote_failure_unnoticed:
  assumes "armed env st frag" "rv_channel frag = Some ch" "healthy_but_finish env"
    and "\<not> ae_finish_ok env (rv_node_id frag) True" "chunk_set (as_ledger st (rv_node_id frag)) (rv_chunk_id frag) = None"
    and "unat (rv_size frag) \<le> length reader" "rv_size frag \<noteq> 0"
    and "unat (rv_size frag) div unat (ae_fragment_size env (ae_self env)) \<le> 2 ^ 32 - 2"
  shows "\<exists>st' st''. inbound_transfer env reader 0 (rv_node_id frag) (rv_chunk_id frag) (rv_channel frag)
        \<lparr>ci_chunk_buffer = cb, ci_size = rv_size frag, ci_append = False\<rparr> st
      = Some (Ok (drop (unat (rv_size frag)) reader), st')
    \<and> service_commit_chunk env commit_final (rv_node_id frag) (rv_chunk_id frag) st' = Some (Ok (), st'')
    \<and> chunk_set (as_ledger st'' (rv_node_id frag)) (rv_chunk_id frag) = None
    \<and> (\<forall>out rng. outbound_transfer env out (rv_node_id frag) (rv_chunk_id frag) rng st'' = None)"
proof -
  let ?n = "rv_node_id frag" and ?i = "rv_chunk_id frag"
  have env: "ae_link env ?n" "ae_channel env ?n = Ok ()" using assms(3) by (simp_all add: healthy_but_finish_def healthy_def)
  have n: "?n \<noteq> ae_self env" using assms(1,2) by (simp add: armed_def Let_def)
  obtain st' where st': "inbound_transfer env reader 0 ?n ?i (rv_channel frag)
        \<lparr>ci_chunk_buffer = cb, ci_size = rv_size frag, ci_append = False\<rparr> st = Some (Ok (drop (unat (rv_size frag)) reader), st')"
    "chunk_set (as_ledger st' ?n) = chunk_set (as_ledger st ?n)"
    using transfer_unfinished [OF assms(1-4,6-8)] by blast
  obtain st'' where st'': "service_commit_chunk env commit_final ?n ?i st' = Some (Ok (), st'')"
    "as_ledger st'' = (as_ledger st')(?n := apply_commit (ae_ledger env ?n) ?i commit_final (as_ledger st' ?n))"
    by (rule commit_effect [OF env])
  have "chunk_set (as_ledger st'' ?n) ?i = None"
    using st'(2) st''(2) assms(5) by (simp add: commit_keeps_chunk_set)
  with st'(1) st''(1) retrieve_missing [OF n env(2)] show ?thesis by blast
qed

definition full_disk_env :: "((u8 list \<rightharpoonup> u8 list), mem_db) app_env" where
  "full_disk_env = two_nodes_env\<lparr>ae_finish_ok := \<lambda>n _. n = 1\<rparr>"

definition armed_state :: "((u8 list \<rightharpoonup> u8 list), mem_db) app_state" where
  "armed_state = (two_nodes (\<lambda>_. 10) no_rows)\<lparr>as_ledger := \<lambda>_. (plain_ledger 10)\<lparr>reservation_map :=
     [12 \<mapsto> \<lparr>file_space = 2, completed = 0, durable = False, last_update = 5\<rparr>], uncommited_map := [12 \<mapsto> \<lparr>access = 5\<rparr>],
     data_dir := [UncommitedFile 12 \<mapsto> []]\<rparr>\<rparr>"

definition armed_fragment :: ReservedFragment where
  "armed_fragment = \<lparr>rv_channel = Some \<lparr>rc_node = 2, rc_handler = (packet_handler_new BUFFER_SIZE 2)\<lparr>
       h_reservation_details := Some \<lparr>rd_id = 12, rd_size = 2, rd_durable = False\<rparr>,
       h_receive_file_stream := Some (FileTarget (UncommitedFile 12))\<rparr>, rc_closed = None\<rparr>,
     rv_node_id = 2, rv_chunk_id = 12, rv_size = 2, rv_chunk_buffer = BUFFER_SIZE\<rparr>"

theorem remote_failure_unnoticed_witness:
  "\<exists>st' st''. inbound_transfer full_disk_env [1, 2, 3] 0 2 12 (rv_channel armed_fragment)
        \<lparr>ci_chunk_buffer = 16, ci_size = 2, ci_append = False\<rparr> armed_state = Some (Ok [3], st')
    \<and> service_commit_chunk full_disk_env commit_final 2 12 st' = Some (Ok (), st'')
    \<and> outbound_transfer full_disk_env [] 2 12 None st'' = None"
proof -
  have "armed full_disk_env armed_state armed_fragment"
    by (simp add: armed_def armed_state_def armed_fragment_def full_disk_env_def two_nodes_env_def two_nodes_def
        packet_handler_new_def drop_handler_def drop_guard_def readable_def lock_table_new_def)
  moreover have "healthy_but_finish full_disk_env"
    by (simp add: healthy_but_finish_def healthy_def full_disk_env_def two_nodes_env_def plain_env_def)
  ultimately show ?thesis
    using remote_failure_unnoticed [of full_disk_env armed_state armed_fragment _ "[1, 2, 3]" 16]
    by (auto simp: armed_fragment_def full_disk_env_def two_nodes_env_def armed_state_def plain_ledger_def ledger_new_def)
qed

subsection \<open>Overwriting without room for both\<close>

context reliable_cql
begin

lemma delete_file_up:
  assumes "\<And>n db. view (others n db) = view db" "counters (view db) (bucket_key b) = Some x"
  obtains db' where "delete_file c others f b db = (Ok (), db')"
    "t_files (view db') = (t_files (view db))(file_key f := None)" "t_sessions (view db') = t_sessions (view db)"
proof -
  obtain db1 where db1: "del_file c db f = (Ok (), db1)" using del_file_up by blast
  have v1: "view db1 = (view db)\<lparr>t_files := (t_files (view db))(file_key f := None)\<rparr>" by (rule del_file_ok [OF db1])
  then have c1: "counters (view db1) (bucket_key b) = Some x" using assms(2) by simp
  have "2 \<le> QUERY_ATTEMPTS" by (simp add: QUERY_ATTEMPTS_def)
  from space_loop_uncontended [where others = others and dc = "-1" and ds = "wrap_i64 (- f_size f)", OF assms(1) lwt_space_up c1 this]
  obtain db' where "update_bucket_space c others b (-1) (wrap_i64 (- f_size f)) db1 = (Ok (), db')"
    "t_files (view db') = t_files (view db1)" "t_sessions (view db') = t_sessions (view db1)"
    unfolding update_bucket_space_def by blast
  with db1 v1 that show ?thesis by (simp add: delete_file_def try_join_def)
qed

lemma no_sessions_reserve_nothing:
  assumes "\<forall>s. t_sessions (view db) (session_key s) = Some s \<longrightarrow> (s_app_id s, s_bucket s) \<noteq> (a, b)"
  shows "get_reserved_space c t a b db = (Ok 0, db)"
proof -
  obtain ss where ss: "sel_sessions_bucket c db a b = Ok ss" using sel_sessions_bucket_up by blast
  have "ss = []" using sel_sessions_bucket_ok [OF ss] assms by (cases ss) auto
  with ss show ?thesis by (simp add: get_reserved_space_def get_upload_sessions_def)
qed

lemma found_file:
  assumes "get_file_dir c db b dir name = Ok (f, d)"
  shows "t_files (view db) (file_key f) = Some f"
proof -
  have "\<exists>k. sel_file c db k = Ok (Some f)"
    using assms by (auto simp: get_file_dir_def found_def split: result.splits option.splits)
  then obtain k where "t_files (view db) k = Some f" using sel_file_ok by metis
  with keyed_files [OF this] show ?thesis by simp
qed

end

lemma remove_chunks_db [simp]: "as_db (remove_chunks env cs st) = as_db st"
  by (induction cs arbitrary: st)
    (simp_all add: set_ledger_def notify_def remote_run_def split_beta Let_def split: result.split)

text \<open>C37. An upload that is refused can lose the file it was to replace. In a bucket without atomic
  uploads, when the counters of the bucket, which still include the existing file, leave no room for
  the new one, the upload is refused for want of space, but the row of the existing file is gone. Its own
  size is not taken into account, so this happens also when the new file alone would fit.\<close>

theorem overwrite_refused_loses_file:
  assumes "reliable_cql (ae_cql env) view" "\<And>n db. view (ae_others env n db) = view db"
    and "has_permission accessor (e_app_id path) (e_bucket_id path) UPLOAD_ALLOWANCE = Ok ()"
    and "has_permission accessor (e_app_id path) (e_bucket_id path) UPLOAD_OVERWRITE_ALLOWANCE = Ok ()"
    and "get_bucket (ae_cql env) (as_db st) (e_app_id path) (e_bucket_id path) = Ok bucket" "\<not> atomic_upload bucket"
    and "split_path (e_path path) = (dir, name)"
    and "get_file_dir (ae_cql env) (as_db st) (e_bucket_id path) dir name = Ok (row, d)"
    and "\<forall>s. t_sessions (view (as_db st)) (session_key s) = Some s
           \<longrightarrow> (s_app_id s, s_bucket s) \<noteq> (e_app_id path, e_bucket_id path)"
    and "b_quota bucket < i64_add (space_taken bucket) (as_i64 sz)"
  shows "t_files (view (as_db st)) (file_key row) = Some row
    \<and> (\<exists>m st'. handle_upload_oneshot env ticks path sz accessor reader st = Some (Err (InsufficientStorage m), st')
        \<and> t_files (view (as_db st')) (file_key row) = None)"
proof -
  note row = reliable_cql.bucket_row [OF assms(1,5)]
  have "counters (view (as_db (remove_chunks env (f_chunk_ids row) st))) (bucket_key bucket)
      = Some (file_count bucket, space_taken bucket)" using row by (simp add: counters_def)
  then obtain db where db: "delete_file (ae_cql env) (ae_others env) row bucket (as_db st) = (Ok (), db)"
    "t_files (view db) = (t_files (view (as_db st)))(file_key row := None)" "t_sessions (view db) = t_sessions (view (as_db st))"
    using reliable_cql.delete_file_up [where others = "ae_others env" and db = "as_db st" and b = bucket and f = row, OF assms(1,2)]
    by auto
  have none: "get_reserved_space (ae_cql env) t (e_app_id path) (e_bucket_id path) db = (Ok 0, db)" for t
    by (rule reliable_cql.no_sessions_reserve_nothing [OF assms(1)]) (use assms(9) db(3) in simp)
  let ?st = "(remove_chunks env (f_chunk_ids row) st)\<lparr>as_db := db\<rparr>"
  have del: "check_overwrite env path accessor bucket st = Some (Ok (True, None), ?st)"
    using assms(4,6-8) db(1)
    by (simp add: check_overwrite_def do_delete_file_def db_update_def then_svc_def of_result_def)
  have "i64_add (i64_add (space_taken bucket) (as_i64 sz)) 0 = i64_add (space_taken bucket) (as_i64 sz)"
    by (simp add: i64_add_def)
  then obtain m where "check_quota env (e_app_id path) (e_bucket_id path) bucket sz ?st = Some (Err (InsufficientStorage m), ?st)"
    using assms(10) none by (simp add: check_quota_def then_svc_def of_result_def)
  then have "handle_upload_oneshot env ticks path sz accessor reader st = Some (Err (InsufficientStorage m), ?st)"
    using assms(3,5) del by (simp add: handle_upload_oneshot_def admit_upload_def then_svc_def of_result_def db_query_def)
  then show ?thesis using db(2) reliable_cql.found_file [OF assms(1,8)] by auto
qed

definition small_bucket :: Bucket where
  "small_bucket = \<lparr>b_app_id = 6, b_id = 7, b_name = ''b'', encrypted = False, atomic_upload = False,
     b_quota = 7, file_count = 1, space_taken = 5, b_created = 0, b_last_modified = 0\<rparr>"

theorem overwrite_refused_loses_file_witness:
  "\<exists>m st'. handle_upload_oneshot two_nodes_env (\<lambda>_. 0) \<lparr>e_app_id = 6, e_bucket_id = 7, e_path = ''f''\<rparr> 5 full_accessor
       [1, 2, 3, 4, 5] (two_nodes (\<lambda>_. 10) (no_rows\<lparr>m_files := [split_file], m_buckets := [small_bucket]\<rparr>))
       = Some (Err (InsufficientStorage m), st')
     \<and> t_files (mem_view (as_db st')) (file_key split_file) = None"
proof -
  let ?st = "two_nodes (\<lambda>_. 10) (no_rows\<lparr>m_files := [split_file], m_buckets := [small_bucket]\<rparr>)"
    and ?e = "\<lparr>e_app_id = 6, e_bucket_id = 7, e_path = ''f''\<rparr>"
  have split: "split_path (e_path ?e) = (None, ''f'')"
    using split_path_join [of "[''f'']"] by (simp add: name_seg_def plain_seg_def is_sep_def)
  have row: "get_file_dir (ae_cql two_nodes_env) (as_db ?st) (e_bucket_id ?e) None ''f'' = Ok (split_file, None)"
    by (simp add: get_file_dir_def get_directory_def two_nodes_env_def two_nodes_def found_def mem_cql_sel
        rows_map_def split_file_def file_key_def ROOT_DIR_def)
  have bucket: "get_bucket (ae_cql two_nodes_env) (as_db ?st) (e_app_id ?e) (e_bucket_id ?e) = Ok small_bucket"
    by (simp add: get_bucket_def found_def two_nodes_env_def two_nodes_def mem_cql_sel rows_map_def small_bucket_def bucket_key_def)
  have db: "reliable_cql (ae_cql two_nodes_env) mem_view" using mem_up.reliable_cql_axioms by (simp add: two_nodes_env_def)
  show ?thesis
    by (rule conjunct2 [OF overwrite_refused_loses_file [OF db _ _ _ bucket _ split row, of full_accessor 5 "\<lambda>_. 0" "[1, 2, 3, 4, 5]"]])
      (simp_all add: two_nodes_env_def two_nodes_def no_rows_def mem_view_def rows_map_def small_bucket_def i64_add_def
        as_i64_small in_i64_def)
qed

end
