(* ===== verification/App_Access.thy ===== *)
theory App_Access
  imports File_Access Permissions
begin

section \<open>Applications, members, roles, tokens and users\<close>

text \<open>
  The rows of \<^verbatim>\<open>data/src/model/app_model.rs\<close> and \<^verbatim>\<open>user_model.rs\<close> and the query functions of
  \<^verbatim>\<open>data/src/access/app_access.rs\<close> and \<^verbatim>\<open>user_access.rs\<close>. As for the tables of files, the database is
  a record of the statements the code issues; the locale \<open>admin_service\<close> states what CQL documents of
  them and is interpreted on tables kept as lists. The views by owner and by user have the columns
  of their base tables. Sets in a column are lists here: they are only searched.
\<close>

record App =
  a_id :: uuid
  a_name :: string
  a_owner_id :: uuid
  a_quota :: i64
  a_created :: timestamp
  a_last_modified :: timestamp

record UserRole =
  r_app_id :: uuid
  r_name :: string
  r_scopes :: "scope_permit list option"
  r_created :: timestamp
  r_last_modified :: timestamp

record AppMember =
  am_app_id :: uuid
  am_member_id :: uuid
  am_member_roles :: "string list option"

record AppToken =
  tk_app_id :: uuid
  tk_issuer_id :: uuid
  tk_name :: string
  tk_nonce :: uuid
  tk_created :: timestamp
  tk_last_modified :: timestamp

record User =
  u_id :: uuid
  u_session_id :: uuid
  u_name :: string
  u_auth_identifier :: string
  u_quota :: i64
  u_global_role :: int
  u_created :: timestamp
  u_last_modified :: timestamp

type_synonym AppByOwner = App
type_synonym MemberByUser = AppMember
type_synonym UsersByName = User
type_synonym UsersByAuth = User

type_synonym member_key = "uuid \<times> uuid"
type_synonym role_key = "uuid \<times> string"
type_synonym token_key = "uuid \<times> uuid \<times> string"

definition member_key :: "AppMember \<Rightarrow> member_key" where
  "member_key m = (am_app_id m, am_member_id m)"

definition role_key :: "UserRole \<Rightarrow> role_key" where
  "role_key r = (r_app_id r, r_name r)"

definition token_key :: "AppToken \<Rightarrow> token_key" where
  "token_key t = (tk_app_id t, tk_issuer_id t, tk_name t)"

record admin_tables =
  v_apps :: "uuid \<rightharpoonup> App"
  v_members :: "member_key \<rightharpoonup> AppMember"
  v_roles :: "role_key \<rightharpoonup> UserRole"
  v_tokens :: "token_key \<rightharpoonup> AppToken"
  v_users :: "uuid \<rightharpoonup> User"

subsection \<open>The statements\<close>

record 'db admin_cql =
  sel_app :: "'db \<Rightarrow> uuid \<Rightarrow> App option data_result"
  sel_apps_owner :: "'db \<Rightarrow> uuid \<Rightarrow> AppByOwner list data_result"
  ins_app :: "'db \<Rightarrow> App \<Rightarrow> unit data_result \<times> 'db"
  del_app :: "'db \<Rightarrow> App \<Rightarrow> unit data_result \<times> 'db"
  upd_app_quota :: "'db \<Rightarrow> uuid \<Rightarrow> i64 \<Rightarrow> unit data_result \<times> 'db"
  sel_member :: "'db \<Rightarrow> member_key \<Rightarrow> AppMember option data_result"
  sel_members_app :: "'db \<Rightarrow> uuid \<Rightarrow> AppMember list data_result"
  sel_members_user :: "'db \<Rightarrow> uuid \<Rightarrow> MemberByUser list data_result"
  put_member :: "'db \<Rightarrow> AppMember \<Rightarrow> unit data_result \<times> 'db"
  del_member :: "'db \<Rightarrow> AppMember \<Rightarrow> unit data_result \<times> 'db"
  del_members_app :: "'db \<Rightarrow> uuid \<Rightarrow> unit data_result \<times> 'db"
  sel_role :: "'db \<Rightarrow> role_key \<Rightarrow> UserRole option data_result"
  sel_roles_app :: "'db \<Rightarrow> uuid \<Rightarrow> UserRole list data_result"
  put_role :: "'db \<Rightarrow> UserRole \<Rightarrow> unit data_result \<times> 'db"
  del_role :: "'db \<Rightarrow> UserRole \<Rightarrow> unit data_result \<times> 'db"
  del_roles_app :: "'db \<Rightarrow> uuid \<Rightarrow> unit data_result \<times> 'db"
  sel_token :: "'db \<Rightarrow> token_key \<Rightarrow> AppToken option data_result"
  sel_tokens_app :: "'db \<Rightarrow> uuid \<Rightarrow> AppToken list data_result"
  sel_tokens_issuer :: "'db \<Rightarrow> uuid \<Rightarrow> uuid \<Rightarrow> AppToken list data_result"
  ins_token :: "'db \<Rightarrow> AppToken \<Rightarrow> unit data_result \<times> 'db"
  del_token :: "'db \<Rightarrow> AppToken \<Rightarrow> unit data_result \<times> 'db"
  del_tokens_app :: "'db \<Rightarrow> uuid \<Rightarrow> unit data_result \<times> 'db"
  sel_user :: "'db \<Rightarrow> uuid \<Rightarrow> User option data_result"
  sel_users_name :: "'db \<Rightarrow> string \<Rightarrow> UsersByName list data_result"
  sel_users_auth :: "'db \<Rightarrow> string \<Rightarrow> UsersByAuth list data_result"
  sel_users :: "'db \<Rightarrow> User list data_result"
  ins_user :: "'db \<Rightarrow> User \<Rightarrow> unit data_result \<times> 'db"
  upd_user_name :: "'db \<Rightarrow> uuid \<Rightarrow> string \<Rightarrow> unit data_result \<times> 'db"
  upd_user_role :: "'db \<Rightarrow> uuid \<Rightarrow> int \<Rightarrow> unit data_result \<times> 'db"
  upd_user_quota :: "'db \<Rightarrow> uuid \<Rightarrow> i64 \<Rightarrow> unit data_result \<times> 'db"

text \<open>A statement that writes has been applied when it succeeds; when it reports an error, a timeout for
  instance, it has been applied or not. All rows of an application are in one partition of their table.\<close>

definition after_write :: "'t \<Rightarrow> 't \<Rightarrow> 'a data_result \<Rightarrow> 't \<Rightarrow> bool" where
  "after_write before after r t \<longleftrightarrow> (case r of Ok _ \<Rightarrow> t = after | Err _ \<Rightarrow> t = before \<or> t = after)"

definition drop_app :: "uuid \<Rightarrow> (uuid \<times> 'k \<rightharpoonup> 'r) \<Rightarrow> (uuid \<times> 'k \<rightharpoonup> 'r)" where
  "drop_app i m = (\<lambda>k. if fst k = i then None else m k)"

locale admin_service =
  fixes a :: "'db admin_cql" and admin :: "'db \<Rightarrow> admin_tables"
  assumes keyed_apps: "v_apps (admin db) i = Some app \<Longrightarrow> a_id app = i"
    and keyed_members: "v_members (admin db) mk = Some m \<Longrightarrow> member_key m = mk"
    and keyed_roles: "v_roles (admin db) rk = Some x \<Longrightarrow> role_key x = rk"
    and keyed_tokens: "v_tokens (admin db) tk = Some t \<Longrightarrow> token_key t = tk"
    and keyed_users: "v_users (admin db) i = Some w \<Longrightarrow> u_id w = i"
    and sel_app_ok: "sel_app a db i = Ok oa \<Longrightarrow> oa = v_apps (admin db) i"
    and sel_apps_owner_ok: "sel_apps_owner a db i = Ok apps \<Longrightarrow> distinct (map a_id apps) \<and>
      set apps = {app. v_apps (admin db) (a_id app) = Some app \<and> a_owner_id app = i}"
    and sel_member_ok: "sel_member a db mk = Ok om \<Longrightarrow> om = v_members (admin db) mk"
    and sel_role_ok: "sel_role a db rk = Ok ox \<Longrightarrow> ox = v_roles (admin db) rk"
    and sel_roles_app_ok: "sel_roles_app a db i = Ok rs \<Longrightarrow> distinct (map role_key rs) \<and>
      set rs = {x. v_roles (admin db) (role_key x) = Some x \<and> r_app_id x = i}"
    and sel_token_ok: "sel_token a db tk = Ok ot \<Longrightarrow> ot = v_tokens (admin db) tk"
    and sel_user_ok: "sel_user a db i = Ok ow \<Longrightarrow> ow = v_users (admin db) i"
    and upd_app_quota_wr: "upd_app_quota a db i q = (r, db') \<Longrightarrow> v_apps (admin db) i = Some app \<Longrightarrow>
      after_write (admin db) ((admin db)\<lparr>v_apps := (v_apps (admin db))(i \<mapsto> app\<lparr>a_quota := q\<rparr>)\<rparr>) r (admin db')"
    and ins_app_wr: "ins_app a db app = (r, db') \<Longrightarrow>
      after_write (admin db) ((admin db)\<lparr>v_apps := (v_apps (admin db))(a_id app \<mapsto> app)\<rparr>) r (admin db')"
    and del_app_wr: "del_app a db app = (r, db') \<Longrightarrow>
      after_write (admin db) ((admin db)\<lparr>v_apps := (v_apps (admin db))(a_id app := None)\<rparr>) r (admin db')"
    and put_member_wr: "put_member a db m = (r, db') \<Longrightarrow>
      after_write (admin db) ((admin db)\<lparr>v_members := (v_members (admin db))(member_key m \<mapsto> m)\<rparr>) r (admin db')"
    and del_member_wr: "del_member a db m = (r, db') \<Longrightarrow>
      after_write (admin db) ((admin db)\<lparr>v_members := (v_members (admin db))(member_key m := None)\<rparr>) r (admin db')"
    and del_members_app_wr: "del_members_app a db i = (r, db') \<Longrightarrow>
      after_write (admin db) ((admin db)\<lparr>v_members := drop_app i (v_members (admin db))\<rparr>) r (admin db')"
    and put_role_wr: "put_role a db x = (r, db') \<Longrightarrow>
      after_write (admin db) ((admin db)\<lparr>v_roles := (v_roles (admin db))(role_key x \<mapsto> x)\<rparr>) r (admin db')"
    and del_role_wr: "del_role a db x = (r, db') \<Longrightarrow>
      after_write (admin db) ((admin db)\<lparr>v_roles := (v_roles (admin db))(role_key x := None)\<rparr>) r (admin db')"
    and del_roles_app_wr: "del_roles_app a db i = (r, db') \<Longrightarrow>
      after_write (admin db) ((admin db)\<lparr>v_roles := drop_app i (v_roles (admin db))\<rparr>) r (admin db')"
    and ins_token_wr: "ins_token a db t = (r, db') \<Longrightarrow>
      after_write (admin db) ((admin db)\<lparr>v_tokens := (v_tokens (admin db))(token_key t \<mapsto> t)\<rparr>) r (admin db')"
    and del_token_wr: "del_token a db t = (r, db') \<Longrightarrow>
      after_write (admin db) ((admin db)\<lparr>v_tokens := (v_tokens (admin db))(token_key t := None)\<rparr>) r (admin db')"
    and del_tokens_app_wr: "del_tokens_app a db i = (r, db') \<Longrightarrow>
      after_write (admin db) ((admin db)\<lparr>v_tokens := drop_app i (v_tokens (admin db))\<rparr>) r (admin db')"

text \<open>The statements of the dashboard on the bucket table.\<close>

locale bucket_statements = cql_service +
  assumes sel_buckets_app_ok: "sel_buckets_app c db i = Ok bs \<Longrightarrow> distinct (map bucket_key bs) \<and>
      set bs = {b. t_buckets (view db) (bucket_key b) = Some b \<and> b_app_id b = i}"
    and ins_bucket_wr: "ins_bucket c db b = (r, db') \<Longrightarrow>
      after_write (view db) ((view db)\<lparr>t_buckets := (t_buckets (view db))(bucket_key b \<mapsto> b)\<rparr>) r (view db')"
    and del_bucket_wr: "del_bucket c db b = (r, db') \<Longrightarrow>
      after_write (view db) ((view db)\<lparr>t_buckets := (t_buckets (view db))(bucket_key b := None)\<rparr>) r (view db')"
    and upd_bucket_quota_wr: "upd_bucket_quota c db bk q = (r, db') \<Longrightarrow> t_buckets (view db) bk = Some b \<Longrightarrow>
      after_write (view db) ((view db)\<lparr>t_buckets := (t_buckets (view db))(bk \<mapsto> b\<lparr>b_quota := q\<rparr>)\<rparr>) r (view db')"

subsection \<open>The queries\<close>

definition insert_app :: "'db admin_cql \<Rightarrow> App \<Rightarrow> 'db \<Rightarrow> unit data_result \<times> 'db" where
  "insert_app a app db = ins_app a db app"

definition delete_app :: "'db admin_cql \<Rightarrow> App \<Rightarrow> 'db \<Rightarrow> unit data_result \<times> 'db" where
  "delete_app a app db =
     (case del_tokens_app a db (a_id app) of
        (Err e, db1) \<Rightarrow> (Err e, db1)
      | (Ok _, db1) \<Rightarrow>
          (case del_roles_app a db1 (a_id app) of
             (Err e, db2) \<Rightarrow> (Err e, db2)
           | (Ok _, db2) \<Rightarrow>
               (case del_members_app a db2 (a_id app) of
                  (Err e, db3) \<Rightarrow> (Err e, db3)
                | (Ok _, db3) \<Rightarrow> del_app a db3 app)))"

definition get_app_member :: "'db admin_cql \<Rightarrow> 'db \<Rightarrow> uuid \<Rightarrow> uuid \<Rightarrow> AppMember data_result" where
  "get_app_member a db app_id user_id = found (sel_member a db (app_id, user_id))"

definition maybe_get_app_member :: "'db admin_cql \<Rightarrow> 'db \<Rightarrow> uuid \<Rightarrow> uuid \<Rightarrow> AppMember option data_result" where
  "maybe_get_app_member a db app_id user_id = sel_member a db (app_id, user_id)"

definition insert_app_member :: "'db admin_cql \<Rightarrow> uuid \<Rightarrow> uuid \<Rightarrow> 'db \<Rightarrow> unit data_result \<times> 'db" where
  "insert_app_member a app_id member_id db =
     put_member a db \<lparr>am_app_id = app_id, am_member_id = member_id, am_member_roles = Some []\<rparr>"

definition delete_app_member :: "'db admin_cql \<Rightarrow> AppMember \<Rightarrow> 'db \<Rightarrow> unit data_result \<times> 'db" where
  "delete_app_member a member db = del_member a db member"

definition update_app_member :: "'db admin_cql \<Rightarrow> AppMember \<Rightarrow> 'db \<Rightarrow> unit data_result \<times> 'db" where
  "update_app_member a member db = put_member a db member"

definition get_app_roles :: "'db admin_cql \<Rightarrow> 'db \<Rightarrow> uuid \<Rightarrow> UserRole list data_result" where
  "get_app_roles a db app_id = sel_roles_app a db app_id"

definition get_app_role :: "'db admin_cql \<Rightarrow> 'db \<Rightarrow> uuid \<Rightarrow> string \<Rightarrow> UserRole data_result" where
  "get_app_role a db app_id name = found (sel_role a db (app_id, name))"

definition insert_app_role :: "'db admin_cql \<Rightarrow> UserRole \<Rightarrow> 'db \<Rightarrow> unit data_result \<times> 'db" where
  "insert_app_role a role db = put_role a db role"

definition delete_app_role :: "'db admin_cql \<Rightarrow> UserRole \<Rightarrow> 'db \<Rightarrow> unit data_result \<times> 'db" where
  "delete_app_role a role db = del_role a db role"

definition update_app_role :: "'db admin_cql \<Rightarrow> UserRole \<Rightarrow> 'db \<Rightarrow> unit data_result \<times> 'db" where
  "update_app_role a role db = put_role a db role"

definition get_app_by_id :: "'db admin_cql \<Rightarrow> 'db \<Rightarrow> uuid \<Rightarrow> App data_result" where
  "get_app_by_id a db i = found (sel_app a db i)"

definition get_app_members :: "'db admin_cql \<Rightarrow> 'db \<Rightarrow> uuid \<Rightarrow> AppMember list data_result" where
  "get_app_members a db app_id = sel_members_app a db app_id"

definition get_app_tokens :: "'db admin_cql \<Rightarrow> 'db \<Rightarrow> uuid \<Rightarrow> AppToken list data_result" where
  "get_app_tokens a db app_id = sel_tokens_app a db app_id"

definition get_app_tokens_by_issuer :: "'db admin_cql \<Rightarrow> 'db \<Rightarrow> uuid \<Rightarrow> uuid \<Rightarrow> AppToken list data_result" where
  "get_app_tokens_by_issuer a db app_id issuer_id = sel_tokens_issuer a db app_id issuer_id"

definition get_app_token :: "'db admin_cql \<Rightarrow> 'db \<Rightarrow> uuid \<Rightarrow> uuid \<Rightarrow> string \<Rightarrow> AppToken data_result" where
  "get_app_token a db app_id issuer_id name = found (sel_token a db (app_id, issuer_id, name))"

definition insert_app_token :: "'db admin_cql \<Rightarrow> AppToken \<Rightarrow> 'db \<Rightarrow> unit data_result \<times> 'db" where
  "insert_app_token a token db = ins_token a db token"

definition delete_app_token :: "'db admin_cql \<Rightarrow> AppToken \<Rightarrow> 'db \<Rightarrow> unit data_result \<times> 'db" where
  "delete_app_token a token db = del_token a db token"

definition get_apps_by_owner :: "'db admin_cql \<Rightarrow> 'db \<Rightarrow> uuid \<Rightarrow> AppByOwner list data_result" where
  "get_apps_by_owner a db owner_id = sel_apps_owner a db owner_id"

definition get_members_by_id :: "'db admin_cql \<Rightarrow> 'db \<Rightarrow> uuid \<Rightarrow> MemberByUser list data_result" where
  "get_members_by_id a db user_id = sel_members_user a db user_id"

definition update_app_quota :: "'db admin_cql \<Rightarrow> uuid \<Rightarrow> i64 \<Rightarrow> 'db \<Rightarrow> unit data_result \<times> 'db" where
  "update_app_quota a i quota db = upd_app_quota a db i quota"

definition get_user_from_name :: "'db admin_cql \<Rightarrow> 'db \<Rightarrow> string \<Rightarrow> UsersByName data_result" where
  "get_user_from_name a db name = found (first_row (sel_users_name a db name))"

definition get_user_from_auth :: "'db admin_cql \<Rightarrow> 'db \<Rightarrow> string \<Rightarrow> UsersByAuth data_result" where
  "get_user_from_auth a db auth_identifier = found (first_row (sel_users_auth a db auth_identifier))"

definition update_user :: "'db admin_cql \<Rightarrow> uuid \<Rightarrow> string \<Rightarrow> 'db \<Rightarrow> unit data_result \<times> 'db" where
  "update_user a i name db = upd_user_name a db i name"

definition update_user_role :: "'db admin_cql \<Rightarrow> uuid \<Rightarrow> GlobalRole \<Rightarrow> 'db \<Rightarrow> unit data_result \<times> 'db" where
  "update_user_role a i role db = upd_user_role a db i (global_role_i32 role)"

definition update_user_quota :: "'db admin_cql \<Rightarrow> uuid \<Rightarrow> u64 \<Rightarrow> 'db \<Rightarrow> unit data_result \<times> 'db" where
  "update_user_quota a i quota db = upd_user_quota a db i (as_i64 quota)"

definition get_user_from_id :: "'db admin_cql \<Rightarrow> 'db \<Rightarrow> uuid \<Rightarrow> User data_result" where
  "get_user_from_id a db i = found (sel_user a db i)"

definition maybe_get_user_from_id :: "'db admin_cql \<Rightarrow> 'db \<Rightarrow> uuid \<Rightarrow> User option data_result" where
  "maybe_get_user_from_id a db i = sel_user a db i"

definition maybe_get_user_from_name :: "'db admin_cql \<Rightarrow> 'db \<Rightarrow> string \<Rightarrow> UsersByName option data_result" where
  "maybe_get_user_from_name a db name = first_row (sel_users_name a db name)"

definition maybe_get_first_user :: "'db admin_cql \<Rightarrow> 'db \<Rightarrow> User option data_result" where
  "maybe_get_first_user a db = first_row (sel_users a db)"

definition insert_user :: "'db admin_cql \<Rightarrow> User \<Rightarrow> 'db \<Rightarrow> unit data_result \<times> 'db" where
  "insert_user a user db = ins_user a db user"

definition get_all_users :: "'db admin_cql \<Rightarrow> 'db \<Rightarrow> User list data_result" where
  "get_all_users a db = sel_users a db"

subsection \<open>Tables as lists of rows\<close>

record mem_admin =
  l_apps :: "App list"
  l_members :: "AppMember list"
  l_roles :: "UserRole list"
  l_tokens :: "AppToken list"
  l_users :: "User list"

definition mem_admin_view :: "mem_admin \<Rightarrow> admin_tables" where
  "mem_admin_view m = \<lparr>v_apps = rows_map a_id (l_apps m), v_members = rows_map member_key (l_members m),
     v_roles = rows_map role_key (l_roles m), v_tokens = rows_map token_key (l_tokens m), v_users = rows_map u_id (l_users m)\<rparr>"

definition change_user :: "uuid \<Rightarrow> (User \<Rightarrow> User) \<Rightarrow> mem_admin \<Rightarrow> mem_admin" where
  "change_user i f m = (case rows_map u_id (l_users m) i of None \<Rightarrow> m
     | Some u \<Rightarrow> m\<lparr>l_users := put_row u_id (f u) (l_users m)\<rparr>)"

definition mem_admin_cql :: "mem_admin admin_cql" where
  "mem_admin_cql = \<lparr>
     sel_app = (\<lambda>m i. Ok (rows_map a_id (l_apps m) i)),
     sel_apps_owner = (\<lambda>m i. Ok [x \<leftarrow> unique_rows a_id (l_apps m). a_owner_id x = i]),
     ins_app = (\<lambda>m x. (Ok (), m\<lparr>l_apps := put_row a_id x (l_apps m)\<rparr>)),
     del_app = (\<lambda>m x. (Ok (), m\<lparr>l_apps := drop_row a_id (a_id x) (l_apps m)\<rparr>)),
     upd_app_quota = (\<lambda>m i q. (Ok (), case rows_map a_id (l_apps m) i of None \<Rightarrow> m
       | Some x \<Rightarrow> m\<lparr>l_apps := put_row a_id (x\<lparr>a_quota := q\<rparr>) (l_apps m)\<rparr>)),
     sel_member = (\<lambda>m k. Ok (rows_map member_key (l_members m) k)),
     sel_members_app = (\<lambda>m i. Ok [x \<leftarrow> unique_rows member_key (l_members m). am_app_id x = i]),
     sel_members_user = (\<lambda>m i. Ok [x \<leftarrow> unique_rows member_key (l_members m). am_member_id x = i]),
     put_member = (\<lambda>m x. (Ok (), m\<lparr>l_members := put_row member_key x (l_members m)\<rparr>)),
     del_member = (\<lambda>m x. (Ok (), m\<lparr>l_members := drop_row member_key (member_key x) (l_members m)\<rparr>)),
     del_members_app = (\<lambda>m i. (Ok (), m\<lparr>l_members := [x \<leftarrow> l_members m. am_app_id x \<noteq> i]\<rparr>)),
     sel_role = (\<lambda>m k. Ok (rows_map role_key (l_roles m) k)),
     sel_roles_app = (\<lambda>m i. Ok [x \<leftarrow> unique_rows role_key (l_roles m). r_app_id x = i]),
     put_role = (\<lambda>m x. (Ok (), m\<lparr>l_roles := put_row role_key x (l_roles m)\<rparr>)),
     del_role = (\<lambda>m x. (Ok (), m\<lparr>l_roles := drop_row role_key (role_key x) (l_roles m)\<rparr>)),
     del_roles_app = (\<lambda>m i. (Ok (), m\<lparr>l_roles := [x \<leftarrow> l_roles m. r_app_id x \<noteq> i]\<rparr>)),
     sel_token = (\<lambda>m k. Ok (rows_map token_key (l_tokens m) k)),
     sel_tokens_app = (\<lambda>m i. Ok [x \<leftarrow> unique_rows token_key (l_tokens m). tk_app_id x = i]),
     sel_tokens_issuer = (\<lambda>m i j. Ok [x \<leftarrow> unique_rows token_key (l_tokens m). tk_app_id x = i \<and> tk_issuer_id x = j]),
     ins_token = (\<lambda>m x. (Ok (), m\<lparr>l_tokens := put_row token_key x (l_tokens m)\<rparr>)),
     del_token = (\<lambda>m x. (Ok (), m\<lparr>l_tokens := drop_row token_key (token_key x) (l_tokens m)\<rparr>)),
     del_tokens_app = (\<lambda>m i. (Ok (), m\<lparr>l_tokens := [x \<leftarrow> l_tokens m. tk_app_id x \<noteq> i]\<rparr>)),
     sel_user = (\<lambda>m i. Ok (rows_map u_id (l_users m) i)),
     sel_users_name = (\<lambda>m n. Ok [x \<leftarrow> unique_rows u_id (l_users m). u_name x = n]),
     sel_users_auth = (\<lambda>m n. Ok [x \<leftarrow> unique_rows u_id (l_users m). u_auth_identifier x = n]),
     sel_users = (\<lambda>m. Ok (unique_rows u_id (l_users m))),
     ins_user = (\<lambda>m x. (Ok (), m\<lparr>l_users := put_row u_id x (l_users m)\<rparr>)),
     upd_user_name = (\<lambda>m i n. (Ok (), change_user i (u_name_update (\<lambda>_. n)) m)),
     upd_user_role = (\<lambda>m i r. (Ok (), change_user i (u_global_role_update (\<lambda>_. r)) m)),
     upd_user_quota = (\<lambda>m i q. (Ok (), change_user i (u_quota_update (\<lambda>_. q)) m))\<rparr>"

lemma rows_map_filter:
  "(\<And>x. P x \<longleftrightarrow> Q (key x)) \<Longrightarrow> rows_map key (filter P rs) k = (if Q k then rows_map key rs k else None)"
  by (induction rs) (auto simp: rows_map_def)

lemma mem_admin_sel:
  "sel_app mem_admin_cql = (\<lambda>m i. Ok (rows_map a_id (l_apps m) i))"
  "sel_apps_owner mem_admin_cql = (\<lambda>m i. Ok [x \<leftarrow> unique_rows a_id (l_apps m). a_owner_id x = i])"
  "ins_app mem_admin_cql = (\<lambda>m x. (Ok (), m\<lparr>l_apps := put_row a_id x (l_apps m)\<rparr>))"
  "del_app mem_admin_cql = (\<lambda>m x. (Ok (), m\<lparr>l_apps := drop_row a_id (a_id x) (l_apps m)\<rparr>))"
  "upd_app_quota mem_admin_cql = (\<lambda>m i q. (Ok (), case rows_map a_id (l_apps m) i of None \<Rightarrow> m
       | Some x \<Rightarrow> m\<lparr>l_apps := put_row a_id (x\<lparr>a_quota := q\<rparr>) (l_apps m)\<rparr>))"
  "sel_member mem_admin_cql = (\<lambda>m k. Ok (rows_map member_key (l_members m) k))"
  "sel_members_app mem_admin_cql = (\<lambda>m i. Ok [x \<leftarrow> unique_rows member_key (l_members m). am_app_id x = i])"
  "sel_members_user mem_admin_cql = (\<lambda>m i. Ok [x \<leftarrow> unique_rows member_key (l_members m). am_member_id x = i])"
  "put_member mem_admin_cql = (\<lambda>m x. (Ok (), m\<lparr>l_members := put_row member_key x (l_members m)\<rparr>))"
  "del_member mem_admin_cql = (\<lambda>m x. (Ok (), m\<lparr>l_members := drop_row member_key (member_key x) (l_members m)\<rparr>))"
  "del_members_app mem_admin_cql = (\<lambda>m i. (Ok (), m\<lparr>l_members := [x \<leftarrow> l_members m. am_app_id x \<noteq> i]\<rparr>))"
  "sel_role mem_admin_cql = (\<lambda>m k. Ok (rows_map role_key (l_roles m) k))"
  "sel_roles_app mem_admin_cql = (\<lambda>m i. Ok [x \<leftarrow> unique_rows role_key (l_roles m). r_app_id x = i])"
  "put_role mem_admin_cql = (\<lambda>m x. (Ok (), m\<lparr>l_roles := put_row role_key x (l_roles m)\<rparr>))"
  "del_role mem_admin_cql = (\<lambda>m x. (Ok (), m\<lparr>l_roles := drop_row role_key (role_key x) (l_roles m)\<rparr>))"
  "del_roles_app mem_admin_cql = (\<lambda>m i. (Ok (), m\<lparr>l_roles := [x \<leftarrow> l_roles m. r_app_id x \<noteq> i]\<rparr>))"
  "sel_token mem_admin_cql = (\<lambda>m k. Ok (rows_map token_key (l_tokens m) k))"
  "sel_tokens_app mem_admin_cql = (\<lambda>m i. Ok [x \<leftarrow> unique_rows token_key (l_tokens m). tk_app_id x = i])"
  "sel_tokens_issuer mem_admin_cql = (\<lambda>m i j. Ok [x \<leftarrow> unique_rows token_key (l_tokens m). tk_app_id x = i \<and> tk_issuer_id x = j])"
  "ins_token mem_admin_cql = (\<lambda>m x. (Ok (), m\<lparr>l_tokens := put_row token_key x (l_tokens m)\<rparr>))"
  "del_token mem_admin_cql = (\<lambda>m x. (Ok (), m\<lparr>l_tokens := drop_row token_key (token_key x) (l_tokens m)\<rparr>))"
  "del_tokens_app mem_admin_cql = (\<lambda>m i. (Ok (), m\<lparr>l_tokens := [x \<leftarrow> l_tokens m. tk_app_id x \<noteq> i]\<rparr>))"
  "sel_user mem_admin_cql = (\<lambda>m i. Ok (rows_map u_id (l_users m) i))"
  "sel_users_name mem_admin_cql = (\<lambda>m n. Ok [x \<leftarrow> unique_rows u_id (l_users m). u_name x = n])"
  "sel_users_auth mem_admin_cql = (\<lambda>m n. Ok [x \<leftarrow> unique_rows u_id (l_users m). u_auth_identifier x = n])"
  "sel_users mem_admin_cql = (\<lambda>m. Ok (unique_rows u_id (l_users m)))"
  "ins_user mem_admin_cql = (\<lambda>m x. (Ok (), m\<lparr>l_users := put_row u_id x (l_users m)\<rparr>))"
  "upd_user_name mem_admin_cql = (\<lambda>m i n. (Ok (), change_user i (u_name_update (\<lambda>_. n)) m))"
  "upd_user_role mem_admin_cql = (\<lambda>m i r. (Ok (), change_user i (u_global_role_update (\<lambda>_. r)) m))"
  "upd_user_quota mem_admin_cql = (\<lambda>m i q. (Ok (), change_user i (u_quota_update (\<lambda>_. q)) m))"
  by (simp_all add: mem_admin_cql_def)

lemma rows_map_drop_app:
  "(\<And>x. fst (key x) = part x) \<Longrightarrow> rows_map key [x \<leftarrow> rs. part x \<noteq> i] = drop_app i (rows_map key rs)"
  using rows_map_filter [of "\<lambda>x. part x \<noteq> i" "\<lambda>k. fst k \<noteq> i" key rs] by (auto simp: drop_app_def fun_eq_iff)

lemmas mem_admin_simps = mem_admin_sel mem_admin_view_def rows_map_put rows_map_drop after_write_def rows_map_drop_app
  set_unique_rows distinct_unique_rows distinct_map_filter_rows

lemma fst_keys [simp]:
  "fst (member_key m) = am_app_id m" "fst (role_key x) = r_app_id x" "fst (token_key t) = tk_app_id t"
  by (simp_all add: member_key_def role_key_def token_key_def)

interpretation mem_admin: admin_service mem_admin_cql mem_admin_view
proof
  fix db db' :: mem_admin and i q r app
  assume "upd_app_quota mem_admin_cql db i q = (r, db')" "v_apps (mem_admin_view db) i = Some app"
  then show "after_write (mem_admin_view db)
      ((mem_admin_view db)\<lparr>v_apps := (v_apps (mem_admin_view db))(i \<mapsto> app\<lparr>a_quota := q\<rparr>)\<rparr>) r (mem_admin_view db')"
    using rows_map_keyed [of a_id "l_apps db" i app] by (auto simp: mem_admin_simps)
qed (auto simp: mem_admin_simps dest: rows_map_keyed)

interpretation mem_buckets: bucket_statements mem_cql mem_view
proof
  fix db db' :: mem_db and bk q r b
  assume "upd_bucket_quota mem_cql db bk q = (r, db')" "t_buckets (mem_view db) bk = Some b"
  then show "after_write (mem_view db)
      ((mem_view db)\<lparr>t_buckets := (t_buckets (mem_view db))(bk \<mapsto> b\<lparr>b_quota := q\<rparr>)\<rparr>) r (mem_view db')"
    using rows_map_keyed [of bucket_key "m_buckets db" bk b]
    by (auto simp: mem_simps after_write_def bucket_key_def)
qed (auto simp: mem_simps after_write_def set_unique_rows distinct_unique_rows distinct_map_filter_rows)

end
