(* ===== verification/Dashboard.thy ===== *)
theory Dashboard
  imports App_Access File_Listing
begin

section \<open>The dashboard\<close>

text \<open>
  The services of \<^verbatim>\<open>dashboard/src/public/service\<close>: applications, buckets, roles, tokens and users, with
  the transfer objects of \<^verbatim>\<open>data/src/dto/entity.rs\<close> they answer with, and the validation of the routes.
  The state holds the tables of the files and the tables of the applications (no statement touches
  both) and the packets written to the control network. What a request draws from outside, a fresh
  UUID, the time, and what the libraries for tokens and CBOR compute, is the environment.
\<close>

subsection \<open>Transfer objects\<close>

record AppDto =
  ad_id :: uuid
  ad_owner_id :: uuid
  ad_name :: string
  ad_quota :: i64
  ad_created :: timestamp
  ad_last_modified :: timestamp

definition app_dto_from :: "App \<Rightarrow> AppDto" where
  "app_dto_from v = \<lparr>ad_id = a_id v, ad_owner_id = a_owner_id v, ad_name = a_name v, ad_quota = a_quota v,
     ad_created = a_created v, ad_last_modified = a_last_modified v\<rparr>"

record MemberDto =
  md_app_id :: uuid
  md_member_id :: uuid
  md_member_roles :: "string list"

definition unwrap_list :: "'a list option \<Rightarrow> 'a list" where
  "unwrap_list o' = (case o' of None \<Rightarrow> [] | Some xs \<Rightarrow> xs)"

definition member_dto_from :: "AppMember \<Rightarrow> MemberDto" where
  "member_dto_from v = \<lparr>md_app_id = am_app_id v, md_member_id = am_member_id v,
     md_member_roles = unwrap_list (am_member_roles v)\<rparr>"

record MemberedApp =
  ma_app :: AppDto
  ma_member :: MemberDto

record AppList =
  al_owned :: "AppDto list"
  al_member_of :: "MemberedApp list"

record UploadSession =
  us_app_id :: uuid
  us_bucket_id :: uuid
  us_path :: string
  us_size :: u64
  us_durable :: bool
  us_last_access :: timestamp

definition upload_session_from :: "BucketUploadSession \<Rightarrow> UploadSession" where
  "upload_session_from v = \<lparr>us_app_id = s_app_id v, us_bucket_id = s_bucket v, us_path = s_path v,
     us_size = as_u64 (s_size v), us_durable = s_durable v, us_last_access = s_last_access v\<rparr>"

record ScopedPermission =
  sp_bucket_id :: uuid
  sp_allowance :: u64

record UserRoleDto =
  rd_app_id :: uuid
  rd_name :: string
  rd_scopes :: "ScopedPermission list"
  rd_created :: timestamp
  rd_last_modified :: timestamp

definition role_dto_from :: "UserRole \<Rightarrow> UserRoleDto" where
  "role_dto_from v = \<lparr>rd_app_id = r_app_id v, rd_name = r_name v,
     rd_scopes = map (\<lambda>p. \<lparr>sp_bucket_id = fst p, sp_allowance = as_u64 (snd p)\<rparr>) (unwrap_list (r_scopes v)),
     rd_created = r_created v, rd_last_modified = r_last_modified v\<rparr>"

record AppTokenDTO =
  td_created :: timestamp
  td_last_modified :: timestamp
  td_issuer_id :: uuid
  td_name :: string

definition token_dto_from :: "AppToken \<Rightarrow> AppTokenDTO" where
  "token_dto_from v = \<lparr>td_created = tk_created v, td_last_modified = tk_last_modified v,
     td_issuer_id = tk_issuer_id v, td_name = tk_name v\<rparr>"

record OwnUserInfo =
  ou_id :: uuid
  ou_name :: string
  ou_global_role :: int
  ou_created :: timestamp
  ou_last_modified :: timestamp
  ou_quota :: i64

definition own_user_info_from :: "User \<Rightarrow> OwnUserInfo" where
  "own_user_info_from v = \<lparr>ou_id = u_id v, ou_name = u_name v, ou_global_role = u_global_role v,
     ou_created = u_created v, ou_last_modified = u_last_modified v, ou_quota = u_quota v\<rparr>"

subsection \<open>Tokens\<close>

record AppTokenData =
  at_app_id :: uuid
  at_issuer_id :: uuid
  at_name :: string
  at_nonce :: uuid
  at_perms :: "AppTokenPermit list"

definition permit_from :: "ScopedPermission \<Rightarrow> AppTokenPermit" where
  "permit_from v = \<lparr>permit_bucket_id = sp_bucket_id v, permit_allowance = sp_allowance v\<rparr>"

record ClaimKey =
  ck_app_id :: uuid
  ck_issuer_id :: uuid
  ck_name :: string
  ck_nonce :: uuid

definition claim_key_from :: "AppTokenData \<Rightarrow> ClaimKey" where
  "claim_key_from v = \<lparr>ck_app_id = at_app_id v, ck_issuer_id = at_issuer_id v, ck_name = at_name v,
     ck_nonce = at_nonce v\<rparr>"

record Claims =
  cl_sub :: string
  cl_exp :: u64

text \<open>The libraries: \<open>jt_json\<close> and \<open>jt_parse\<close> for \<open>serde_json\<close>, \<open>jt_encode\<close> and \<open>jt_decode\<close> for
  \<open>jsonwebtoken\<close> with the configured secret; decoding checks the expiry against the clock.\<close>

record AccessTokenJwtService =
  jt_validity :: u64
  jt_json :: "AppTokenData \<Rightarrow> string option"
  jt_parse :: "string \<Rightarrow> AppTokenData option"
  jt_encode :: "Claims \<Rightarrow> string option"
  jt_decode :: "u64 \<Rightarrow> string \<Rightarrow> Claims option"

definition generate_token :: "AccessTokenJwtService \<Rightarrow> u64 \<Rightarrow> AppTokenData \<Rightarrow> string node_result" where
  "generate_token jwt secs token_data =
     (case jt_json jwt token_data of
        None \<Rightarrow> Err InternalError
      | Some sub \<Rightarrow>
          (case jt_encode jwt \<lparr>cl_sub = sub, cl_exp = secs + jt_validity jwt\<rparr> of
             None \<Rightarrow> Err InternalError
           | Some token \<Rightarrow> Ok token))"

definition verify_token :: "AccessTokenJwtService \<Rightarrow> u64 \<Rightarrow> string \<Rightarrow> AppTokenData option" where
  "verify_token jwt secs token =
     (case jt_decode jwt secs token of None \<Rightarrow> None | Some claims \<Rightarrow> jt_parse jwt (cl_sub claims))"

text \<open>What the libraries document: text written by \<open>serde_json\<close> reads back, and a token signed with the secret
  decodes to its claims until it expires.\<close>

locale token_library =
  fixes jwt :: AccessTokenJwtService
  assumes json_back: "jt_json jwt d = Some j \<Longrightarrow> jt_parse jwt j = Some d"
    and decode_back: "jt_encode jwt claims = Some token \<Longrightarrow> secs \<le> cl_exp claims \<Longrightarrow> jt_decode jwt secs token = Some claims"
begin

lemma verify_generated:
  "generate_token jwt issued d = Ok token \<Longrightarrow> secs \<le> issued + jt_validity jwt \<Longrightarrow> verify_token jwt secs token = Some d"
  by (auto simp: generate_token_def verify_token_def json_back decode_back split: option.splits)

end

text \<open>An instance: fields of fixed width, the number of permits in front and the name at the end.\<close>

definition text_of :: "u8 list \<Rightarrow> string" where
  "text_of bs = map (\<lambda>b. char_of (unat b)) bs"

definition bytes_of :: "string \<Rightarrow> u8 list" where
  "bytes_of cs = map (\<lambda>ch. of_nat (of_char ch)) cs"

lemma u8_below [simp]: "unat (b :: u8) mod 256 = unat b"
  using unsigned_less [of b, where ?'a = nat] by simp

lemma bytes_of_text [simp]: "bytes_of (text_of bs) = bs"
  by (simp add: bytes_of_def text_of_def o_def map_idI)

lemma length_text_of [simp]: "length (text_of bs) = length bs"
  by (simp add: text_of_def)

definition permit_text :: "AppTokenPermit \<Rightarrow> string" where
  "permit_text p = text_of (to_be_bytes (permit_bucket_id p) @ to_be_bytes (permit_allowance p))"

definition text_permit :: "string \<Rightarrow> AppTokenPermit" where
  "text_permit cs = \<lparr>permit_bucket_id = from_be_bytes (take 16 (bytes_of cs)), permit_allowance = from_be_bytes (drop 16 (bytes_of cs))\<rparr>"

fun text_permits :: "nat \<Rightarrow> string \<Rightarrow> AppTokenPermit list" where
  "text_permits 0 cs = []"
| "text_permits (Suc n) cs = text_permit (take 24 cs) # text_permits n (drop 24 cs)"

definition token_text :: "AppTokenData \<Rightarrow> string" where
  "token_text d = replicate (length (at_perms d)) (CHR ''P'') @ ''.'' @
     text_of (to_be_bytes (at_app_id d) @ to_be_bytes (at_issuer_id d) @ to_be_bytes (at_nonce d)) @
     concat (map permit_text (at_perms d)) @ at_name d"

definition text_token :: "string \<Rightarrow> AppTokenData" where
  "text_token cs =
     (let n = length (takeWhile (\<lambda>ch. ch = CHR ''P'') cs); bs = bytes_of (take 48 (drop (Suc n) cs)); rest = drop (n + 49) cs
      in \<lparr>at_app_id = from_be_bytes (take 16 bs), at_issuer_id = from_be_bytes (take 16 (drop 16 bs)), at_name = drop (24 * n) rest,
          at_nonce = from_be_bytes (drop 32 bs), at_perms = text_permits n rest\<rparr>)"

definition plain_jwt :: AccessTokenJwtService where
  "plain_jwt = \<lparr>jt_validity = 3600, jt_json = (\<lambda>d. Some (token_text d)), jt_parse = (\<lambda>j. Some (text_token j)),
     jt_encode = (\<lambda>claims. Some (text_of (to_be_bytes (cl_exp claims)) @ cl_sub claims)),
     jt_decode = (\<lambda>secs token. let expiry = from_be_bytes (bytes_of (take 8 token)) in
       if secs \<le> expiry then Some \<lparr>cl_sub = drop 8 token, cl_exp = expiry\<rparr> else None)\<rparr>"

lemma bytes_of_simps: "bytes_of (take n cs) = take n (bytes_of cs)" "bytes_of (cs @ ds) = bytes_of cs @ bytes_of ds"
  by (simp_all add: bytes_of_def take_map)

lemma length_permit_text [simp]: "length (permit_text p) = 24"
  by (simp add: permit_text_def)

lemma text_permit_back [simp]: "text_permit (permit_text p) = p"
  by (simp add: text_permit_def permit_text_def from_to_be_bytes)

lemma text_permits_back: "text_permits (length ps) (concat (map permit_text ps) @ cs) = ps"
  by (induction ps) simp_all

lemma length_permits_text: "length (concat (map permit_text ps)) = 24 * length ps"
  by (induction ps) simp_all

lemma counted_permits: "takeWhile (\<lambda>ch. ch = CHR ''P'') (replicate n (CHR ''P'') @ CHR ''.'' # cs) = replicate n (CHR ''P'')"
  by (induction n) simp_all

lemma text_token_back: "text_token (token_text d) = d"
proof -
  define n where "n = length (at_perms d)"
  define head where "head = text_of (to_be_bytes (at_app_id d) @ to_be_bytes (at_issuer_id d) @ to_be_bytes (at_nonce d))"
  define rest where "rest = concat (map permit_text (at_perms d)) @ at_name d"
  have d: "token_text d = replicate n (CHR ''P'') @ CHR ''.'' # head @ rest"
    by (simp add: token_text_def n_def head_def rest_def)
  have n: "length (takeWhile (\<lambda>ch. ch = CHR ''P'') (token_text d)) = n"
    by (simp add: d counted_permits)
  have "length head = 48" by (simp add: head_def)
  then have parts: "take 48 (drop (Suc n) (token_text d)) = head" "drop (n + 49) (token_text d) = rest" by (simp_all add: d)
  have fields: "text_permits n rest = at_perms d" "drop (24 * n) rest = at_name d"
    by (simp_all add: n_def rest_def text_permits_back length_permits_text)
  show ?thesis
    unfolding text_token_def Let_def n parts fields by (simp add: head_def from_to_be_bytes)
qed

interpretation plain: token_library plain_jwt
  by unfold_locales (auto simp: plain_jwt_def text_token_back from_to_be_bytes Let_def bytes_of_simps)

subsection \<open>State and environment\<close>

datatype MGPPPacket = InvalidateCache u32 "u8 list"

datatype CacheId = ValidateNonce | NodeStorageMap

fun cache_id_u8 :: "CacheId \<Rightarrow> u8" where
  "cache_id_u8 ValidateNonce = 0"
| "cache_id_u8 NodeStorageMap = 1"

record ('f, 'a) dash_env =
  de_cql :: "'f cql"
  de_admin :: "'a admin_cql"
  de_new_v4 :: uuid
  de_now :: timestamp
  de_secs :: u64
  de_jwt :: AccessTokenJwtService
  de_to_vec :: "ClaimKey \<Rightarrow> u8 list"
  de_try_parse :: "string \<Rightarrow> uuid option"
  de_write_packet :: "MGPPPacket \<Rightarrow> (unit, ProtocolError) result"

record ('f, 'a) dash_state =
  ds_files :: 'f
  ds_admin :: 'a
  ds_sent :: "MGPPPacket list"

type_synonym ('x, 'f, 'a) dash = "('f, 'a) dash_state \<Rightarrow> 'x node_result \<times> ('f, 'a) dash_state"

definition dash_then :: "('x, 'f, 'a) dash \<Rightarrow> ('x \<Rightarrow> ('y, 'f, 'a) dash) \<Rightarrow> ('y, 'f, 'a) dash" where
  "dash_then m k s = (case m s of (Err e, s1) \<Rightarrow> (Err e, s1) | (Ok x, s1) \<Rightarrow> k x s1)"

definition respond :: "'x node_result \<Rightarrow> ('x, 'f, 'a) dash" where
  "respond r s = (r, s)"

definition read_files :: "('f \<Rightarrow> 'x data_result) \<Rightarrow> ('x, 'f, 'a) dash" where
  "read_files q s = (map_err node_from_data (q (ds_files s)), s)"

definition read_admin :: "('a \<Rightarrow> 'x data_result) \<Rightarrow> ('x, 'f, 'a) dash" where
  "read_admin q s = (map_err node_from_data (q (ds_admin s)), s)"

definition write_files :: "('f \<Rightarrow> 'x data_result \<times> 'f) \<Rightarrow> ('x, 'f, 'a) dash" where
  "write_files u s = (let (r, db) = u (ds_files s) in (map_err node_from_data r, s\<lparr>ds_files := db\<rparr>))"

definition write_admin :: "('a \<Rightarrow> 'x data_result \<times> 'a) \<Rightarrow> ('x, 'f, 'a) dash" where
  "write_admin u s = (let (r, db) = u (ds_admin s) in (map_err node_from_data r, s\<lparr>ds_admin := db\<rparr>))"

text \<open>The messages of a protocol error are its display strings.\<close>

fun protocol_error_message :: "ProtocolError \<Rightarrow> string" where
  "protocol_error_message ProtoShuttingDown = ''Stream is closing''"
| "protocol_error_message ProtoConnectionError = ''Connection error''"
| "protocol_error_message AuthenticationFailed = ''Authentication failed''"
| "protocol_error_message WriteError = ''Failed to write packet into the stream''"
| "protocol_error_message InvalidFormat = ''Invalid packet format''"
| "protocol_error_message SizeMismatch = ''Unexpected packet size''"
| "protocol_error_message ReadError = ''Failed to read packet from stream''"
| "protocol_error_message ProtoUuid = ''Uuid error occurred''"
| "protocol_error_message Ambiguous = ''An error occurred''"
| "protocol_error_message (ProtoCustom m) = ''An error occurred '' @ m"

definition node_from_protocol :: "ProtocolError \<Rightarrow> NodeClientError" where
  "node_from_protocol e = NodeProtocolError (protocol_error_message e)"

definition write_packet :: "('f, 'a) dash_env \<Rightarrow> MGPPPacket \<Rightarrow> (unit, 'f, 'a) dash" where
  "write_packet env p s =
     (case de_write_packet env p of
        Err e \<Rightarrow> (Err (node_from_protocol e), s)
      | Ok _ \<Rightarrow> (Ok (), s\<lparr>ds_sent := ds_sent s @ [p]\<rparr>))"

subsection \<open>Permissions\<close>

fun map_ok :: "('x \<Rightarrow> 'y) \<Rightarrow> ('x, 'e) result \<Rightarrow> ('y, 'e) result" where
  "map_ok f (Ok x) = Ok (f x)"
| "map_ok f (Err e) = Err e"

definition require ::
    "('f, 'a) dash_env \<Rightarrow> User \<Rightarrow> App \<Rightarrow> u64 \<Rightarrow> PermCheckScope \<Rightarrow> (unit, 'f, 'a) dash" where
  "require env user app requested scope s =
     (has_app_permission (u_id user) (u_global_role user) (a_owner_id app) requested scope
        (map_ok am_member_roles (get_app_member (de_admin env) (ds_admin s) (a_id app) (u_id user)))
        (map_ok (map (\<lambda>x. (r_name x, r_scopes x))) (get_app_roles (de_admin env) (ds_admin s) (a_id app))), s)"

definition app_of :: "('f, 'a) dash_env \<Rightarrow> uuid \<Rightarrow> (App, 'f, 'a) dash" where
  "app_of env i = read_admin (\<lambda>db. get_app_by_id (de_admin env) db i)"

subsection \<open>Applications\<close>

text \<open>\<open>sum\<close> on an iterator of \<open>i64\<close> wraps around.\<close>

definition sum_i64 :: "i64 list \<Rightarrow> i64" where
  "sum_i64 xs = foldl i64_add 0 xs"

definition get_user_used_quota :: "('f, 'a) dash_env \<Rightarrow> User \<Rightarrow> (i64, 'f, 'a) dash" where
  "get_user_used_quota env user =
     read_admin (\<lambda>db. map_ok (\<lambda>apps. sum_i64 (map a_quota apps)) (get_apps_by_owner (de_admin env) db (u_id user)))"

definition get_user_used_app_quota :: "('f, 'a) dash_env \<Rightarrow> App \<Rightarrow> (i64, 'f, 'a) dash" where
  "get_user_used_app_quota env app =
     read_files (\<lambda>db. map_ok (\<lambda>bs. sum_i64 (map b_quota bs)) (get_buckets (de_cql env) db (a_id app)))"

record CreateApplicationRequest =
  ca_name :: string
  ca_quota :: u64

definition validate_name :: "string \<Rightarrow> unit node_result" where
  "validate_name name = (if length name < 3 \<or> length name > 64 then Err BadRequest else Ok ())"

definition do_create_app ::
    "('f, 'a) dash_env \<Rightarrow> CreateApplicationRequest \<Rightarrow> User \<Rightarrow> (AppDto, 'f, 'a) dash" where
  "do_create_app env req user =
     dash_then (get_user_used_quota env user) (\<lambda>used_quota.
     if i64_add (as_i64 (ca_quota req)) used_quota > u_quota user
     then respond (Err (InsufficientStorage ''Not enough quota for app creation''))
     else let app = \<lparr>a_id = de_new_v4 env, a_name = ca_name req, a_owner_id = u_id user,
                a_quota = as_i64 (ca_quota req), a_created = de_now env, a_last_modified = de_now env\<rparr>
          in dash_then (write_admin (insert_app (de_admin env) app)) (\<lambda>_.
             respond (Ok (app_dto_from app))))"

definition create_application ::
    "('f, 'a) dash_env \<Rightarrow> CreateApplicationRequest \<Rightarrow> User \<Rightarrow> (AppDto, 'f, 'a) dash" where
  "create_application env req user =
     dash_then (respond (validate_name (ca_name req))) (\<lambda>_. do_create_app env req user)"

definition do_edit_app :: "('f, 'a) dash_env \<Rightarrow> uuid \<Rightarrow> u64 \<Rightarrow> User \<Rightarrow> (unit, 'f, 'a) dash" where
  "do_edit_app env i req_quota user =
     dash_then (get_user_used_quota env user) (\<lambda>used_quota.
     dash_then (app_of env i) (\<lambda>app.
     dash_then (get_user_used_app_quota env app) (\<lambda>app_min.
     if app_min \<ge> as_i64 req_quota then respond (Err BadRequest)
     else if wrap_i64 (i64_add (as_i64 req_quota) used_quota - a_quota app) > u_quota user
     then respond (Err (InsufficientStorage ''Not enough quota for app edition''))
     else write_admin (update_app_quota (de_admin env) (a_id app) (as_i64 req_quota)))))"

definition do_delete_app :: "('f, 'a) dash_env \<Rightarrow> uuid \<Rightarrow> User \<Rightarrow> (unit, 'f, 'a) dash" where
  "do_delete_app env i user =
     dash_then (app_of env i) (\<lambda>app.
     if u_id user \<noteq> a_owner_id app then respond (Err BadAuth)
     else dash_then (read_files (\<lambda>db. maybe_get_first_bucket (de_cql env) db i)) (\<lambda>bucket.
          if bucket \<noteq> None then respond (Err EntityExists)
          else write_admin (delete_app (de_admin env) app)))"

definition do_add_member :: "('f, 'a) dash_env \<Rightarrow> uuid \<Rightarrow> uuid \<Rightarrow> User \<Rightarrow> (unit, 'f, 'a) dash" where
  "do_add_member env member_id app_id user =
     dash_then (app_of env app_id) (\<lambda>app.
     if u_id user \<noteq> a_owner_id app then respond (Err BadAuth)
     else dash_then (read_admin (\<lambda>db. maybe_get_user_from_id (de_admin env) db member_id)) (\<lambda>user.
          if user \<noteq> None then write_admin (insert_app_member (de_admin env) (a_id app) member_id)
          else respond (Err NotFound)))"

definition do_delete_member :: "('f, 'a) dash_env \<Rightarrow> uuid \<Rightarrow> uuid \<Rightarrow> User \<Rightarrow> (unit, 'f, 'a) dash" where
  "do_delete_member env member_id app_id user =
     dash_then (app_of env app_id) (\<lambda>app.
     if u_id user \<noteq> a_owner_id app then respond (Err BadAuth)
     else dash_then (read_admin (\<lambda>db. maybe_get_app_member (de_admin env) db (a_id app) member_id)) (\<lambda>member.
          case member of
            Some member \<Rightarrow> write_admin (delete_app_member (de_admin env) member)
          | None \<Rightarrow> respond (Err NotFound)))"

fun membered_apps :: "('f, 'a) dash_env \<Rightarrow> MemberByUser list \<Rightarrow> (MemberedApp list, 'f, 'a) dash" where
  "membered_apps env [] = respond (Ok [])"
| "membered_apps env (member # members) =
     dash_then (app_of env (am_app_id member)) (\<lambda>app.
     dash_then (membered_apps env members) (\<lambda>rest.
     respond (Ok (\<lparr>ma_app = app_dto_from app, ma_member = member_dto_from member\<rparr> # rest))))"

definition do_list_apps :: "('f, 'a) dash_env \<Rightarrow> User \<Rightarrow> (AppList, 'f, 'a) dash" where
  "do_list_apps env user =
     dash_then (read_admin (\<lambda>db. get_apps_by_owner (de_admin env) db (u_id user))) (\<lambda>owned_apps.
     dash_then (read_admin (\<lambda>db. get_members_by_id (de_admin env) db (u_id user))) (\<lambda>members.
     dash_then (membered_apps env members) (\<lambda>member_of.
     respond (Ok \<lparr>al_owned = map app_dto_from owned_apps, al_member_of = member_of\<rparr>))))"

definition do_list_buckets :: "('f, 'a) dash_env \<Rightarrow> uuid \<Rightarrow> User \<Rightarrow> (BucketDto list, 'f, 'a) dash" where
  "do_list_buckets env app_id user =
     dash_then (app_of env app_id) (\<lambda>app.
     dash_then (require env user app NO_ALLOWANCE ScopeApplication) (\<lambda>_.
     dash_then (read_files (\<lambda>db. get_buckets (de_cql env) db app_id)) (\<lambda>buckets.
     respond (Ok (map bucket_dto_from buckets)))))"

definition do_list_members :: "('f, 'a) dash_env \<Rightarrow> uuid \<Rightarrow> User \<Rightarrow> (MemberDto list, 'f, 'a) dash" where
  "do_list_members env app_id user =
     dash_then (app_of env app_id) (\<lambda>app.
     dash_then (require env user app NO_ALLOWANCE ScopeApplication) (\<lambda>_.
     dash_then (read_admin (\<lambda>db. get_app_members (de_admin env) db app_id)) (\<lambda>members.
     respond (Ok (map member_dto_from members)))))"

subsection \<open>Buckets\<close>

record CreateBucketRequest =
  cb_name :: string
  cb_app_id :: uuid
  cb_quota :: u64
  cb_atomic_upload :: bool

definition do_create_bucket ::
    "('f, 'a) dash_env \<Rightarrow> CreateBucketRequest \<Rightarrow> User \<Rightarrow> (BucketDto, 'f, 'a) dash" where
  "do_create_bucket env req user =
     dash_then (app_of env (cb_app_id req)) (\<lambda>app.
     dash_then (require env user app CREATE_BUCKET_ALLOWANCE ScopeApplication) (\<lambda>_.
     dash_then (read_files (\<lambda>db. get_buckets (de_cql env) db (cb_app_id req))) (\<lambda>buckets.
     let used = foldl (\<lambda>n bucket. i64_add n (b_quota bucket)) 0 buckets in
     if i64_add used (as_i64 (cb_quota req)) > a_quota app
     then respond (Err (InsufficientStorage ''Not enough quota to create a bucket''))
     else let bucket = \<lparr>b_app_id = cb_app_id req, b_id = de_new_v4 env, b_name = cb_name req, encrypted = False,
                atomic_upload = cb_atomic_upload req, b_quota = as_i64 (cb_quota req), file_count = 0,
                space_taken = 0, b_created = de_now env, b_last_modified = de_now env\<rparr>
          in dash_then (write_files (insert_bucket (de_cql env) bucket)) (\<lambda>_.
             respond (Ok (bucket_dto_from bucket))))))"

definition create_bucket ::
    "('f, 'a) dash_env \<Rightarrow> CreateBucketRequest \<Rightarrow> User \<Rightarrow> (BucketDto, 'f, 'a) dash" where
  "create_bucket env req user =
     dash_then (respond (validate_name (cb_name req))) (\<lambda>_. do_create_bucket env req user)"

definition do_delete_bucket :: "('f, 'a) dash_env \<Rightarrow> uuid \<Rightarrow> uuid \<Rightarrow> User \<Rightarrow> (unit, 'f, 'a) dash" where
  "do_delete_bucket env app_id bucket_id user =
     dash_then (read_files (\<lambda>db. get_bucket (de_cql env) db app_id bucket_id)) (\<lambda>bucket.
     dash_then (app_of env app_id) (\<lambda>app.
     dash_then (require env user app DELETE_BUCKET_ALLOWANCE ScopeApplication) (\<lambda>_.
     dash_then (read_files (\<lambda>db. maybe_get_first_file_from_directory (de_cql env) db bucket_id None)) (\<lambda>first_file.
     if first_file \<noteq> None then respond (Err EntityExists)
     else dash_then (read_files (\<lambda>db. maybe_get_first_child_from_directory (de_cql env) db bucket_id None)) (\<lambda>child.
          if child \<noteq> None then respond (Err EntityExists)
          else write_files (delete_bucket (de_cql env) bucket))))))"

definition do_edit_bucket ::
    "('f, 'a) dash_env \<Rightarrow> u64 \<Rightarrow> uuid \<Rightarrow> uuid \<Rightarrow> User \<Rightarrow> (unit, 'f, 'a) dash" where
  "do_edit_bucket env req_quota app_id bucket_id user =
     dash_then (read_files (\<lambda>db. get_bucket (de_cql env) db app_id bucket_id)) (\<lambda>bucket.
     dash_then (app_of env app_id) (\<lambda>app.
     dash_then (require env user app ALTER_BUCKET_ALLOWANCE ScopeApplication) (\<lambda>_.
     dash_then (read_files (\<lambda>db. get_upload_sessions (de_cql env) db app_id bucket_id)) (\<lambda>reservations.
     let reserved = sum_i64 (map s_size reservations) in
     dash_then (get_user_used_app_quota env app) (\<lambda>used.
     let app_used = wrap_i64 (used - b_quota bucket) in
     if i64_add app_used (as_i64 req_quota) > a_quota app
     then respond (Err (InsufficientStorage ''Too little quota to edit bucket''))
     else if as_i64 req_quota < i64_add (space_taken bucket) reserved
     then respond (Err (InsufficientStorage ''Requested new quota wouldn't fit the current buckets contents''))
     else write_files (update_bucket_quota (de_cql env) (bucket\<lparr>b_quota := as_i64 req_quota\<rparr>)))))))"

definition do_get_upload_sessions ::
    "('f, 'a) dash_env \<Rightarrow> uuid \<Rightarrow> uuid \<Rightarrow> User \<Rightarrow> (UploadSession list, 'f, 'a) dash" where
  "do_get_upload_sessions env bucket_id app_id user =
     dash_then (read_files (\<lambda>db. get_bucket (de_cql env) db app_id bucket_id)) (\<lambda>_.
     dash_then (app_of env app_id) (\<lambda>app.
     dash_then (require env user app NO_ALLOWANCE ScopeApplication) (\<lambda>_.
     dash_then (read_files (\<lambda>db. get_upload_sessions (de_cql env) db app_id bucket_id)) (\<lambda>sessions.
     respond (Ok (map upload_session_from sessions))))))"

subsection \<open>Roles\<close>

definition do_get_roles :: "('f, 'a) dash_env \<Rightarrow> uuid \<Rightarrow> User \<Rightarrow> (UserRoleDto list, 'f, 'a) dash" where
  "do_get_roles env i user =
     dash_then (app_of env i) (\<lambda>app.
     dash_then (require env user app NO_ALLOWANCE ScopeApplication) (\<lambda>_.
     dash_then (read_admin (\<lambda>db. get_app_roles (de_admin env) db i)) (\<lambda>roles.
     respond (Ok (map role_dto_from roles)))))"

definition do_create_role :: "('f, 'a) dash_env \<Rightarrow> uuid \<Rightarrow> string \<Rightarrow> User \<Rightarrow> (unit, 'f, 'a) dash" where
  "do_create_role env app_id name user =
     dash_then (app_of env app_id) (\<lambda>app.
     dash_then (require env user app MANAGE_ROLES_ALLOWANCE ScopeApplication) (\<lambda>_.
     write_admin (insert_app_role (de_admin env) \<lparr>r_app_id = app_id, r_name = name, r_scopes = None,
       r_created = de_now env, r_last_modified = de_now env\<rparr>)))"

definition do_delete_role :: "('f, 'a) dash_env \<Rightarrow> uuid \<Rightarrow> string \<Rightarrow> User \<Rightarrow> (unit, 'f, 'a) dash" where
  "do_delete_role env app_id name user =
     dash_then (app_of env app_id) (\<lambda>app.
     dash_then (require env user app MANAGE_ROLES_ALLOWANCE ScopeApplication) (\<lambda>_.
     dash_then (read_admin (\<lambda>db. get_app_role (de_admin env) db app_id name)) (\<lambda>role.
     write_admin (delete_app_role (de_admin env) role))))"

definition do_patch_role ::
    "('f, 'a) dash_env \<Rightarrow> uuid \<Rightarrow> string \<Rightarrow> User \<Rightarrow> ScopedPermission list \<Rightarrow> (unit, 'f, 'a) dash" where
  "do_patch_role env app_id name user perms =
     dash_then (app_of env app_id) (\<lambda>app.
     dash_then (require env user app MANAGE_ROLES_ALLOWANCE ScopeApplication) (\<lambda>_.
     dash_then (read_admin (\<lambda>db. get_app_role (de_admin env) db app_id name)) (\<lambda>role.
     write_admin (update_app_role (de_admin env) (role\<lparr>r_last_modified := de_now env,
       r_scopes := Some (remdups (map (\<lambda>it. (sp_bucket_id it, as_i64 (sp_allowance it))) perms))\<rparr>)))))"

definition do_patch_member_roles ::
    "('f, 'a) dash_env \<Rightarrow> uuid \<Rightarrow> uuid \<Rightarrow> User \<Rightarrow> string list \<Rightarrow> (unit, 'f, 'a) dash" where
  "do_patch_member_roles env app_id member_id user roles =
     dash_then (app_of env app_id) (\<lambda>app.
     dash_then (require env user app MANAGE_ROLES_ALLOWANCE ScopeApplication) (\<lambda>_.
     dash_then (read_admin (\<lambda>db. map_ok (map r_name) (get_app_roles (de_admin env) db app_id))) (\<lambda>app_roles.
     if \<exists>role \<in> set roles. role \<notin> set app_roles then respond (Err BadRequest)
     else dash_then (read_admin (\<lambda>db. get_app_member (de_admin env) db app_id member_id)) (\<lambda>member.
          write_admin (update_app_member (de_admin env) (member\<lparr>am_member_roles := Some (remdups roles)\<rparr>))))))"

subsection \<open>Tokens of an application\<close>

record TokenIssueRequest =
  ti_app_id :: uuid
  ti_name :: string
  ti_perms :: "ScopedPermission list"

fun require_all ::
    "('f, 'a) dash_env \<Rightarrow> User \<Rightarrow> App \<Rightarrow> ScopedPermission list \<Rightarrow> (unit, 'f, 'a) dash" where
  "require_all env user app [] = respond (Ok ())"
| "require_all env user app (perm # perms) =
     dash_then (require env user app (sp_allowance perm) (ScopeBuckets (sp_bucket_id perm))) (\<lambda>_.
     require_all env user app perms)"

definition do_issue_app_token ::
    "('f, 'a) dash_env \<Rightarrow> TokenIssueRequest \<Rightarrow> User \<Rightarrow> (string, 'f, 'a) dash" where
  "do_issue_app_token env req user =
     dash_then (app_of env (ti_app_id req)) (\<lambda>app.
     dash_then (require_all env user app (ti_perms req)) (\<lambda>_.
     let nonce = de_new_v4 env;
         token = \<lparr>tk_app_id = a_id app, tk_issuer_id = u_id user, tk_name = ti_name req, tk_nonce = nonce,
           tk_created = de_now env, tk_last_modified = de_now env\<rparr>;
         token_data = \<lparr>at_app_id = a_id app, at_issuer_id = u_id user, at_name = ti_name req, at_nonce = nonce,
           at_perms = map permit_from (ti_perms req)\<rparr>
     in dash_then (write_admin (insert_app_token (de_admin env) token)) (\<lambda>_.
        respond (generate_token (de_jwt env) (de_secs env) token_data))))"

definition do_list_tokens ::
    "('f, 'a) dash_env \<Rightarrow> uuid \<Rightarrow> string \<Rightarrow> User \<Rightarrow> (AppTokenDTO list, 'f, 'a) dash" where
  "do_list_tokens env app_id issuer user =
     dash_then (app_of env app_id) (\<lambda>app.
     dash_then (case de_try_parse env issuer of
         Some issuer \<Rightarrow>
           dash_then (require env user app NO_ALLOWANCE ScopeApplication) (\<lambda>_.
           read_admin (\<lambda>db. get_app_tokens_by_issuer (de_admin env) db (a_id app) issuer))
       | None \<Rightarrow>
           dash_then (require env user app LIST_ALL_TOKEN_ALLOWANCE ScopeApplication) (\<lambda>_.
           read_admin (\<lambda>db. get_app_tokens (de_admin env) db (a_id app)))) (\<lambda>tokens.
     respond (Ok (map token_dto_from tokens))))"

definition do_delete_token ::
    "('f, 'a) dash_env \<Rightarrow> uuid \<Rightarrow> uuid \<Rightarrow> string \<Rightarrow> User \<Rightarrow> (unit, 'f, 'a) dash" where
  "do_delete_token env app_id issuer_id name user =
     dash_then (if issuer_id \<noteq> u_id user
                then dash_then (app_of env app_id) (\<lambda>app.
                     require env user app DELETE_ALL_TOKEN_ALLOWANCE ScopeApplication)
                else respond (Ok ())) (\<lambda>_.
     dash_then (read_admin (\<lambda>db. get_app_token (de_admin env) db app_id issuer_id name)) (\<lambda>token.
     dash_then (write_admin (delete_app_token (de_admin env) token)) (\<lambda>_.
     write_packet env (InvalidateCache (ucast (cache_id_u8 ValidateNonce))
       (de_to_vec env \<lparr>ck_app_id = tk_app_id token, ck_issuer_id = tk_issuer_id token, ck_name = tk_name token,
          ck_nonce = tk_nonce token\<rparr>)))))"

subsection \<open>Users\<close>

definition do_get_user_by_id :: "('f, 'a) dash_env \<Rightarrow> uuid \<Rightarrow> (OwnUserInfo option, 'f, 'a) dash" where
  "do_get_user_by_id env i =
     dash_then (read_admin (\<lambda>db. maybe_get_user_from_id (de_admin env) db i)) (\<lambda>user.
     respond (Ok (map_option own_user_info_from user)))"

definition do_get_user_by_name :: "('f, 'a) dash_env \<Rightarrow> string \<Rightarrow> (OwnUserInfo option, 'f, 'a) dash" where
  "do_get_user_by_name env name =
     dash_then (read_admin (\<lambda>db. maybe_get_user_from_name (de_admin env) db name)) (\<lambda>user.
     respond (Ok (map_option own_user_info_from user)))"

end
