(* ===== verification/Dashboard_Rights.thy ===== *)
theory Dashboard_Rights
  imports Dashboard
begin

section \<open>Who may change what\<close>

text \<open>
  The requests of the dashboard that write, who should be allowed each of them (\<open>authorised\<close>, a
  specification on the tables alone), and the two requests for which the code checks nothing. The locale \<open>dashboard_tables\<close> joins the two table services.
\<close>

datatype dash_request =
    CreateApplication CreateApplicationRequest
  | EditApplication uuid u64
  | DeleteApplication uuid
  | AddMember uuid uuid
  | DeleteMember uuid uuid
  | CreateBucketRq CreateBucketRequest
  | DeleteBucketRq uuid uuid
  | EditBucketRq u64 uuid uuid
  | CreateRole uuid string
  | DeleteRole uuid string
  | PatchRole uuid string "ScopedPermission list"
  | PatchMemberRoles uuid uuid "string list"
  | IssueToken TokenIssueRequest
  | DeleteToken uuid uuid string

text \<open>The state after a request, whatever its answer.\<close>

fun after_request :: "('f, 'a) dash_env \<Rightarrow> User \<Rightarrow> dash_request \<Rightarrow> ('f, 'a) dash_state \<Rightarrow> ('f, 'a) dash_state" where
  "after_request env user (CreateApplication req) s = snd (create_application env req user s)"
| "after_request env user (EditApplication i q) s = snd (do_edit_app env i q user s)"
| "after_request env user (DeleteApplication i) s = snd (do_delete_app env i user s)"
| "after_request env user (AddMember m i) s = snd (do_add_member env m i user s)"
| "after_request env user (DeleteMember m i) s = snd (do_delete_member env m i user s)"
| "after_request env user (CreateBucketRq req) s = snd (create_bucket env req user s)"
| "after_request env user (DeleteBucketRq i b) s = snd (do_delete_bucket env i b user s)"
| "after_request env user (EditBucketRq q i b) s = snd (do_edit_bucket env q i b user s)"
| "after_request env user (CreateRole i n) s = snd (do_create_role env i n user s)"
| "after_request env user (DeleteRole i n) s = snd (do_delete_role env i n user s)"
| "after_request env user (PatchRole i n perms) s = snd (do_patch_role env i n user perms s)"
| "after_request env user (PatchMemberRoles i m roles) s = snd (do_patch_member_roles env i m user roles s)"
| "after_request env user (IssueToken req) s = snd (do_issue_app_token env req user s)"
| "after_request env user (DeleteToken i j n) s = snd (do_delete_token env i j n user s)"

subsection \<open>What a user may do\<close>

definition owns :: "admin_tables \<Rightarrow> User \<Rightarrow> uuid \<Rightarrow> bool" where
  "owns t user i \<longleftrightarrow> (\<exists>app. v_apps t i = Some app \<and> a_owner_id app = u_id user)"

definition granted :: "admin_tables \<Rightarrow> User \<Rightarrow> uuid \<Rightarrow> u64 \<Rightarrow> PermCheckScope \<Rightarrow> bool" where
  "granted t user i requested scope \<longleftrightarrow>
     owns t user i \<or> u_global_role user = global_role_i32 RoleAdmin \<or>
     (\<exists>member names name role scopes. v_members t (i, u_id user) = Some member \<and> am_member_roles member = Some names
        \<and> name \<in> set names \<and> v_roles t (i, name) = Some role \<and> r_scopes role = Some scopes
        \<and> (\<exists>permit \<in> set scopes. permit_grants scope requested permit))"

text \<open>Somebody who belongs to an application: its owner, an administrator or a member.\<close>

definition belongs :: "admin_tables \<Rightarrow> User \<Rightarrow> uuid \<Rightarrow> bool" where
  "belongs t user i \<longleftrightarrow>
     owns t user i \<or> u_global_role user = global_role_i32 RoleAdmin \<or> v_members t (i, u_id user) \<noteq> None"

lemma granted_belongs: "granted t user i w scope \<Longrightarrow> belongs t user i"
  by (auto simp: granted_def belongs_def)

text \<open>What each request needs: the quota of an application is its owner's to change, a token is for
  those who belong to the application and hold every right they put into it.\<close>

fun authorised :: "admin_tables \<Rightarrow> User \<Rightarrow> dash_request \<Rightarrow> uuid \<Rightarrow> bool" where
  "authorised t user (CreateApplication req) i \<longleftrightarrow> v_apps t i = None"
| "authorised t user (EditApplication j q) i \<longleftrightarrow> i = j \<and> owns t user i"
| "authorised t user (DeleteApplication j) i \<longleftrightarrow> i = j \<and> owns t user i"
| "authorised t user (AddMember m j) i \<longleftrightarrow> i = j \<and> owns t user i"
| "authorised t user (DeleteMember m j) i \<longleftrightarrow> i = j \<and> owns t user i"
| "authorised t user (CreateBucketRq req) i \<longleftrightarrow>
     i = cb_app_id req \<and> granted t user i CREATE_BUCKET_ALLOWANCE ScopeApplication"
| "authorised t user (DeleteBucketRq j b) i \<longleftrightarrow> i = j \<and> granted t user i DELETE_BUCKET_ALLOWANCE ScopeApplication"
| "authorised t user (EditBucketRq q j b) i \<longleftrightarrow> i = j \<and> granted t user i ALTER_BUCKET_ALLOWANCE ScopeApplication"
| "authorised t user (CreateRole j n) i \<longleftrightarrow> i = j \<and> granted t user i MANAGE_ROLES_ALLOWANCE ScopeApplication"
| "authorised t user (DeleteRole j n) i \<longleftrightarrow> i = j \<and> granted t user i MANAGE_ROLES_ALLOWANCE ScopeApplication"
| "authorised t user (PatchRole j n perms) i \<longleftrightarrow> i = j \<and> granted t user i MANAGE_ROLES_ALLOWANCE ScopeApplication"
| "authorised t user (PatchMemberRoles j m roles) i \<longleftrightarrow>
     i = j \<and> granted t user i MANAGE_ROLES_ALLOWANCE ScopeApplication"
| "authorised t user (IssueToken req) i \<longleftrightarrow> i = ti_app_id req \<and> belongs t user i \<and>
     (\<forall>perm \<in> set (ti_perms req). granted t user i (sp_allowance perm) (ScopeBuckets (sp_bucket_id perm)))"
| "authorised t user (DeleteToken j issuer n) i \<longleftrightarrow>
     i = j \<and> (issuer = u_id user \<or> granted t user i DELETE_ALL_TOKEN_ALLOWANCE ScopeApplication)"

text \<open>The two requests for which the code checks no right: changing a quota, and issuing a token
  without permits.\<close>

fun rights_unchecked :: "dash_request \<Rightarrow> bool" where
  "rights_unchecked (EditApplication j q) \<longleftrightarrow> True"
| "rights_unchecked (IssueToken req) \<longleftrightarrow> ti_perms req = []"
| "rights_unchecked req \<longleftrightarrow> False"

text \<open>Everything the tables hold of one application.\<close>

definition app_rows ::
    "tables \<Rightarrow> admin_tables \<Rightarrow> uuid \<Rightarrow> App option \<times> (uuid \<rightharpoonup> AppMember) \<times> (string \<rightharpoonup> UserRole)
       \<times> (uuid \<times> string \<rightharpoonup> AppToken) \<times> (uuid \<rightharpoonup> Bucket)" where
  "app_rows ft t i = (v_apps t i, (\<lambda>m. v_members t (i, m)), (\<lambda>n. v_roles t (i, n)), (\<lambda>k. v_tokens t (i, k)),
     (\<lambda>b. t_buckets ft (i, b)))"

subsection \<open>Reads change nothing\<close>

lemmas dash_splits = result.splits option.splits if_splits

lemma dash_then_simps [simp]:
  "dash_then (respond r) k s = (case r of Ok x \<Rightarrow> k x s | Err e \<Rightarrow> (Err e, s))"
  "dash_then (read_files q) k s = (case q (ds_files s) of Ok x \<Rightarrow> k x s | Err e \<Rightarrow> (Err (node_from_data e), s))"
  "dash_then (read_admin p) k s = (case p (ds_admin s) of Ok x \<Rightarrow> k x s | Err e \<Rightarrow> (Err (node_from_data e), s))"
  by (auto simp: dash_then_def respond_def read_files_def read_admin_def split: result.splits)

lemma dash_then_assoc: "dash_then (dash_then m k) l s = dash_then m (\<lambda>x. dash_then (k x) l) s"
  by (auto simp: dash_then_def split: result.splits prod.splits)

lemma dash_then_require [simp]:
  "dash_then (require env user app w scope) k s =
     (case fst (require env user app w scope s) of Ok x \<Rightarrow> k x s | Err e \<Rightarrow> (Err e, s))"
  by (simp add: dash_then_def require_def)

lemma map_ok_eq_Ok [simp]: "map_ok f r = Ok y \<longleftrightarrow> (\<exists>x. r = Ok x \<and> y = f x)"
  by (cases r) auto

lemma found_eq_Ok: "found r = Ok x \<longleftrightarrow> r = Ok (Some x)"
  by (cases r) (auto simp: found_def split: option.splits)

lemma fst_bucket_key [simp]: "fst (bucket_key b) = b_app_id b"
  by (simp add: bucket_key_def)

lemma snd_respond [simp]: "snd (respond r s) = s"
  by (simp add: respond_def)

lemma snd_write [simp]:
  "snd (write_files u s) = s\<lparr>ds_files := snd (u (ds_files s))\<rparr>"
  "snd (write_admin v s) = s\<lparr>ds_admin := snd (v (ds_admin s))\<rparr>"
  by (simp_all add: write_files_def write_admin_def split_beta)

lemma snd_then_write [simp]:
  "snd (dash_then (write_files u) (\<lambda>_. respond r) s) = s\<lparr>ds_files := snd (u (ds_files s))\<rparr>"
  "snd (dash_then (write_admin v) (\<lambda>_. respond r) s) = s\<lparr>ds_admin := snd (v (ds_admin s))\<rparr>"
  by (auto simp: dash_then_def write_files_def write_admin_def respond_def split_beta split: result.splits)

lemma snd_write_packet:
  "\<exists>sent. snd (write_packet env p s) = s\<lparr>ds_sent := sent\<rparr>"
proof (cases "de_write_packet env p")
  case (Err e)
  then show ?thesis by (intro exI [of _ "ds_sent s"]) (simp add: write_packet_def)
qed (auto simp: write_packet_def)

lemma require_all_simp [simp]:
  "dash_then (require_all env user app perms) k s =
     (case fst (require_all env user app perms s) of Ok x \<Rightarrow> k x s | Err e \<Rightarrow> (Err e, s))
   \<and> snd (require_all env user app perms s) = s"
proof (induction perms)
  case (Cons p ps)
  then show ?case
    by (auto simp: dash_then_def require_def respond_def split: result.splits prod.splits)
qed (simp add: respond_def dash_then_def)

text \<open>A write to the rows of one application leaves the rows of the others.\<close>

definition admin_only :: "('a \<Rightarrow> admin_tables) \<Rightarrow> uuid \<Rightarrow> 'a \<Rightarrow> 'a \<Rightarrow> bool" where
  "admin_only admin j db db' \<longleftrightarrow> v_users (admin db') = v_users (admin db) \<and>
     (\<forall>i ft. i \<noteq> j \<longrightarrow> app_rows ft (admin db') i = app_rows ft (admin db) i)"

lemma admin_only_trans: "admin_only admin j db db1 \<Longrightarrow> admin_only admin j db1 db2 \<Longrightarrow> admin_only admin j db db2"
  by (simp add: admin_only_def)

lemma admin_only_write:
  assumes "after_write (admin db) t r (admin db')" "v_users t = v_users (admin db)"
    and "\<And>i ft. i \<noteq> j \<Longrightarrow> app_rows ft t i = app_rows ft (admin db) i"
  shows "admin_only admin j db db'"
  using assms by (auto simp: admin_only_def after_write_def split: result.splits)

definition files_only :: "('f \<Rightarrow> tables) \<Rightarrow> uuid \<Rightarrow> 'f \<Rightarrow> 'f \<Rightarrow> bool" where
  "files_only view j db db' \<longleftrightarrow> t_files (view db') = t_files (view db) \<and> t_dirs (view db') = t_dirs (view db) \<and>
     t_sessions (view db') = t_sessions (view db) \<and>
     (\<forall>i b. i \<noteq> j \<longrightarrow> t_buckets (view db') (i, b) = t_buckets (view db) (i, b))"

definition rows_contained ::
    "('f \<Rightarrow> tables) \<Rightarrow> ('a \<Rightarrow> admin_tables) \<Rightarrow> uuid \<Rightarrow> ('f, 'a) dash_state \<Rightarrow> ('f, 'a) dash_state \<Rightarrow> bool" where
  "rows_contained view admin j s s' \<longleftrightarrow>
     files_only view j (ds_files s) (ds_files s') \<and> admin_only admin j (ds_admin s) (ds_admin s')"

lemma rows_contained_admin: "admin_only admin j (ds_admin s) db \<Longrightarrow> rows_contained view admin j s (s\<lparr>ds_admin := db\<rparr>)"
  by (simp add: rows_contained_def files_only_def)

lemma rows_contained_files: "files_only view j (ds_files s) db \<Longrightarrow> rows_contained view admin j s (s\<lparr>ds_files := db\<rparr>)"
  by (simp add: rows_contained_def admin_only_def)

lemma rows_contained_refl [simp]: "rows_contained view admin j s s"
  by (simp add: rows_contained_def admin_only_def files_only_def)

lemma rows_contained_rows:
  "rows_contained view admin j s s' \<Longrightarrow> i = j \<or>
    app_rows (view (ds_files s')) (admin (ds_admin s')) i = app_rows (view (ds_files s)) (admin (ds_admin s)) i"
  by (auto simp: rows_contained_def admin_only_def files_only_def app_rows_def)

lemma rows_contained_sent [simp]: "rows_contained view admin j s (s'\<lparr>ds_sent := sent\<rparr>) \<longleftrightarrow> rows_contained view admin j s s'"
  by (simp add: rows_contained_def)

text \<open>The application a request is about.\<close>

fun target :: "('f, 'a) dash_env \<Rightarrow> dash_request \<Rightarrow> uuid" where
  "target env (CreateApplication req) = de_new_v4 env"
| "target env (EditApplication j q) = j"
| "target env (DeleteApplication j) = j"
| "target env (AddMember m j) = j"
| "target env (DeleteMember m j) = j"
| "target env (CreateBucketRq req) = cb_app_id req"
| "target env (DeleteBucketRq j b) = j"
| "target env (EditBucketRq q j b) = j"
| "target env (CreateRole j n) = j"
| "target env (DeleteRole j n) = j"
| "target env (PatchRole j n perms) = j"
| "target env (PatchMemberRoles j m roles) = j"
| "target env (IssueToken req) = ti_app_id req"
| "target env (DeleteToken j issuer n) = j"

definition in_order ::
    "('f, 'a) dash_env \<Rightarrow> ('f \<Rightarrow> tables) \<Rightarrow> ('a \<Rightarrow> admin_tables) \<Rightarrow> User \<Rightarrow> dash_request \<Rightarrow> ('f, 'a) dash_state \<Rightarrow> bool" where
  "in_order env view admin user req s \<longleftrightarrow>
     (let s' = after_request env user req s in
      s' = s \<or> (rights_unchecked req \<or> authorised (admin (ds_admin s)) user req (target env req))
        \<and> rows_contained view admin (target env req) s s')"

lemma in_orderI:
  "after_request env user req s = s \<Longrightarrow> in_order env view admin user req s"
  "rights_unchecked req \<or> authorised (admin (ds_admin s)) user req (target env req) \<Longrightarrow>
   rows_contained view admin (target env req) s (after_request env user req s) \<Longrightarrow> in_order env view admin user req s"
  by (simp_all add: in_order_def Let_def)

locale dashboard_tables =
    files: bucket_statements "de_cql env" view + apps: admin_service "de_admin env" admin
  for env :: "('f, 'a) dash_env" and view :: "'f \<Rightarrow> tables" and admin :: "'a \<Rightarrow> admin_tables"
begin

lemma stored_app: "get_app_by_id (de_admin env) db i = Ok app \<Longrightarrow> v_apps (admin db) i = Some app \<and> a_id app = i"
  using apps.sel_app_ok [of db i] apps.keyed_apps [of db i]
  by (auto simp: get_app_by_id_def found_eq_Ok)

lemma required_granted:
  assumes app: "v_apps (admin (ds_admin s)) (a_id app) = Some app"
    and ok: "fst (require env user app w scope s) = Ok x"
  shows "granted (admin (ds_admin s)) user (a_id app) w scope"
proof (cases "a_owner_id app = u_id user \<or> u_global_role user = global_role_i32 RoleAdmin")
  case True
  then show ?thesis using app by (auto simp: granted_def owns_def)
next
  case False
  let ?t = "admin (ds_admin s)"
  from ok False obtain member rs names name scopes permit
    where member: "sel_member (de_admin env) (ds_admin s) (a_id app, u_id user) = Ok (Some member)" "Some names = am_member_roles member"
      and rs: "sel_roles_app (de_admin env) (ds_admin s) (a_id app) = Ok rs" "name \<in> set names"
      and row: "map_of (rev (map (\<lambda>x. (r_name x, case r_scopes x of None \<Rightarrow> [] | Some ps \<Rightarrow> ps)) rs)) name = Some scopes"
      and permit: "permit \<in> set scopes" "permit_grants scope w permit"
    by (auto simp: require_def has_app_permission_def get_app_member_def get_app_roles_def found_eq_Ok
        Let_def o_def split: option.splits if_splits)
  from map_of_SomeD [OF row] obtain role where role: "role \<in> set rs" "name = r_name role"
      "scopes = (case r_scopes role of None \<Rightarrow> [] | Some ps \<Rightarrow> ps)" by auto
  have "v_roles ?t (a_id app, name) = Some role"
    using apps.sel_roles_app_ok [OF rs(1)] role(1,2) by (auto simp: role_key_def)
  moreover have "r_scopes role = Some scopes" using permit(1) role(3) by (auto split: option.splits)
  ultimately show ?thesis
    using apps.sel_member_ok [OF member(1)] member(2) [symmetric] rs(2) permit unfolding granted_def by metis
qed

lemma required_all_granted:
  assumes app: "v_apps (admin (ds_admin s)) (a_id app) = Some app"
  shows "fst (require_all env user app perms s) = Ok x \<Longrightarrow> perm \<in> set perms \<Longrightarrow>
    granted (admin (ds_admin s)) user (a_id app) (sp_allowance perm) (ScopeBuckets (sp_bucket_id perm))"
  by (induction perms) (auto dest!: required_granted [OF app] split: result.splits)

lemma one_app_writes:
  "a_id app = j \<Longrightarrow> admin_only admin j db (snd (ins_app (de_admin env) db app))"
  "a_id app = j \<Longrightarrow> admin_only admin j db (snd (del_app (de_admin env) db app))"
  "am_app_id m = j \<Longrightarrow> admin_only admin j db (snd (put_member (de_admin env) db m))"
  "am_app_id m = j \<Longrightarrow> admin_only admin j db (snd (del_member (de_admin env) db m))"
  "admin_only admin i db (snd (del_members_app (de_admin env) db i))"
  "r_app_id x = j \<Longrightarrow> admin_only admin j db (snd (put_role (de_admin env) db x))"
  "r_app_id x = j \<Longrightarrow> admin_only admin j db (snd (del_role (de_admin env) db x))"
  "admin_only admin i db (snd (del_roles_app (de_admin env) db i))"
  "tk_app_id t = j \<Longrightarrow> admin_only admin j db (snd (ins_token (de_admin env) db t))"
  "tk_app_id t = j \<Longrightarrow> admin_only admin j db (snd (del_token (de_admin env) db t))"
  "admin_only admin i db (snd (del_tokens_app (de_admin env) db i))"
  by (rule admin_only_write, rule apps.ins_app_wr apps.del_app_wr apps.put_member_wr apps.del_member_wr apps.del_members_app_wr apps.put_role_wr apps.del_role_wr apps.del_roles_app_wr apps.ins_token_wr apps.del_token_wr apps.del_tokens_app_wr,
      rule prod.collapse [symmetric], simp, auto simp: app_rows_def member_key_def role_key_def token_key_def drop_app_def)+

lemma bucket_write_only:
  assumes "after_write (view db) ((view db)\<lparr>t_buckets := (t_buckets (view db))(k := x)\<rparr>) r (view db')"
  shows "files_only view (fst k) db db'"
  using assms by (cases k) (auto simp: files_only_def after_write_def split: result.splits)

lemma one_app_buckets:
  "b_app_id b = j \<Longrightarrow> files_only view j db (snd (ins_bucket (de_cql env) db b))"
  "b_app_id b = j \<Longrightarrow> files_only view j db (snd (del_bucket (de_cql env) db b))"
  using bucket_write_only [OF files.ins_bucket_wr [OF prod.collapse [symmetric]]]
    bucket_write_only [OF files.del_bucket_wr [OF prod.collapse [symmetric]]] by auto

lemma one_app_quotas:
  "t_buckets (view db) (j, i) = Some b \<Longrightarrow> files_only view j db (snd (upd_bucket_quota (de_cql env) db (j, i) q))"
  "v_apps (admin adb) j = Some app \<Longrightarrow> admin_only admin j adb (snd (upd_app_quota (de_admin env) adb j q))"
  using bucket_write_only [OF files.upd_bucket_quota_wr [OF prod.collapse [symmetric]]]
   apply fastforce
  apply (rule admin_only_write, rule apps.upd_app_quota_wr, rule prod.collapse [symmetric], assumption)
   apply (auto simp: app_rows_def)
  done

lemma delete_app_only: "a_id app = j \<Longrightarrow> admin_only admin j db (snd (delete_app (de_admin env) app db))"
  unfolding delete_app_def
  by (auto split: prod.splits result.splits)
    (metis admin_only_trans one_app_writes(2,5,8,11) snd_conv)+

lemmas writes_rows_contained = rows_contained_admin rows_contained_files one_app_writes one_app_buckets one_app_quotas delete_app_only

lemma required_at:
  "get_app_by_id (de_admin env) (ds_admin s) j = Ok app \<Longrightarrow> fst (require env user app w scope s) = Ok x \<Longrightarrow>
    granted (admin (ds_admin s)) user j w scope"
  using stored_app [of "ds_admin s" j app] required_granted [of s app user w scope x] by auto

lemma stored_rows:
  "get_app_role (de_admin env) db j n = Ok role \<Longrightarrow> r_app_id role = j"
  "get_app_member (de_admin env) db j m = Ok member \<Longrightarrow> am_app_id member = j"
  "get_app_token (de_admin env) db j issuer n = Ok token \<Longrightarrow> tk_app_id token = j"
  "get_bucket (de_cql env) fdb j i = Ok b \<Longrightarrow> t_buckets (view fdb) (j, i) = Some b \<and> b_app_id b = j \<and> b_id b = i"
  using apps.sel_role_ok [of db "(j, n)"] apps.keyed_roles [of db "(j, n)"]
    apps.sel_member_ok [of db "(j, m)"] apps.keyed_members [of db "(j, m)"]
    apps.sel_token_ok [of db "(j, issuer, n)"] apps.keyed_tokens [of db "(j, issuer, n)"]
    files.sel_bucket_ok [of fdb "(j, i)"] files.keyed_buckets [of fdb "(j, i)"]
  by (simp_all add: get_app_role_def get_app_member_def get_app_token_def get_bucket_def found_eq_Ok role_key_def
      member_key_def token_key_def bucket_key_def)

lemma stored_maybe_member: "maybe_get_app_member (de_admin env) db j m = Ok (Some member) \<Longrightarrow> am_app_id member = j"
  using apps.sel_member_ok [of db "(j, m)"] apps.keyed_members [of db "(j, m)"]
  by (simp add: maybe_get_app_member_def member_key_def)

lemma owner_at:
  "get_app_by_id (de_admin env) (ds_admin s) j = Ok app \<Longrightarrow> u_id user = a_owner_id app \<Longrightarrow> owns (admin (ds_admin s)) user j"
  using stored_app [of "ds_admin s" j app] by (auto simp: owns_def)

lemma application_requests:
  "v_apps (admin (ds_admin s)) (de_new_v4 env) = None \<Longrightarrow> in_order env view admin user (CreateApplication r) s"
  "in_order env view admin user (EditApplication j q) s"
  "in_order env view admin user (DeleteApplication j) s"
  unfolding in_order_def
  by (auto simp: Let_def create_application_def do_create_app_def do_edit_app_def do_delete_app_def app_of_def
      get_user_used_quota_def get_user_used_app_quota_def insert_app_def update_app_quota_def
      intro!: writes_rows_contained dest: stored_app owner_at split: dash_splits)

lemma member_requests:
  "in_order env view admin user (AddMember m j) s"
  "in_order env view admin user (DeleteMember m j) s"
  unfolding in_order_def
  by (auto simp: Let_def do_add_member_def do_delete_member_def app_of_def insert_app_member_def delete_app_member_def
      intro!: writes_rows_contained dest: stored_app owner_at stored_maybe_member split: dash_splits)

lemma role_requests:
  "in_order env view admin user (CreateRole j n) s"
  "in_order env view admin user (DeleteRole j n) s"
  "in_order env view admin user (PatchRole j n perms) s"
  "in_order env view admin user (PatchMemberRoles j m roles) s"
  unfolding in_order_def
  by (auto simp: Let_def do_create_role_def do_delete_role_def do_patch_role_def do_patch_member_roles_def app_of_def
      insert_app_role_def delete_app_role_def update_app_role_def update_app_member_def
      intro!: writes_rows_contained dest: stored_app required_at stored_rows split: dash_splits)

lemma bucket_requests:
  "in_order env view admin user (CreateBucketRq r) s"
  "in_order env view admin user (DeleteBucketRq j b) s"
  "in_order env view admin user (EditBucketRq q j b) s"
  unfolding in_order_def
  by (auto simp: Let_def create_bucket_def do_create_bucket_def do_delete_bucket_def do_edit_bucket_def app_of_def
      get_user_used_app_quota_def insert_bucket_def delete_bucket_def update_bucket_quota_def bucket_key_def
      intro!: writes_rows_contained dest: stored_app required_at stored_rows split: dash_splits)

lemma required_all_at:
  "get_app_by_id (de_admin env) (ds_admin s) j = Ok app \<Longrightarrow> fst (require_all env user app perms s) = Ok x \<Longrightarrow>
    perm \<in> set perms \<Longrightarrow> granted (admin (ds_admin s)) user j (sp_allowance perm) (ScopeBuckets (sp_bucket_id perm))"
  using stored_app [of "ds_admin s" j app] required_all_granted [of s app user perms x perm] by auto

lemma snd_then_packet:
  "\<exists>sent. snd (dash_then (write_admin v) (\<lambda>_. write_packet env p) s) = s\<lparr>ds_admin := snd (v (ds_admin s)), ds_sent := sent\<rparr>"
proof (cases "fst (v (ds_admin s))")
  case (Ok x)
  then show ?thesis
    using snd_write_packet [of env p "s\<lparr>ds_admin := snd (v (ds_admin s))\<rparr>"]
    by (simp add: dash_then_def write_admin_def split_beta)
next
  case (Err e)
  then show ?thesis
    by (intro exI [of _ "ds_sent s"]) (simp add: dash_then_def write_admin_def split_beta)
qed

lemma required_all_belongs:
  "get_app_by_id (de_admin env) (ds_admin s) j = Ok app \<Longrightarrow> fst (require_all env user app perms s) = Ok x \<Longrightarrow>
    perms \<noteq> [] \<Longrightarrow> belongs (admin (ds_admin s)) user j"
  using required_all_at [of s j app user perms x "hd perms"] by (auto intro: granted_belongs)

lemma issue_requests: "in_order env view admin user (IssueToken r) s"
  unfolding in_order_def
  by (auto simp: Let_def do_issue_app_token_def app_of_def insert_app_token_def
      intro!: writes_rows_contained dest: stored_app required_all_at required_all_belongs split: dash_splits)

lemma revoke_requests: "in_order env view admin user (DeleteToken j issuer n) s"
proof (cases "get_app_token (de_admin env) (ds_admin s) j issuer n")
  case (Ok token)
  let ?p = "InvalidateCache (ucast (cache_id_u8 ValidateNonce)) (de_to_vec env \<lparr>ck_app_id = tk_app_id token,
    ck_issuer_id = tk_issuer_id token, ck_name = tk_name token, ck_nonce = tk_nonce token\<rparr>)"
  obtain sent where sent: "snd (dash_then (write_admin (delete_app_token (de_admin env) token)) (\<lambda>_. write_packet env ?p) s)
      = s\<lparr>ds_admin := snd (del_token (de_admin env) (ds_admin s) token), ds_sent := sent\<rparr>"
    using snd_then_packet [of "delete_app_token (de_admin env) token" ?p s] by (auto simp: delete_app_token_def)
  have "rows_contained view admin j s (s\<lparr>ds_admin := snd (del_token (de_admin env) (ds_admin s) token), ds_sent := sent\<rparr>)"
    using stored_rows(3) [OF Ok] by (auto intro!: writes_rows_contained)
  with Ok sent show ?thesis
    by (auto simp: in_order_def Let_def do_delete_token_def app_of_def dash_then_assoc dest: required_at split: dash_splits)
next
  case (Err e)
  then show ?thesis
    by (auto simp: in_order_def Let_def do_delete_token_def app_of_def dash_then_assoc split: dash_splits)
qed

lemmas requests = application_requests member_requests role_requests bucket_requests issue_requests revoke_requests

lemma request_in_order:
  "v_apps (admin (ds_admin s)) (de_new_v4 env) = None \<Longrightarrow> in_order env view admin user req s"
  by (cases req) (simp_all add: requests)

end


subsection \<open>Every change is authorised\<close>

text \<open>A dashboard on tables in memory.\<close>

definition mem_dash_env :: "AccessTokenJwtService \<Rightarrow> (ClaimKey \<Rightarrow> u8 list) \<Rightarrow> uuid \<Rightarrow> (mem_db, mem_admin) dash_env" where
  "mem_dash_env jwt to_vec v4 = \<lparr>de_cql = mem_cql, de_admin = mem_admin_cql, de_new_v4 = v4, de_now = 0, de_secs = 0,
     de_jwt = jwt, de_to_vec = to_vec, de_try_parse = (\<lambda>_. None), de_write_packet = (\<lambda>_. Ok ())\<rparr>"

interpretation mem_dash: dashboard_tables "mem_dash_env jwt to_vec v4" mem_view mem_admin_view for jwt to_vec v4
  unfolding dashboard_tables_def mem_dash_env_def
  by (simp add: mem_buckets.bucket_statements_axioms mem_admin.admin_service_axioms)

text \<open>C15. Every dashboard request that writes, whatever it answers and even when a statement fails half way:
  the rows of an application (its own row, its members, roles, tokens and buckets) change only when
  the user is authorised for that request on that application, as owner, as administrator or through
  a role with the permission the request needs; files, directories, upload sessions and users never
  change. There are two exceptions, which the code does not check: changing the quota of an
  application, and issuing a token without permits; these still change no other application. The
  fresh UUID of a new application must not be taken.\<close>

theorem dashboard_authorised:
  fixes view :: "'f \<Rightarrow> tables" and admin :: "'a \<Rightarrow> admin_tables"
  assumes tables: "dashboard_tables env view admin"
    and fresh: "v_apps (admin (ds_admin s)) (de_new_v4 env) = None"
    and after: "after_request env user req s = s'"
  shows "(app_rows (view (ds_files s')) (admin (ds_admin s')) i \<noteq> app_rows (view (ds_files s)) (admin (ds_admin s)) i
      \<longrightarrow> authorised (admin (ds_admin s)) user req i
        \<or> (\<exists>q. req = EditApplication i q)
        \<or> (\<exists>r. req = IssueToken r \<and> ti_app_id r = i \<and> ti_perms r = []))
    \<and> t_files (view (ds_files s')) = t_files (view (ds_files s)) \<and> t_dirs (view (ds_files s')) = t_dirs (view (ds_files s))
    \<and> t_sessions (view (ds_files s')) = t_sessions (view (ds_files s))
    \<and> v_users (admin (ds_admin s')) = v_users (admin (ds_admin s))"
proof -
  have "in_order env view admin user req s"
    using dashboard_tables.request_in_order [OF tables, of s user req] fresh by blast
  then consider "s' = s" | "rights_unchecked req \<or> authorised (admin (ds_admin s)) user req (target env req)"
      "rows_contained view admin (target env req) s s'"
    using after by (auto simp: in_order_def Let_def)
  then show ?thesis
  proof cases
    case 2
    have "rights_unchecked req \<Longrightarrow> i = target env req \<Longrightarrow>
        (\<exists>q. req = EditApplication i q) \<or> (\<exists>r. req = IssueToken r \<and> ti_app_id r = i \<and> ti_perms r = [])"
      by (cases req) auto
    with 2 show ?thesis using rows_contained_rows [OF 2(2), of i]
      by (auto simp: rows_contained_def admin_only_def files_only_def)
  qed simp
qed

definition some_user :: "uuid \<Rightarrow> User" where
  "some_user i = \<lparr>u_id = i, u_session_id = 0, u_name = ''user'', u_auth_identifier = [], u_quota = 1000,
     u_global_role = global_role_i32 RoleUser, u_created = 0, u_last_modified = 0\<rparr>"

definition one_app :: "i64 \<Rightarrow> Bucket list \<Rightarrow> (mem_db, mem_admin) dash_state" where
  "one_app q buckets = \<lparr>ds_files = \<lparr>m_files = [], m_dirs = [], m_buckets = buckets, m_sessions = []\<rparr>,
     ds_admin = \<lparr>l_apps = [\<lparr>a_id = 1, a_name = ''app'', a_owner_id = 5, a_quota = q, a_created = 0, a_last_modified = 0\<rparr>],
       l_members = [], l_roles = [], l_tokens = [], l_users = [some_user 5, some_user 9]\<rparr>, ds_sent = []\<rparr>"

theorem dashboard_authorised_witness:
  "app_rows (mem_view (ds_files (after_request (mem_dash_env plain_jwt (\<lambda>_. []) 2) (some_user 9) (DeleteApplication 1) (one_app 100 []))))
      (mem_admin_view (ds_admin (after_request (mem_dash_env plain_jwt (\<lambda>_. []) 2) (some_user 9) (DeleteApplication 1) (one_app 100 [])))) 1
   = app_rows (mem_view (ds_files (one_app 100 []))) (mem_admin_view (ds_admin (one_app 100 []))) 1"
proof -
  have "v_apps (mem_admin_view (ds_admin (one_app 100 []))) (de_new_v4 (mem_dash_env plain_jwt (\<lambda>_. []) 2)) = None"
    "\<not> authorised (mem_admin_view (ds_admin (one_app 100 []))) (some_user 9) (DeleteApplication 1) 1"
    by (simp_all add: one_app_def mem_admin_view_def mem_dash_env_def rows_map_def owns_def some_user_def)
  then show ?thesis
    using dashboard_authorised [OF mem_dash.dashboard_tables_axioms _ refl, of "one_app 100 []" plain_jwt "\<lambda>_. []" 2 "some_user 9" "DeleteApplication 1" 1]
    by blast
qed

end
