(* ===== verification/Dashboard_Quotas.thy ===== *)
theory Dashboard_Quotas
  imports Dashboard_Rights
begin

section \<open>The quota of an application\<close>

text \<open>
  The buckets of an application share its quota: no sequence of dashboard requests lets the sum of
  their quotas exceed it, provided every request asks for less than \<open>2 ^ 62\<close> bytes. Beyond, the additions of
  the checks wrap around and the check passes.
\<close>

abbreviation buckets_of :: "tables \<Rightarrow> uuid \<Rightarrow> uuid \<rightharpoonup> Bucket" where
  "buckets_of ft i \<equiv> (\<lambda>b. t_buckets ft (i, b))"

definition app_fits :: "i64 \<Rightarrow> (uuid \<rightharpoonup> Bucket) \<Rightarrow> bool" where
  "app_fits q m \<longleftrightarrow> finite (dom m) \<and> (\<forall>b v. m b = Some v \<longrightarrow> 0 \<le> b_quota v) \<and> msum b_quota m \<le> q \<and> q < 2 ^ 62"

definition fits_at :: "tables \<Rightarrow> admin_tables \<Rightarrow> uuid \<Rightarrow> bool" where
  "fits_at ft t i \<longleftrightarrow> (case v_apps t i of None \<Rightarrow> buckets_of ft i = Map.empty
     | Some app \<Rightarrow> app_fits (a_quota app) (buckets_of ft i))"

fun moderate :: "dash_request \<Rightarrow> bool" where
  "moderate (CreateApplication req) \<longleftrightarrow> unat (ca_quota req) < 2 ^ 62"
| "moderate (EditApplication i q) \<longleftrightarrow> unat q < 2 ^ 62"
| "moderate (CreateBucketRq req) \<longleftrightarrow> unat (cb_quota req) < 2 ^ 62"
| "moderate (EditBucketRq q i b) \<longleftrightarrow> unat q < 2 ^ 62"
| "moderate _ \<longleftrightarrow> True"

subsection \<open>Sums\<close>

lemma msum_nonneg: "(\<And>k v. m k = Some v \<Longrightarrow> 0 \<le> (f v :: int)) \<Longrightarrow> 0 \<le> msum f m"
  by (auto simp: msum_def intro!: sum_nonneg)

lemma sum_i64_from: "0 \<le> z \<Longrightarrow> (\<And>x. x \<in> set xs \<Longrightarrow> 0 \<le> x) \<Longrightarrow> z + sum_list xs < 2 ^ 63 \<Longrightarrow>
    foldl i64_add z xs = z + sum_list xs"
proof (induction xs arbitrary: z)
  case (Cons x xs)
  have "0 \<le> sum_list xs" using Cons.prems(2) by (intro sum_list_nonneg) auto
  moreover have "0 \<le> x" using Cons.prems(2) by simp
  ultimately have "i64_add z x = z + x" using Cons.prems(1,3) by (simp add: i64_add_def wrap_i64_id in_i64_def)
  then show ?case using Cons.IH [of "z + x"] Cons.prems by (simp add: ac_simps)
qed simp

lemma foldl_quota: "foldl (\<lambda>n b. i64_add n (f b)) z bs = foldl i64_add z (map f bs)"
  by (induction bs arbitrary: z) auto

lemma fits_put:
  assumes "app_fits q m" "0 \<le> b_quota v" "msum b_quota (m(k := None)) + b_quota v \<le> q"
  shows "app_fits q (m(k \<mapsto> v))"
  using assms msum_insert [of "m(k := None)" k b_quota v] by (auto simp: app_fits_def)

lemma fits_rest:
  assumes "app_fits q m"
  shows "0 \<le> msum b_quota (m(k := None))" "msum b_quota (m(k := None)) \<le> msum b_quota m"
    "m k = Some v \<Longrightarrow> msum b_quota (m(k := None)) = msum b_quota m - b_quota v"
proof -
  show "0 \<le> msum b_quota (m(k := None))" using assms by (intro msum_nonneg) (auto simp: app_fits_def split: if_splits)
  show less: "m k = Some v \<Longrightarrow> msum b_quota (m(k := None)) = msum b_quota m - b_quota v" for v
    using assms by (simp add: app_fits_def msum_delete)
  have "0 \<le> b_quota v" if "m k = Some v" for v using assms that by (simp add: app_fits_def)
  with less show "msum b_quota (m(k := None)) \<le> msum b_quota m" by (cases "m k") auto
qed

lemma fits_remove: "app_fits q m \<Longrightarrow> app_fits q (m(k := None))"
  using fits_rest(2) [of q m k] by (auto simp: app_fits_def split: if_splits)

lemma listed_quota:
  assumes bs: "distinct (map bucket_key bs)" "set bs = {b. t_buckets ft (bucket_key b) = Some b \<and> b_app_id b = i}"
    and keyed: "\<And>k b. t_buckets ft k = Some b \<Longrightarrow> bucket_key b = k"
  shows "sum_list (map b_quota bs) = msum b_quota (buckets_of ft i)"
proof -
  have "dom (buckets_of ft i) = b_id ` set bs"
  proof
    show "dom (buckets_of ft i) \<subseteq> b_id ` set bs"
    proof
      fix k assume "k \<in> dom (buckets_of ft i)"
      then obtain b where b: "t_buckets ft (i, k) = Some b" by auto
      from keyed [OF b] have "b_app_id b = i" "b_id b = k" by (simp_all add: bucket_key_def)
      with b show "k \<in> b_id ` set bs" by (intro image_eqI [of _ _ b]) (simp_all add: bs(2) bucket_key_def)
    qed
  qed (auto simp: bs(2) bucket_key_def)
  moreover have "inj_on b_id (set bs)" using bs by (auto simp: inj_on_def distinct_map bucket_key_def)
  moreover have "the (buckets_of ft i (b_id b)) = b" if "b \<in> set bs" for b
    using that by (auto simp: bs(2) bucket_key_def)
  ultimately have "msum b_quota (buckets_of ft i) = (\<Sum>b\<in>set bs. b_quota b)"
    by (simp add: msum_def sum.reindex)
  also have "\<dots> = sum_list (map b_quota bs)"
    using bs(1) by (simp add: distinct_map sum_list_distinct_conv_sum_set)
  finally show ?thesis ..
qed

lemma first_row_None: "first_row r = Ok None \<longleftrightarrow> r = Ok []"
proof (cases r)
  case (Ok rows)
  then show ?thesis by (cases rows) (auto simp: first_row_def)
qed (simp add: first_row_def)

lemma moderate_quota: "unat q < 2 ^ 62 \<Longrightarrow> 0 \<le> as_i64 q \<and> as_i64 q < 2 ^ 62"
proof -
  assume a: "unat q < 2 ^ 62"
  then have "as_i64 q = int (unat q)" by (intro as_i64_small) simp
  with a show ?thesis by (metis of_nat_0_le_iff of_nat_less_numeral_power_cancel_iff)
qed

subsection \<open>Each request\<close>

lemma fits_atI:
  "v_apps t i = Some app \<Longrightarrow> app_fits (a_quota app) (buckets_of ft i) \<Longrightarrow> fits_at ft t i"
  "v_apps t i = None \<Longrightarrow> buckets_of ft i = Map.empty \<Longrightarrow> fits_at ft t i"
  by (simp_all add: fits_at_def)

lemma fits_written:
  "after_write before after r t \<Longrightarrow> fits_at ft before i \<Longrightarrow> fits_at ft after i \<Longrightarrow> fits_at ft t i"
  "after_write fbefore fafter r ft \<Longrightarrow> fits_at fbefore t i \<Longrightarrow> fits_at fafter t i \<Longrightarrow> fits_at ft t i"
  by (auto simp: after_write_def split: result.splits)

lemma apps_kept_write:
  "after_write before after r t \<Longrightarrow> v_apps after = v_apps before \<Longrightarrow> v_apps t = v_apps before"
  by (auto simp: after_write_def split: result.splits)

lemma fits_rows:
  assumes "app_rows ft' t' i = app_rows ft t i"
  shows "fits_at ft' t' i = fits_at ft t i"
proof -
  have "v_apps t' i = v_apps t i" and "buckets_of ft' i = buckets_of ft i" using assms by (simp_all add: app_rows_def)
  then show ?thesis by (simp only: fits_at_def)
qed

context dashboard_tables begin

abbreviation fits :: "('f, 'a) dash_state \<Rightarrow> uuid \<Rightarrow> bool" where
  "fits s i \<equiv> fits_at (view (ds_files s)) (admin (ds_admin s)) i"

lemma apps_kept:
  "v_apps (admin (snd (put_member (de_admin env) db m))) = v_apps (admin db)"
  "v_apps (admin (snd (del_member (de_admin env) db m))) = v_apps (admin db)"
  "v_apps (admin (snd (put_role (de_admin env) db x))) = v_apps (admin db)"
  "v_apps (admin (snd (del_role (de_admin env) db x))) = v_apps (admin db)"
  "v_apps (admin (snd (ins_token (de_admin env) db t))) = v_apps (admin db)"
  "v_apps (admin (snd (del_token (de_admin env) db t))) = v_apps (admin db)"
  by (rule apps_kept_write, rule apps.put_member_wr apps.del_member_wr apps.put_role_wr apps.del_role_wr apps.ins_token_wr
      apps.del_token_wr, rule prod.collapse [symmetric], simp)+

lemma used_quota:
  assumes "get_buckets (de_cql env) (ds_files s) j = Ok bs" "app_fits q (buckets_of (view (ds_files s)) j)"
  shows "foldl i64_add 0 (map b_quota bs) = msum b_quota (buckets_of (view (ds_files s)) j)"
    and "0 \<le> msum b_quota (buckets_of (view (ds_files s)) j)"
proof -
  let ?m = "buckets_of (view (ds_files s)) j"
  have bs: "distinct (map bucket_key bs)"
      "set bs = {b. t_buckets (view (ds_files s)) (bucket_key b) = Some b \<and> b_app_id b = j}"
    using files.sel_buckets_app_ok [of "ds_files s" j bs] assms(1) by (simp_all add: get_buckets_def)
  have eq: "sum_list (map b_quota bs) = msum b_quota ?m"
    by (rule listed_quota [OF bs]) (rule files.keyed_buckets)
  have nn: "0 \<le> b_quota b" if "b \<in> set bs" for b
    using that assms(2) by (force simp: bs(2) bucket_key_def app_fits_def)
  show "0 \<le> msum b_quota ?m" using assms(2) by (intro msum_nonneg) (auto simp: app_fits_def)
  show "foldl i64_add 0 (map b_quota bs) = msum b_quota ?m"
    using sum_i64_from [of 0 "map b_quota bs"] nn assms(2) by (auto simp: eq app_fits_def)
qed

lemma fits_ins_app:
  assumes "fits s (a_id app)" "v_apps (admin (ds_admin s)) (a_id app) = None" "0 \<le> a_quota app" "a_quota app < 2 ^ 62"
  shows "fits (s\<lparr>ds_admin := snd (ins_app (de_admin env) (ds_admin s) app)\<rparr>) (a_id app)"
proof -
  have "buckets_of (view (ds_files s)) (a_id app) = Map.empty" using assms(1,2) by (simp add: fits_at_def)
  then have "fits_at (view (ds_files s))
      ((admin (ds_admin s))\<lparr>v_apps := (v_apps (admin (ds_admin s)))(a_id app \<mapsto> app)\<rparr>) (a_id app)"
    using assms(3,4) by (simp add: fits_at_def app_fits_def)
  with assms(1) show ?thesis
    using fits_written(1) [OF apps.ins_app_wr [OF prod.collapse [symmetric]]] by simp
qed

lemma fits_upd_app:
  assumes "fits s i" "v_apps (admin (ds_admin s)) i = Some app"
    and "msum b_quota (buckets_of (view (ds_files s)) i) \<le> q" "q < 2 ^ 62"
  shows "fits (s\<lparr>ds_admin := snd (upd_app_quota (de_admin env) (ds_admin s) i q)\<rparr>) i"
proof -
  have "fits_at (view (ds_files s))
      ((admin (ds_admin s))\<lparr>v_apps := (v_apps (admin (ds_admin s)))(i \<mapsto> app\<lparr>a_quota := q\<rparr>)\<rparr>) i"
    using assms by (simp add: fits_at_def app_fits_def)
  with assms(1,2) show ?thesis
    using fits_written(1) [OF apps.upd_app_quota_wr [OF prod.collapse [symmetric]]] by simp
qed

lemma deleted_app:
  "v_apps (admin (snd (delete_app (de_admin env) app db))) i \<in> {v_apps (admin db) i, None}"
proof -
  have part: "v_apps (admin (snd (del_tokens_app (de_admin env) db j))) = v_apps (admin db)"
    "v_apps (admin (snd (del_roles_app (de_admin env) db j))) = v_apps (admin db)"
    "v_apps (admin (snd (del_members_app (de_admin env) db j))) = v_apps (admin db)" for db j
    by (rule apps_kept_write, rule apps.del_tokens_app_wr apps.del_roles_app_wr apps.del_members_app_wr,
        rule prod.collapse [symmetric], simp)+
  have last: "v_apps (admin (snd (del_app (de_admin env) db app))) i \<in> {v_apps (admin db) i, None}" for db
    using apps.del_app_wr [OF prod.collapse [symmetric], of db app] by (auto simp: after_write_def split: result.splits if_splits)
  obtain r1 db1 r2 db2 r3 db3 where steps: "del_tokens_app (de_admin env) db (a_id app) = (r1, db1)"
    "del_roles_app (de_admin env) db1 (a_id app) = (r2, db2)" "del_members_app (de_admin env) db2 (a_id app) = (r3, db3)"
    by (metis surj_pair)
  have "v_apps (admin db1) = v_apps (admin db)" "v_apps (admin db2) = v_apps (admin db1)" "v_apps (admin db3) = v_apps (admin db2)"
    using part(1) [of db "a_id app"] part(2) [of db1 "a_id app"] part(3) [of db2 "a_id app"] steps by simp_all
  then show ?thesis using last [of db3] by (simp add: delete_app_def steps split: result.split)
qed

lemma fits_bucket:
  assumes "fits s j" "v_apps (admin (ds_admin s)) j = Some app"
    and "after_write (view (ds_files s)) ((view (ds_files s))\<lparr>t_buckets := (t_buckets (view (ds_files s)))((j, k) := x)\<rparr>) r (view db)"
    and "\<And>b. x = Some b \<Longrightarrow> 0 \<le> b_quota b \<and>
      msum b_quota ((buckets_of (view (ds_files s)) j)(k := None)) + b_quota b \<le> a_quota app"
  shows "fits (s\<lparr>ds_files := db\<rparr>) j"
proof -
  let ?m = "buckets_of (view (ds_files s)) j"
  have m: "app_fits (a_quota app) ?m" using assms(1,2) by (simp add: fits_at_def)
  then have "app_fits (a_quota app) (?m(k := x))"
    using assms(4) by (cases x) (auto intro: fits_put fits_remove)
  moreover have "buckets_of ((view (ds_files s))\<lparr>t_buckets := (t_buckets (view (ds_files s)))((j, k) := x)\<rparr>) j = ?m(k := x)"
    by auto
  ultimately have "fits_at ((view (ds_files s))\<lparr>t_buckets := (t_buckets (view (ds_files s)))((j, k) := x)\<rparr>) (admin (ds_admin s)) j"
    using assms(2) by (simp add: fits_at_def)
  with assms(1,3) show ?thesis using fits_written(2) by fastforce
qed

lemma create_app_fits:
  assumes "fits s (de_new_v4 env)" "v_apps (admin (ds_admin s)) (de_new_v4 env) = None" "unat (ca_quota r) < 2 ^ 62"
  shows "fits (snd (create_application env r user s)) (de_new_v4 env)"
proof -
  define app where "app = \<lparr>a_id = de_new_v4 env, a_name = ca_name r, a_owner_id = u_id user,
    a_quota = as_i64 (ca_quota r), a_created = de_now env, a_last_modified = de_now env\<rparr>"
  have "fits (s\<lparr>ds_admin := snd (ins_app (de_admin env) (ds_admin s) app)\<rparr>) (de_new_v4 env)"
    using fits_ins_app [of s app] assms(1,2) moderate_quota [OF assms(3)] by (simp add: app_def)
  then show ?thesis using assms(1)
    by (auto simp: create_application_def do_create_app_def get_user_used_quota_def insert_app_def Let_def app_def
        split: dash_splits)
qed

lemma edit_app_fits:
  assumes "fits s i" "unat q < 2 ^ 62"
  shows "fits (snd (do_edit_app env i q user s)) i"
proof -
  have "fits (s\<lparr>ds_admin := snd (upd_app_quota (de_admin env) (ds_admin s) i (as_i64 q))\<rparr>) i"
    if "get_app_by_id (de_admin env) (ds_admin s) i = Ok app" "get_buckets (de_cql env) (ds_files s) i = Ok bs"
      "sum_i64 (map b_quota bs) < as_i64 q" for app bs
    using that(3) assms(1) stored_app [OF that(1)] used_quota [OF that(2), of "a_quota app"] moderate_quota [OF assms(2)]
    by (intro fits_upd_app [of _ _ app]) (simp_all add: fits_at_def sum_i64_def)
  then show ?thesis using assms(1) stored_app [of "ds_admin s" i]
    by (auto simp: do_edit_app_def app_of_def get_user_used_quota_def get_user_used_app_quota_def update_app_quota_def
        split: dash_splits)
qed

lemma delete_app_fits:
  assumes "fits s i"
  shows "fits (snd (do_delete_app env i user s)) i"
proof -
  have "fits (s\<lparr>ds_admin := snd (delete_app (de_admin env) app (ds_admin s))\<rparr>) i"
    if "maybe_get_first_bucket (de_cql env) (ds_files s) i = Ok None" for app
  proof -
    have none: "buckets_of (view (ds_files s)) i = Map.empty"
    proof
      fix b
      have "sel_buckets_app (de_cql env) (ds_files s) i = Ok []"
        using that by (simp add: maybe_get_first_bucket_def first_row_None)
      then have "{b. t_buckets (view (ds_files s)) (bucket_key b) = Some b \<and> b_app_id b = i} = {}"
        using files.sel_buckets_app_ok [of "ds_files s" i "[]"] by simp
      then show "t_buckets (view (ds_files s)) (i, b) = None"
        using files.keyed_buckets [of "ds_files s" "(i, b)"] by (cases "t_buckets (view (ds_files s)) (i, b)")
          (auto simp: bucket_key_def)
    qed
    then show ?thesis using assms deleted_app [of app "ds_admin s" i]
      by (cases "v_apps (admin (snd (delete_app (de_admin env) app (ds_admin s)))) i") (simp_all add: fits_at_def)
  qed
  then show ?thesis using assms
    by (auto simp: do_delete_app_def app_of_def split: dash_splits)
qed

lemma create_bucket_fits:
  assumes "fits s (cb_app_id r)" "unat (cb_quota r) < 2 ^ 62"
  shows "fits (snd (create_bucket env r user s)) (cb_app_id r)"
proof -
  define bucket where "bucket = \<lparr>b_app_id = cb_app_id r, b_id = de_new_v4 env, b_name = cb_name r, encrypted = False,
    atomic_upload = cb_atomic_upload r, b_quota = as_i64 (cb_quota r), file_count = 0, space_taken = 0,
    b_created = de_now env, b_last_modified = de_now env\<rparr>"
  have "fits (s\<lparr>ds_files := snd (ins_bucket (de_cql env) (ds_files s) bucket)\<rparr>) (cb_app_id r)"
    if app: "get_app_by_id (de_admin env) (ds_admin s) (cb_app_id r) = Ok app"
      and bs: "get_buckets (de_cql env) (ds_files s) (cb_app_id r) = Ok bs"
      and le: "\<not> a_quota app < i64_add (foldl i64_add 0 (map b_quota bs)) (as_i64 (cb_quota r))" for app bs
  proof -
    let ?m = "buckets_of (view (ds_files s)) (cb_app_id r)"
    have stored: "v_apps (admin (ds_admin s)) (cb_app_id r) = Some app" using stored_app [OF app] by simp
    then have m: "app_fits (a_quota app) ?m" using assms(1) by (simp add: fits_at_def)
    note q = moderate_quota [OF assms(2)]
    have "msum b_quota ?m + as_i64 (cb_quota r) < 2 ^ 63" using m q by (simp add: app_fits_def)
    then have "msum b_quota ?m + as_i64 (cb_quota r) \<le> a_quota app"
      using le used_quota [OF bs m] q by (simp add: i64_add_def wrap_i64_id in_i64_def)
    then have "msum b_quota (?m(de_new_v4 env := None)) + b_quota bucket \<le> a_quota app"
      using fits_rest(2) [OF m, of "de_new_v4 env"] by (simp add: bucket_def)
    then show ?thesis
      using files.ins_bucket_wr [OF prod.collapse [symmetric], of "ds_files s" bucket] q
      by (intro fits_bucket [OF assms(1) stored, of "de_new_v4 env" "Some bucket"]) (auto simp: bucket_def bucket_key_def)
  qed
  then show ?thesis using assms(1)
    by (auto simp: create_bucket_def do_create_bucket_def app_of_def insert_bucket_def Let_def foldl_quota [of b_quota] bucket_def
        split: dash_splits)
qed

lemma delete_bucket_fits:
  assumes "fits s j"
  shows "fits (snd (do_delete_bucket env j b user s)) j"
proof -
  have "fits (s\<lparr>ds_files := snd (del_bucket (de_cql env) (ds_files s) bucket)\<rparr>) j"
    if "get_app_by_id (de_admin env) (ds_admin s) j = Ok app" "get_bucket (de_cql env) (ds_files s) j b = Ok bucket" for app bucket
    using files.del_bucket_wr [OF prod.collapse [symmetric], of "ds_files s" bucket] stored_app [OF that(1)] stored_rows(4) [OF that(2)]
    by (intro fits_bucket [OF assms, of app b None]) (auto simp: bucket_key_def)
  then show ?thesis using assms
    by (auto simp: do_delete_bucket_def app_of_def delete_bucket_def split: dash_splits)
qed

lemma edit_bucket_fits:
  assumes "fits s j" "unat q < 2 ^ 62"
  shows "fits (snd (do_edit_bucket env q j b user s)) j"
proof -
  have "fits (s\<lparr>ds_files := snd (upd_bucket_quota (de_cql env) (ds_files s) (j, b) (as_i64 q))\<rparr>) j"
    if app: "get_app_by_id (de_admin env) (ds_admin s) j = Ok app"
      and bucket: "get_bucket (de_cql env) (ds_files s) j b = Ok bucket"
      and bs: "get_buckets (de_cql env) (ds_files s) j = Ok bs"
      and le: "\<not> a_quota app < i64_add (wrap_i64 (foldl i64_add 0 (map b_quota bs) - b_quota bucket)) (as_i64 q)" for app bucket bs
  proof -
    let ?m = "buckets_of (view (ds_files s)) j"
    have stored: "v_apps (admin (ds_admin s)) j = Some app" "?m b = Some bucket"
      using stored_app [OF app] stored_rows(4) [OF bucket] by simp_all
    then have m: "app_fits (a_quota app) ?m" using assms(1) by (simp add: fits_at_def)
    note q = moderate_quota [OF assms(2)]
    have rest: "msum b_quota (?m(b := None)) = msum b_quota ?m - b_quota bucket" "0 \<le> msum b_quota (?m(b := None))"
      "msum b_quota (?m(b := None)) < 2 ^ 62"
      using fits_rest(1,2) [OF m, of b] fits_rest(3) [OF m stored(2)] m by (auto simp: app_fits_def)
    then have "msum b_quota (?m(b := None)) + as_i64 q \<le> a_quota app"
      using le used_quota [OF bs m] q by (simp add: i64_add_def wrap_i64_id in_i64_def)
    then show ?thesis
      using files.upd_bucket_quota_wr [OF prod.collapse [symmetric], of "ds_files s" "(j, b)" bucket "as_i64 q"] q stored(2)
      by (intro fits_bucket [OF assms(1) stored(1), of b "Some (bucket\<lparr>b_quota := as_i64 q\<rparr>)"]) auto
  qed
  note step = this
  show ?thesis
  proof (cases "get_bucket (de_cql env) (ds_files s) j b"; cases "get_app_by_id (de_admin env) (ds_admin s) j")
    fix bucket app
    assume rows: "get_bucket (de_cql env) (ds_files s) j b = Ok bucket" "get_app_by_id (de_admin env) (ds_admin s) j = Ok app"
    have keys: "a_id app = j" "bucket_key (bucket\<lparr>b_quota := as_i64 q\<rparr>) = (j, b)"
      using stored_app [OF rows(2)] stored_rows(4) [OF rows(1)] by (simp_all add: bucket_key_def)
    show ?thesis using step [OF rows(2,1)] assms(1)
      by (simp add: do_edit_bucket_def app_of_def get_user_used_app_quota_def update_bucket_quota_def rows keys
          sum_i64_def Let_def split: result.split) blast
  qed (use assms(1) in \<open>simp_all add: do_edit_bucket_def app_of_def\<close>)
qed

lemma fits_kept:
  "fits_at ft (admin (snd (put_member (de_admin env) db m))) j \<longleftrightarrow> fits_at ft (admin db) j"
  "fits_at ft (admin (snd (del_member (de_admin env) db m))) j \<longleftrightarrow> fits_at ft (admin db) j"
  "fits_at ft (admin (snd (put_role (de_admin env) db x))) j \<longleftrightarrow> fits_at ft (admin db) j"
  "fits_at ft (admin (snd (del_role (de_admin env) db x))) j \<longleftrightarrow> fits_at ft (admin db) j"
  "fits_at ft (admin (snd (ins_token (de_admin env) db t))) j \<longleftrightarrow> fits_at ft (admin db) j"
  "fits_at ft (admin (snd (del_token (de_admin env) db t))) j \<longleftrightarrow> fits_at ft (admin db) j"
  by (simp_all add: fits_at_def apps_kept)

lemma other_request_fits:
  "fits s j \<Longrightarrow> fits (snd (do_add_member env m j user s)) j"
  "fits s j \<Longrightarrow> fits (snd (do_delete_member env m j user s)) j"
  "fits s j \<Longrightarrow> fits (snd (do_create_role env j n user s)) j"
  "fits s j \<Longrightarrow> fits (snd (do_delete_role env j n user s)) j"
  "fits s j \<Longrightarrow> fits (snd (do_patch_role env j n user perms s)) j"
  "fits s j \<Longrightarrow> fits (snd (do_patch_member_roles env j m user roles s)) j"
  "fits s j \<Longrightarrow> fits (snd (do_issue_app_token env r user s)) j"
  by (simp_all add: do_add_member_def do_delete_member_def do_create_role_def do_delete_role_def do_patch_role_def
      do_patch_member_roles_def do_issue_app_token_def app_of_def insert_app_member_def delete_app_member_def
      insert_app_role_def delete_app_role_def update_app_role_def update_app_member_def insert_app_token_def
      Let_def fits_kept split: result.split option.split)

lemma delete_token_fits: "fits s j \<Longrightarrow> fits (snd (do_delete_token env i issuer n user s)) j"
proof (cases "get_app_token (de_admin env) (ds_admin s) i issuer n")
  case (Ok token)
  assume fit: "fits s j"
  have "fits (snd (dash_then (write_admin (delete_app_token (de_admin env) token)) (\<lambda>_. write_packet env p) s)) j" for p
    using snd_then_packet [of "delete_app_token (de_admin env) token" p s] fit
    by (elim exE) (simp add: delete_app_token_def fits_kept)
  with Ok fit show ?thesis
    by (cases "issuer = u_id user") (simp_all add: do_delete_token_def app_of_def dash_then_assoc split: result.split)
next
  case (Err e)
  assume "fits s j"
  with Err show ?thesis
    by (cases "issuer = u_id user") (simp_all add: do_delete_token_def app_of_def dash_then_assoc split: result.split)
qed

lemma request_fits:
  assumes "\<And>i. fits s i" "v_apps (admin (ds_admin s)) (de_new_v4 env) = None" "moderate req"
  shows "fits (after_request env user req s) i"
proof -
  from request_in_order [OF assms(2), of user req]
  consider "after_request env user req s = s" | "rows_contained view admin (target env req) s (after_request env user req s)"
    by (auto simp: in_order_def Let_def)
  then show ?thesis
  proof cases
    case 2
    have "fits (after_request env user req s) (target env req)"
      using assms by (cases req) (simp_all add: create_app_fits edit_app_fits delete_app_fits create_bucket_fits
          delete_bucket_fits edit_bucket_fits other_request_fits delete_token_fits)
    moreover have "fits (after_request env user req s) i" if "i \<noteq> target env req"
      using rows_contained_rows [OF 2, of i] that assms(1) [of i] fits_rows by metis
    ultimately show ?thesis by blast
  qed (simp add: assms(1))
qed

end

subsection \<open>Every sequence of requests\<close>

text \<open>The states a dashboard passes through, request after request: each with its own time and fresh
  UUID, and asking for less than \<open>2 ^ 62\<close> bytes.\<close>

inductive served ::
    "('f \<Rightarrow> tables) \<Rightarrow> ('a \<Rightarrow> admin_tables) \<Rightarrow> ('f, 'a) dash_state \<Rightarrow> ('f, 'a) dash_state \<Rightarrow> bool"
  for view admin s0 where
  served_none: "served view admin s0 s0"
| served_one: "served view admin s0 s \<Longrightarrow> dashboard_tables env view admin \<Longrightarrow>
    v_apps (admin (ds_admin s)) (de_new_v4 env) = None \<Longrightarrow> moderate req \<Longrightarrow>
    served view admin s0 (after_request env user req s)"

lemma served_fits:
  "served view admin s0 s \<Longrightarrow> (\<And>i. fits_at (view (ds_files s0)) (admin (ds_admin s0)) i) \<Longrightarrow>
    fits_at (view (ds_files s)) (admin (ds_admin s)) i"
proof (induction arbitrary: i rule: served.induct)
  case (served_one s env req user)
  show ?case
    by (rule dashboard_tables.request_fits [OF served_one.hyps(2) _ served_one.hyps(3,4)])
      (rule served_one.IH [OF served_one.prems])
qed blast

text \<open>C18. Whatever requests users send to the dashboard, successful or not, the quotas of the buckets of an
  application never add up to more than the quota of the application, no bucket exists without its
  application, and no quota is negative.\<close>

theorem app_quota_respected:
  assumes run: "served view admin s0 s"
    and start: "t_buckets (view (ds_files s0)) = Map.empty" "v_apps (admin (ds_admin s0)) = Map.empty"
    and bucket: "t_buckets (view (ds_files s)) (i, b) = Some bucket"
  shows "\<exists>app. v_apps (admin (ds_admin s)) i = Some app \<and> 0 \<le> b_quota bucket \<and> finite (dom (buckets_of (view (ds_files s)) i))
    \<and> msum b_quota (buckets_of (view (ds_files s)) i) \<le> a_quota app"
proof -
  have "fits_at (view (ds_files s)) (admin (ds_admin s)) i"
    by (rule served_fits [OF run]) (simp add: fits_at_def start)
  then show ?thesis using bucket
    by (cases "v_apps (admin (ds_admin s)) i") (auto simp: fits_at_def app_fits_def fun_eq_iff)
qed

definition bare_dash :: "(mem_db, mem_admin) dash_state" where
  "bare_dash = \<lparr>ds_files = \<lparr>m_files = [], m_dirs = [], m_buckets = [], m_sessions = []\<rparr>,
     ds_admin = \<lparr>l_apps = [], l_members = [], l_roles = [], l_tokens = [], l_users = [some_user 5]\<rparr>, ds_sent = []\<rparr>"

abbreviation new_app :: "(mem_db, mem_admin) dash_state" where
  "new_app \<equiv> after_request (mem_dash_env plain_jwt (\<lambda>_. []) 1) (some_user 5)
     (CreateApplication \<lparr>ca_name = ''app'', ca_quota = 100\<rparr>) bare_dash"

abbreviation new_bucket :: "(mem_db, mem_admin) dash_state" where
  "new_bucket \<equiv> after_request (mem_dash_env plain_jwt (\<lambda>_. []) 2) (some_user 5)
     (CreateBucketRq \<lparr>cb_name = ''pics'', cb_app_id = 1, cb_quota = 60, cb_atomic_upload = False\<rparr>) new_app"

lemma as_i64_numbers: "as_i64 100 = 100" "as_i64 60 = 60"
  by (simp_all add: as_i64_def)

lemmas dash_eval = create_application_def do_create_app_def create_bucket_def do_create_bucket_def validate_name_def app_of_def
  get_user_used_quota_def get_user_used_app_quota_def sum_i64_def get_apps_by_owner_def get_buckets_def get_app_by_id_def
  found_def insert_app_def insert_bucket_def mem_dash_env_def mem_admin_sel mem_cql_sel require_def has_app_permission_def
  some_user_def i64_add_def wrap_i64_id in_i64_def as_i64_numbers unique_rows_def put_row_def rows_map_def write_admin_def
  write_files_def dash_then_def read_admin_def read_files_def respond_def Let_def

theorem app_quota_respected_witness:
  "\<exists>app. v_apps (mem_admin_view (ds_admin new_bucket)) 1 = Some app \<and> finite (dom (buckets_of (mem_view (ds_files new_bucket)) 1))
    \<and> msum b_quota (buckets_of (mem_view (ds_files new_bucket)) 1) \<le> a_quota app"
proof -
  have fresh: "v_apps (mem_admin_view (ds_admin bare_dash)) 1 = None" "v_apps (mem_admin_view (ds_admin new_app)) 2 = None"
    by (simp_all add: mem_admin_view_def bare_dash_def dash_eval)
  have run: "served mem_view mem_admin_view bare_dash new_bucket"
    using fresh by (intro served.intros mem_dash.dashboard_tables_axioms) (simp_all add: mem_dash_env_def)
  have start: "t_buckets (mem_view (ds_files bare_dash)) = Map.empty" "v_apps (mem_admin_view (ds_admin bare_dash)) = Map.empty"
    by (simp_all add: mem_view_def mem_admin_view_def bare_dash_def rows_map_def fun_eq_iff)
  have "\<exists>bucket. t_buckets (mem_view (ds_files new_bucket)) (1, 2) = Some bucket"
    by (simp add: bare_dash_def mem_view_def bucket_key_def dash_eval)
  then show ?thesis using app_quota_respected [OF run start] by blast
qed

subsection \<open>Two holes in the checks\<close>

text \<open>C35. The request that changes the quota of an application does not ask who sends it: a user without any application, with no
  role anywhere, can cut the quota of an application of somebody else down to just above what its buckets have been
  given. The database answers.\<close>

theorem any_user_edits_quota:
  assumes tables: "dashboard_tables env view admin"
    and unowned: "sel_apps_owner (de_admin env) (ds_admin s) (u_id user) = Ok []" "0 \<le> u_quota user"
    and app: "sel_app (de_admin env) (ds_admin s) i = Ok (Some app)" "in_i64 (a_quota app)"
    and buckets: "sel_buckets_app (de_cql env) (ds_files s) i = Ok bs" "0 \<le> sum_i64 (map b_quota bs)"
    and cut: "sum_i64 (map b_quota bs) < as_i64 q" "as_i64 q \<le> a_quota app"
    and up: "upd_app_quota (de_admin env) (ds_admin s) i (as_i64 q) = (Ok (), db)"
  shows "do_edit_app env i q user s = (Ok (), s\<lparr>ds_admin := db\<rparr>) \<and> \<not> owns (admin (ds_admin s)) user i
    \<and> v_apps (admin db) i = Some (app\<lparr>a_quota := as_i64 q\<rparr>)"
proof -
  have apps: "admin_service (de_admin env) admin" using tables by (simp add: dashboard_tables_def)
  have row: "v_apps (admin (ds_admin s)) i = Some app" using admin_service.sel_app_ok [OF apps app(1)] by simp
  have at: "a_id app = i" by (rule admin_service.keyed_apps [OF apps row])
  have "\<not> owns (admin (ds_admin s)) user i"
    using admin_service.sel_apps_owner_ok [OF apps unowned(1)] row at by (auto simp: owns_def)
  moreover have "wrap_i64 (i64_add (as_i64 q) 0 - a_quota app) \<le> u_quota user"
    using cut buckets(2) app(2) unowned(2) in_i64_as_i64 [of q] by (simp add: i64_add_def wrap_i64_id in_i64_def)
  then have "do_edit_app env i q user s = (Ok (), s\<lparr>ds_admin := db\<rparr>)"
    using unowned(1) app(1) buckets(1) cut(1) up at
    by (simp add: do_edit_app_def get_user_used_quota_def get_user_used_app_quota_def app_of_def get_apps_by_owner_def
        get_app_by_id_def get_buckets_def found_def update_app_quota_def write_admin_def sum_i64_def)
  moreover have "v_apps (admin db) i = Some (app\<lparr>a_quota := as_i64 q\<rparr>)"
    using admin_service.upd_app_quota_wr [OF apps up row] by (simp add: after_write_def)
  ultimately show ?thesis by blast
qed

theorem any_user_edits_quota_witness:
  "\<exists>db. do_edit_app (mem_dash_env plain_jwt (\<lambda>_. []) 2) 1 60 (some_user 9) (one_app 100 []) = (Ok (), (one_app 100 [])\<lparr>ds_admin := db\<rparr>)"
proof -
  have "do_edit_app (mem_dash_env plain_jwt (\<lambda>_. []) 2) 1 60 (some_user 9) (one_app 100 []) = (Ok (), (one_app 100 [])\<lparr>ds_admin :=
      snd (upd_app_quota mem_admin_cql (ds_admin (one_app 100 [])) 1 60)\<rparr>)"
    by (rule conjunct1, rule any_user_edits_quota [OF mem_dash.dashboard_tables_axioms, where bs = "[]"
          and app = "\<lparr>a_id = 1, a_name = ''app'', a_owner_id = 5, a_quota = 100, a_created = 0, a_last_modified = 0\<rparr>"])
      (simp_all add: one_app_def dash_eval)
  then show ?thesis by blast
qed

lemma wrap_around: "wrap_i64 i = wrap_i64 (i - 2 ^ 64)"
proof -
  have "(word_of_int i :: u64) = word_of_int (i - 2 ^ 64)"
    unfolding word_of_int_eq_iff take_bit_eq_mod by simp
  then show ?thesis by (simp only: wrap_i64_def)
qed

text \<open>C38. The check of a new bucket against the quota of its application adds with wrap-around: once the application has a bucket,
  a request for \<open>2 ^ 63 - 1\<close> bytes overflows the sum to a negative number and is accepted, so that a single bucket has
  a quota far above that of its application. The request is one of the owner, and the database answers.\<close>

theorem quota_check_overflows:
  assumes tables: "dashboard_tables env view admin"
    and app: "sel_app (de_admin env) (ds_admin s) (cb_app_id req) = Ok (Some app)" "a_owner_id app = u_id user"
    and quota: "0 \<le> a_quota app" "a_quota app < 2 ^ 63 - 1"
    and buckets: "sel_buckets_app (de_cql env) (ds_files s) (cb_app_id req) = Ok bs"
      "1 \<le> sum_i64 (map b_quota bs)" "sum_i64 (map b_quota bs) < 2 ^ 63"
    and req: "validate_name (cb_name req) = Ok ()" "cb_quota req = 2 ^ 63 - 1"
    and up: "\<And>b. \<exists>db. ins_bucket (de_cql env) (ds_files s) b = (Ok (), db)"
  shows "\<exists>dto s' bucket. create_bucket env req user s = (Ok dto, s')
    \<and> t_buckets (view (ds_files s')) (cb_app_id req, de_new_v4 env) = Some bucket \<and> a_quota app < b_quota bucket"
proof -
  have files: "bucket_statements (de_cql env) view" using tables by (simp add: dashboard_tables_def)
  define bucket where "bucket = \<lparr>b_app_id = cb_app_id req, b_id = de_new_v4 env, b_name = cb_name req, encrypted = False,
    atomic_upload = cb_atomic_upload req, b_quota = as_i64 (cb_quota req), file_count = 0, space_taken = 0,
    b_created = de_now env, b_last_modified = de_now env\<rparr>"
  obtain db where ins: "ins_bucket (de_cql env) (ds_files s) bucket = (Ok (), db)" using up by blast
  have big: "as_i64 (cb_quota req) = 2 ^ 63 - 1" by (simp add: req(2) as_i64_def)
  define used where "used = sum_i64 (map b_quota bs)"
  have "i64_add used (2 ^ 63 - 1) = used - 2 ^ 63 - 1"
    using wrap_around [of "used + (2 ^ 63 - 1)"] buckets(2,3) by (simp add: i64_add_def used_def in_i64_def)
  then have "create_bucket env req user s = (Ok (bucket_dto_from bucket), s\<lparr>ds_files := db\<rparr>)"
    using app buckets quota req(1) ins big
    by (simp add: create_bucket_def do_create_bucket_def app_of_def get_app_by_id_def found_def require_def
        has_app_permission_def get_buckets_def foldl_quota [of b_quota] used_def sum_i64_def Let_def insert_bucket_def
        dash_then_def read_admin_def read_files_def write_files_def respond_def bucket_def)
  moreover have "t_buckets (view db) (cb_app_id req, de_new_v4 env) = Some bucket"
    using bucket_statements.ins_bucket_wr [OF files ins] by (simp add: after_write_def bucket_key_def bucket_def)
  ultimately show ?thesis using quota(2) big by (auto simp: bucket_def)
qed

theorem quota_check_overflows_witness:
  "\<exists>dto s' bucket. create_bucket (mem_dash_env plain_jwt (\<lambda>_. []) 3) \<lparr>cb_name = ''huge'', cb_app_id = 1, cb_quota = 2 ^ 63 - 1,
      cb_atomic_upload = False\<rparr> (some_user 5) new_bucket = (Ok dto, s')
    \<and> t_buckets (mem_view (ds_files s')) (1, 3) = Some bucket \<and> 100 < b_quota bucket"
proof -
  define bucket where "bucket = \<lparr>b_app_id = 1, b_id = 2, b_name = ''pics'', encrypted = False, atomic_upload = False,
    b_quota = 60, file_count = 0, space_taken = 0, b_created = 0, b_last_modified = 0\<rparr>"
  define app where "app = \<lparr>a_id = 1, a_name = ''app'', a_owner_id = 5, a_quota = 100, a_created = 0, a_last_modified = 0\<rparr>"
  have state: "new_bucket = \<lparr>ds_files = \<lparr>m_files = [], m_dirs = [], m_buckets = [bucket], m_sessions = []\<rparr>,
      ds_admin = \<lparr>l_apps = [app], l_members = [], l_roles = [], l_tokens = [], l_users = [some_user 5]\<rparr>, ds_sent = []\<rparr>"
    by (simp add: bare_dash_def bucket_def app_def dash_eval)
  have "\<exists>dto s' bucket'. create_bucket (mem_dash_env plain_jwt (\<lambda>_. []) 3) \<lparr>cb_name = ''huge'', cb_app_id = 1, cb_quota = 2 ^ 63 - 1,
      cb_atomic_upload = False\<rparr> (some_user 5) new_bucket = (Ok dto, s')
    \<and> t_buckets (mem_view (ds_files s')) (cb_app_id \<lparr>cb_name = ''huge'', cb_app_id = 1, cb_quota = 2 ^ 63 - 1,
      cb_atomic_upload = False\<rparr>, de_new_v4 (mem_dash_env plain_jwt (\<lambda>_. []) 3)) = Some bucket' \<and> a_quota app < b_quota bucket'"
    unfolding state
    by (rule quota_check_overflows [OF mem_dash.dashboard_tables_axioms, where bs = "[bucket]"])
      (simp_all add: app_def bucket_def bucket_key_def dash_eval)
  then show ?thesis by (simp add: app_def mem_dash_env_def)
qed

end
