(* ===== verification/Node_Auth.thy ===== *)
theory Node_Auth
  imports Dashboard_Rights File_Download
begin

section \<open>Tokens on the node\<close>

text \<open>
  The authentication of \<^verbatim>\<open>node/src/public/middleware/user_middleware.rs\<close> with the nonce cache of
  \<^verbatim>\<open>node/src/caching\<close>, the invalidation packets a node receives, and the controller that forwards them
  (\<^verbatim>\<open>protocol/src/mgpp\<close>). The cache is the one of the library \<open>cached\<close>: the record \<open>timed_cache\<close> of its
  operations, with what the library documents in the locale \<open>nonce_cache\<close>. CBOR is the pair of functions
  \<open>to_vec\<close> (in the environment of the dashboard) and \<open>from_slice\<close>.
\<close>

definition remove_bearer_prefix :: "string \<Rightarrow> string" where
  "remove_bearer_prefix token = (if take 7 token = ''Bearer '' then drop 7 token else token)"

record 'c timed_cache =
  cache_get :: "instant \<Rightarrow> ClaimKey \<Rightarrow> 'c \<Rightarrow> bool option \<times> 'c"
  cache_set :: "instant \<Rightarrow> ClaimKey \<Rightarrow> bool \<Rightarrow> 'c \<Rightarrow> 'c"
  cache_remove :: "ClaimKey \<Rightarrow> 'c \<Rightarrow> 'c"
  cache_clear :: "'c \<Rightarrow> 'c"

definition NONCE_LIFESPAN :: nat where "NONCE_LIFESPAN = 60"

definition alive :: "instant \<Rightarrow> instant \<Rightarrow> bool" where
  "alive at t \<longleftrightarrow> (at - t) div 1000000000 < NONCE_LIFESPAN"

locale nonce_cache =
  fixes ops :: "'c timed_cache" and holds :: "'c \<Rightarrow> ClaimKey \<rightharpoonup> bool \<times> instant"
  assumes get_value: "fst (cache_get ops at k c) =
      (case holds c k of None \<Rightarrow> None | Some (b, t) \<Rightarrow> if alive at t then Some b else None)"
    and get_drops: "holds (snd (cache_get ops at k c)) k' = holds c k' \<or> holds (snd (cache_get ops at k c)) k' = None"
    and set_holds: "holds (cache_set ops at k b c) = (holds c)(k \<mapsto> (b, at))"
    and remove_holds: "holds (cache_remove ops k c) = (holds c)(k := None)"
    and clear_holds: "holds (cache_clear ops c) = Map.empty"

subsection \<open>The nonce\<close>

definition nonce_current :: "'a admin_cql \<Rightarrow> 'a \<Rightarrow> AppTokenData \<Rightarrow> bool" where
  "nonce_current a db claims =
     (case get_app_token a db (at_app_id claims) (at_issuer_id claims) (at_name claims) of
        Ok token \<Rightarrow> tk_nonce token = at_nonce claims
      | Err _ \<Rightarrow> False)"

text \<open>The attribute \<open>cached\<close>: the cache is locked for the lookup, and only when it has no value for the key the
  body runs; the lock is not held meanwhile, and taken again to store the result. \<open>validate_nonce\<close> is one such run
  that nothing comes between; the steps of runs that overlap follow below.\<close>

definition lookup_nonce ::
    "'c timed_cache \<Rightarrow> instant \<Rightarrow> AppTokenData \<Rightarrow> 'c \<Rightarrow> bool option \<times> 'c" where
  "lookup_nonce ops at claims c = cache_get ops at (claim_key_from claims) c"

definition store_nonce :: "'c timed_cache \<Rightarrow> instant \<Rightarrow> AppTokenData \<Rightarrow> bool \<Rightarrow> 'c \<Rightarrow> 'c" where
  "store_nonce ops at claims b c = cache_set ops at (claim_key_from claims) b c"

definition validate_nonce ::
    "'c timed_cache \<Rightarrow> 'a admin_cql \<Rightarrow> instant \<Rightarrow> AppTokenData \<Rightarrow> 'a \<Rightarrow> 'c \<Rightarrow> bool \<times> 'c" where
  "validate_nonce ops a at claims db c =
     (let (hit, c1) = lookup_nonce ops at claims c in
      case hit of
        Some b \<Rightarrow> (b, c1)
      | None \<Rightarrow> let b = nonce_current a db claims in (b, store_nonce ops at claims b c1))"

definition nonce_answer :: "AppTokenData \<Rightarrow> bool \<Rightarrow> BucketAccessor node_result" where
  "nonce_answer claim_data nonce_valid =
     (if nonce_valid then Ok \<lparr>permits = at_perms claim_data, accessor_app_id = at_app_id claim_data\<rparr> else Err BadAuth)"

text \<open>The header is absent, not text, or a text.\<close>

definition header_claims :: "AccessTokenJwtService \<Rightarrow> u64 \<Rightarrow> string option option \<Rightarrow> AppTokenData option" where
  "header_claims jwt secs header =
     (case header of
        Some (Some token_str) \<Rightarrow> verify_token jwt secs (remove_bearer_prefix token_str)
      | _ \<Rightarrow> None)"

definition user_authenticate ::
    "AccessTokenJwtService \<Rightarrow> 'c timed_cache \<Rightarrow> 'a admin_cql \<Rightarrow> u64 \<Rightarrow> instant \<Rightarrow> string option option \<Rightarrow> 'a \<Rightarrow> 'c
      \<Rightarrow> BucketAccessor node_result \<times> 'c" where
  "user_authenticate jwt ops a secs at header db c =
     (case header_claims jwt secs header of
        None \<Rightarrow> (Err BadAuth, c)
      | Some claim_data \<Rightarrow>
          let (nonce_valid, c1) = validate_nonce ops a at claim_data db c in (nonce_answer claim_data nonce_valid, c1))"

subsection \<open>Invalidation\<close>

record 'c node_caches =
  nc_nonces :: 'c
  nc_node_addr :: "uuid \<rightharpoonup> string"
  nc_storage_map :: "uuid \<rightharpoonup> u64"

type_synonym peer_list = "(uuid \<times> string \<times> u64) list"

definition apply_peers :: "peer_list \<Rightarrow> 'c node_caches \<Rightarrow> 'c node_caches" where
  "apply_peers peers nc = nc\<lparr>
     nc_node_addr := foldl (\<lambda>m (i, addr, _). m(i \<mapsto> addr)) Map.empty peers,
     nc_storage_map := foldl (\<lambda>m (i, _, storage). m(i \<mapsto> storage)) Map.empty peers\<rparr>"

definition invalidate_nonce ::
    "'c timed_cache \<Rightarrow> (u8 list \<Rightarrow> ClaimKey option) \<Rightarrow> u8 list \<Rightarrow> 'c node_caches \<Rightarrow> 'c node_caches" where
  "invalidate_nonce ops from_slice cache_key nc =
     (case from_slice cache_key of
        Some claim_key \<Rightarrow> nc\<lparr>nc_nonces := cache_remove ops claim_key (nc_nonces nc)\<rparr>
      | None \<Rightarrow> nc)"

text \<open>The argument \<open>fetched\<close> is the answer of the controller to \<open>fetch_peer_storage_info\<close>.\<close>

definition invalidate_storage_map :: "peer_list option \<Rightarrow> 'c node_caches \<Rightarrow> 'c node_caches" where
  "invalidate_storage_map fetched nc = (case fetched of Some peers \<Rightarrow> apply_peers peers nc | None \<Rightarrow> nc)"

definition handle_invalidate ::
    "'c timed_cache \<Rightarrow> (u8 list \<Rightarrow> ClaimKey option) \<Rightarrow> peer_list option \<Rightarrow> MGPPPacket \<Rightarrow> 'c node_caches \<Rightarrow> 'c node_caches" where
  "handle_invalidate ops from_slice fetched p nc =
     (case p of InvalidateCache cache_id cache_key \<Rightarrow>
        if (ucast cache_id :: u8) = cache_id_u8 ValidateNonce then invalidate_nonce ops from_slice cache_key nc
        else if (ucast cache_id :: u8) = cache_id_u8 NodeStorageMap then invalidate_storage_map fetched nc
        else nc)"

definition clear_caches :: "'c timed_cache \<Rightarrow> 'c node_caches \<Rightarrow> 'c node_caches" where
  "clear_caches ops nc = nc\<lparr>nc_nonces := cache_clear ops (nc_nonces nc)\<rparr>"

text \<open>The controller writes a packet it receives to every connection; a failure on one is ignored.\<close>

definition server_handle_invalidate :: "'conn list \<Rightarrow> MGPPPacket \<Rightarrow> ('conn \<times> MGPPPacket) list" where
  "server_handle_invalidate connections p =
     (case p of InvalidateCache cache_id cache \<Rightarrow> map (\<lambda>connection. (connection, InvalidateCache cache_id cache)) connections)"

subsection \<open>An instance of the libraries\<close>

definition map_cache :: "(ClaimKey \<rightharpoonup> bool \<times> instant) timed_cache" where
  "map_cache = \<lparr>
     cache_get = (\<lambda>at k c. case c k of None \<Rightarrow> (None, c)
       | Some (b, t) \<Rightarrow> if alive at t then (Some b, c) else (None, c(k := None))),
     cache_set = (\<lambda>at k b c. c(k \<mapsto> (b, at))), cache_remove = (\<lambda>k c. c(k := None)), cache_clear = (\<lambda>_. Map.empty)\<rparr>"

interpretation map_nonces: nonce_cache map_cache "\<lambda>c. c"
  by unfold_locales (auto simp: map_cache_def split: option.splits)

definition claim_bytes :: "ClaimKey \<Rightarrow> u8 list" where
  "claim_bytes k = to_be_bytes (ck_app_id k) @ to_be_bytes (ck_issuer_id k) @ to_be_bytes (ck_nonce k) @ bytes_of (ck_name k)"

definition bytes_claim :: "u8 list \<Rightarrow> ClaimKey option" where
  "bytes_claim bs = (if length bs < 48 then None else
     Some \<lparr>ck_app_id = from_be_bytes (take 16 bs), ck_issuer_id = from_be_bytes (take 16 (drop 16 bs)),
       ck_name = text_of (drop 48 bs), ck_nonce = from_be_bytes (take 16 (drop 32 bs))\<rparr>)"

lemma text_of_bytes [simp]: "text_of (bytes_of cs) = cs"
  by (simp add: text_of_def bytes_of_def o_def unat_of_nat map_idI)

lemma bytes_claim_back: "bytes_claim (claim_bytes k) = Some k"
  by (simp add: bytes_claim_def claim_bytes_def from_to_be_bytes)

subsection \<open>A node at work\<close>

text \<open>Authentications that overlap. A request whose token is not in the cache waits for its row, and then, with what
  the row says, for the cache: \<open>an_pending\<close> holds the claims of these requests, and the value once it is read.
  \<open>an_answers\<close> are the answers given so far to requests with a token that verifies.\<close>

record 'c auth_node =
  an_caches :: "'c node_caches"
  an_pending :: "(AppTokenData \<times> bool option) list"
  an_answers :: "(AppTokenData \<times> BucketAccessor node_result) list"

definition set_nonces :: "'c \<Rightarrow> 'c auth_node \<Rightarrow> 'c auth_node" where
  "set_nonces c n = n\<lparr>an_caches := (an_caches n)\<lparr>nc_nonces := c\<rparr>\<rparr>"

definition auth_begin ::
    "AccessTokenJwtService \<Rightarrow> 'c timed_cache \<Rightarrow> u64 \<Rightarrow> instant \<Rightarrow> string option option \<Rightarrow> 'c auth_node \<Rightarrow> 'c auth_node" where
  "auth_begin jwt ops secs at header n =
     (case header_claims jwt secs header of
        None \<Rightarrow> n
      | Some claims \<Rightarrow>
          let (hit, c1) = lookup_nonce ops at claims (nc_nonces (an_caches n)); n1 = set_nonces c1 n in
          case hit of
            Some b \<Rightarrow> n1\<lparr>an_answers := an_answers n1 @ [(claims, nonce_answer claims b)]\<rparr>
          | None \<Rightarrow> n1\<lparr>an_pending := an_pending n1 @ [(claims, None)]\<rparr>)"

definition auth_read :: "'a admin_cql \<Rightarrow> 'a \<Rightarrow> nat \<Rightarrow> 'c auth_node \<Rightarrow> 'c auth_node" where
  "auth_read a db j n =
     (if j < length (an_pending n) \<and> snd (an_pending n ! j) = None
      then let claims = fst (an_pending n ! j) in
           n\<lparr>an_pending := (an_pending n)[j := (claims, Some (nonce_current a db claims))]\<rparr>
      else n)"

definition auth_store :: "'c timed_cache \<Rightarrow> instant \<Rightarrow> nat \<Rightarrow> 'c auth_node \<Rightarrow> 'c auth_node" where
  "auth_store ops at j n =
     (if j < length (an_pending n) then
        case an_pending n ! j of
          (claims, Some b) \<Rightarrow>
            set_nonces (store_nonce ops at claims b (nc_nonces (an_caches n))) n
              \<lparr>an_pending := take j (an_pending n) @ drop (Suc j) (an_pending n),
               an_answers := an_answers n @ [(claims, nonce_answer claims b)]\<rparr>
        | (claims, None) \<Rightarrow> n
      else n)"

lemma auth_uninterrupted:
  assumes "header_claims jwt secs header = Some claims" "an_pending n = []"
    and "n1 = auth_begin jwt ops secs at header n"
    and "n2 = (if an_pending n1 = [] then n1 else auth_store ops at 0 (auth_read a db 0 n1))"
    and "user_authenticate jwt ops a secs at header db (nc_nonces (an_caches n)) = (r, c)"
  shows "an_answers n2 = an_answers n @ [(claims, r)] \<and> nc_nonces (an_caches n2) = c \<and> an_pending n2 = []"
  using assms
  by (auto simp: user_authenticate_def validate_nonce_def auth_begin_def auth_read_def auth_store_def set_nonces_def
      Let_def split: prod.splits option.splits)

text \<open>What happens to a node while a token stays revoked: requests with any header at any time, packets
  from the control network, and the reset after a lost connection, in any order. The tables may change in between.\<close>

definition revoked :: "admin_tables \<Rightarrow> AppTokenData \<Rightarrow> bool" where
  "revoked t d \<longleftrightarrow> (\<forall>tok. v_tokens t (at_app_id d, at_issuer_id d, at_name d) = Some tok \<longrightarrow> tk_nonce tok \<noteq> at_nonce d)"

inductive node_works ::
    "AccessTokenJwtService \<Rightarrow> 'c timed_cache \<Rightarrow> 'a admin_cql \<Rightarrow> ('a \<Rightarrow> admin_tables) \<Rightarrow> (u8 list \<Rightarrow> ClaimKey option) \<Rightarrow>
     AppTokenData \<Rightarrow> 'c auth_node \<Rightarrow> 'c auth_node \<Rightarrow> bool"
  for jwt ops a admin from_slice d n0 where
  work_none: "node_works jwt ops a admin from_slice d n0 n0"
| work_begin: "node_works jwt ops a admin from_slice d n0 n \<Longrightarrow>
    node_works jwt ops a admin from_slice d n0 (auth_begin jwt ops secs at header n)"
| work_read: "node_works jwt ops a admin from_slice d n0 n \<Longrightarrow> revoked (admin db) d \<Longrightarrow>
    node_works jwt ops a admin from_slice d n0 (auth_read a db j n)"
| work_store: "node_works jwt ops a admin from_slice d n0 n \<Longrightarrow>
    node_works jwt ops a admin from_slice d n0 (auth_store ops at j n)"
| work_packet: "node_works jwt ops a admin from_slice d n0 n \<Longrightarrow>
    node_works jwt ops a admin from_slice d n0 (n\<lparr>an_caches := handle_invalidate ops from_slice fetched p (an_caches n)\<rparr>)"
| work_reset: "node_works jwt ops a admin from_slice d n0 n \<Longrightarrow>
    node_works jwt ops a admin from_slice d n0 (n\<lparr>an_caches := clear_caches ops (an_caches n)\<rparr>)"

text \<open>A token is shut out: the cache does not hold it as valid, no request in flight has read a current row for it, and
  every answer so far refused it.\<close>

text \<open>The cache does not hold the key as valid.\<close>

definition not_valid :: "('c \<Rightarrow> ClaimKey \<rightharpoonup> bool \<times> instant) \<Rightarrow> ClaimKey \<Rightarrow> 'c \<Rightarrow> bool" where
  "not_valid holds k c \<longleftrightarrow> (\<forall>t. holds c k \<noteq> Some (True, t))"

lemma not_current:
  assumes "admin_service a admin" "revoked (admin db) d" "claim_key_from claims = claim_key_from d"
  shows "\<not> nonce_current a db claims"
proof -
  have same: "at_app_id claims = at_app_id d" "at_issuer_id claims = at_issuer_id d" "at_name claims = at_name d"
    "at_nonce claims = at_nonce d" using assms(3) by (simp_all add: claim_key_from_def)
  show ?thesis
    using admin_service.sel_token_ok [OF assms(1), of db "(at_app_id d, at_issuer_id d, at_name d)"] assms(2)
    by (auto simp: nonce_current_def get_app_token_def found_eq_Ok revoked_def same split: result.splits)
qed

definition shut_out :: "('c \<Rightarrow> ClaimKey \<rightharpoonup> bool \<times> instant) \<Rightarrow> ClaimKey \<Rightarrow> 'c auth_node \<Rightarrow> bool" where
  "shut_out holds k n \<longleftrightarrow> not_valid holds k (nc_nonces (an_caches n))
     \<and> (\<forall>claims. claim_key_from claims = k \<longrightarrow> (claims, Some True) \<notin> set (an_pending n))
     \<and> (\<forall>claims r. (claims, r) \<in> set (an_answers n) \<and> claim_key_from claims = k \<longrightarrow> r = Err BadAuth)"

lemma set_cut: "set (take j xs @ drop (Suc j) xs) \<subseteq> set xs"
  by (auto dest: in_set_takeD in_set_dropD)

lemma shut_out_read:
  assumes "admin_service a admin" "revoked (admin db) d" "shut_out holds (claim_key_from d) n"
  shows "shut_out holds (claim_key_from d) (auth_read a db j n)"
proof (cases "j < length (an_pending n) \<and> snd (an_pending n ! j) = None")
  case True
  have "(claims, Some True) \<notin> set ((an_pending n)[j := (fst (an_pending n ! j), Some (nonce_current a db (fst (an_pending n ! j))))])"
    if "claim_key_from claims = claim_key_from d" for claims
    using not_current [OF assms(1,2) that] assms(3) that
    by (auto simp: shut_out_def dest!: set_update_subset_insert [THEN subsetD])
  with assms(3) True show ?thesis by (simp add: shut_out_def auth_read_def Let_def)
qed (use assms(3) in \<open>auto simp: auth_read_def\<close>)

context nonce_cache begin

lemma shut_out_begin: "shut_out holds k n \<Longrightarrow> shut_out holds k (auth_begin jwt ops secs at header n)"
proof (cases "header_claims jwt secs header")
  case (Some claims)
  let ?c = "nc_nonces (an_caches n)" and ?k = "claim_key_from claims"
  assume out: "shut_out holds k n"
  have kept: "not_valid holds k (snd (cache_get ops at ?k ?c))"
    using out get_drops [of at ?k ?c k] by (auto simp: shut_out_def not_valid_def)
  have "fst (cache_get ops at ?k ?c) \<noteq> Some True" if "?k = k"
    using out that by (auto simp: shut_out_def get_value not_valid_def split: option.splits if_splits)
  with out kept Some show ?thesis
    by (auto simp: auth_begin_def lookup_nonce_def set_nonces_def shut_out_def nonce_answer_def Let_def
        split: prod.splits option.splits)
qed (simp add: auth_begin_def)

lemma shut_out_store: "shut_out holds k n \<Longrightarrow> shut_out holds k (auth_store ops at j n)"
proof (cases "j < length (an_pending n)")
  case True
  obtain claims v where p: "an_pending n ! j = (claims, v)" by (rule prod.exhaust)
  assume out: "shut_out holds k n"
  have "(claims, v) \<in> set (an_pending n)" using True p by (metis nth_mem)
  with out have read: "v \<noteq> Some True" if "claim_key_from claims = k" using that by (auto simp: shut_out_def)
  define ps where "ps = take j (an_pending n) @ drop (Suc j) (an_pending n)"
  have "set ps \<subseteq> set (an_pending n)" unfolding ps_def by (rule set_cut)
  moreover have "auth_store ops at j n = (case v of None \<Rightarrow> n | Some b \<Rightarrow>
      set_nonces (store_nonce ops at claims b (nc_nonces (an_caches n))) n
        \<lparr>an_pending := ps, an_answers := an_answers n @ [(claims, nonce_answer claims b)]\<rparr>)"
    using True p by (cases v) (simp_all add: auth_store_def ps_def)
  ultimately show ?thesis
    using out read
    by (auto simp: set_nonces_def store_nonce_def shut_out_def set_holds not_valid_def nonce_answer_def split: option.splits)
qed (simp add: auth_store_def)

lemma invalidate_not_valid:
  "not_valid holds k (nc_nonces nc) \<Longrightarrow> not_valid holds k (nc_nonces (handle_invalidate ops from_slice fetched p nc))"
  by (auto simp: handle_invalidate_def invalidate_nonce_def invalidate_storage_map_def apply_peers_def remove_holds not_valid_def
      split: MGPPPacket.splits option.splits)

lemma works_shut_out:
  assumes "node_works jwt ops a admin from_slice d n0 n" "admin_service a admin" "shut_out holds (claim_key_from d) n0"
  shows "shut_out holds (claim_key_from d) n"
  using assms(1)
proof (induction rule: node_works.induct)
  case (work_read n db j)
  then show ?case using shut_out_read [OF assms(2)] by blast
next
  case (work_packet n fetched p)
  then show ?case using invalidate_not_valid by (simp add: shut_out_def)
next
  case (work_reset n)
  then show ?case by (simp add: shut_out_def clear_caches_def clear_holds not_valid_def)
qed (simp_all add: assms(3) shut_out_begin shut_out_store)

end

subsection \<open>Revocation\<close>

lemma do_delete_token_Ok:
  assumes tables: "dashboard_tables env view admin"
    and deleted: "do_delete_token env i issuer name user s = (Ok (), s')"
  obtains tok where "v_tokens (admin (ds_admin s)) (i, issuer, name) = Some tok"
    and "v_tokens (admin (ds_admin s')) = (v_tokens (admin (ds_admin s)))((i, issuer, name) := None)"
    and "ds_sent s' = ds_sent s @ [InvalidateCache 0 (de_to_vec env
      \<lparr>ck_app_id = i, ck_issuer_id = issuer, ck_name = name, ck_nonce = tk_nonce tok\<rparr>)]"
proof -
  have apps: "admin_service (de_admin env) admin" using tables by (simp add: dashboard_tables_def)
  from deleted obtain tok db where tok: "get_app_token (de_admin env) (ds_admin s) i issuer name = Ok tok"
      and del: "del_token (de_admin env) (ds_admin s) tok = (Ok (), db)"
      and s': "s' = s\<lparr>ds_admin := db, ds_sent := ds_sent s @ [InvalidateCache 0 (de_to_vec env \<lparr>ck_app_id = tk_app_id tok,
        ck_issuer_id = tk_issuer_id tok, ck_name = tk_name tok, ck_nonce = tk_nonce tok\<rparr>)]\<rparr>"
    by (cases "issuer = u_id user") (auto simp: do_delete_token_def app_of_def dash_then_assoc dash_then_def write_admin_def
        read_admin_def respond_def require_def write_packet_def delete_app_token_def split: dash_splits prod.splits)
  have row: "v_tokens (admin (ds_admin s)) (i, issuer, name) = Some tok"
    using admin_service.sel_token_ok [OF apps, of "ds_admin s" "(i, issuer, name)"] tok
    by (simp add: get_app_token_def found_eq_Ok)
  then have key: "token_key tok = (i, issuer, name)" by (rule admin_service.keyed_tokens [OF apps])
  show thesis
    using admin_service.del_token_wr [OF apps del] row key that
    by (simp add: s' after_write_def token_key_def)
qed

text \<open>C16. A token that the dashboard has deleted is refused by every node that has handled the invalidation packet the
  controller forwards. Whatever requests, packets and resets the node handles afterwards, their steps interleaved in any
  way and the tables changing, as long as no token row carries that nonce again, every answer it gives to a request
  with that token is \<open>BadAuth\<close>. The CBOR encoding reads back, and no request of the node that is in flight when
  the packet arrives has already read the row as it was before the deletion.\<close>

theorem revoked_token_refused:
  assumes tables: "dashboard_tables env view admin" and cache: "nonce_cache ops holds"
    and cbor: "\<And>k. from_slice (de_to_vec env k) = Some k"
    and deleted: "do_delete_token env (at_app_id d) (at_issuer_id d) (at_name d) user s = (Ok (), s')"
    and current: "\<not> revoked (admin (ds_admin s)) d"
    and forwarded: "(node, p) \<in> set (server_handle_invalidate connections (last (ds_sent s')))"
    and in_flight: "\<And>claims. claim_key_from claims = claim_key_from d \<Longrightarrow> (claims, Some True) \<notin> set waiting"
    and works: "node_works jwt ops (de_admin env) admin from_slice d
      \<lparr>an_caches = handle_invalidate ops from_slice fetched p nc, an_pending = waiting, an_answers = []\<rparr> n"
  shows "revoked (admin (ds_admin s')) d
    \<and> (\<forall>claims r. (claims, r) \<in> set (an_answers n) \<and> claim_key_from claims = claim_key_from d \<longrightarrow> r = Err BadAuth)"
proof -
  have apps: "admin_service (de_admin env) admin" using tables by (simp add: dashboard_tables_def)
  obtain tok where tok: "v_tokens (admin (ds_admin s)) (at_app_id d, at_issuer_id d, at_name d) = Some tok"
      and gone: "v_tokens (admin (ds_admin s')) = (v_tokens (admin (ds_admin s)))((at_app_id d, at_issuer_id d, at_name d) := None)"
      and sent: "ds_sent s' = ds_sent s @ [InvalidateCache 0 (de_to_vec env \<lparr>ck_app_id = at_app_id d,
        ck_issuer_id = at_issuer_id d, ck_name = at_name d, ck_nonce = tk_nonce tok\<rparr>)]"
    by (rule do_delete_token_Ok [OF tables deleted])
  have "tk_nonce tok = at_nonce d" using current tok by (auto simp: revoked_def)
  then have "p = InvalidateCache 0 (de_to_vec env (claim_key_from d))"
    using forwarded sent by (auto simp: server_handle_invalidate_def claim_key_from_def)
  then have "shut_out holds (claim_key_from d)
      \<lparr>an_caches = handle_invalidate ops from_slice fetched p nc, an_pending = waiting, an_answers = []\<rparr>"
    using in_flight by (simp add: shut_out_def handle_invalidate_def invalidate_nonce_def cbor nonce_cache.remove_holds [OF cache] not_valid_def)
  from nonce_cache.works_shut_out [OF cache works apps this] gone show ?thesis
    by (auto simp: shut_out_def revoked_def)
qed

text \<open>C33. A request in flight brings a deleted token back. A node misses a token in its cache and reads its row; then the
  dashboard deletes the token, and the node handles the invalidation packet, or any other; then the request stores what
  it has read. From then on, for the sixty seconds a cached value lives, the node accepts the deleted token.\<close>

theorem revoked_token_accepted:
  assumes tables: "dashboard_tables env view admin" and cache: "nonce_cache ops holds"
    and current: "nonce_current (de_admin env) (ds_admin s) d"
    and deleted: "do_delete_token env (at_app_id d) (at_issuer_id d) (at_name d) user s = (Ok (), s')"
    and idle: "an_pending n = []" "holds (nc_nonces (an_caches n)) (claim_key_from d) = None"
    and presented: "header_claims jwt secs header = Some d" "header_claims jwt secs' header' = Some d"
    and soon: "alive later stored"
  shows "revoked (admin (ds_admin s')) d \<and>
    (let n1 = auth_read (de_admin env) (ds_admin s) 0 (auth_begin jwt ops secs at header n);
         n2 = n1\<lparr>an_caches := handle_invalidate ops from_slice fetched p (an_caches n1)\<rparr>;
         n3 = auth_begin jwt ops secs' later header' (auth_store ops stored 0 n2)
     in last (an_answers n3) = (d, Ok \<lparr>permits = at_perms d, accessor_app_id = at_app_id d\<rparr>))"
proof -
  define n1 where "n1 = auth_read (de_admin env) (ds_admin s) 0 (auth_begin jwt ops secs at header n)"
  define n2 where "n2 = n1\<lparr>an_caches := handle_invalidate ops from_slice fetched p (an_caches n1)\<rparr>"
  have "fst (cache_get ops at (claim_key_from d) (nc_nonces (an_caches n))) = None"
    by (simp add: nonce_cache.get_value [OF cache] idle)
  then have "an_pending n1 = [(d, Some True)]"
    using current idle presented
    by (simp add: n1_def auth_begin_def auth_read_def lookup_nonce_def set_nonces_def Let_def split_beta)
  then have "holds (nc_nonces (an_caches (auth_store ops stored 0 n2))) (claim_key_from d) = Some (True, stored)"
    by (simp add: n2_def auth_store_def set_nonces_def store_nonce_def nonce_cache.set_holds [OF cache])
  then have "fst (cache_get ops later (claim_key_from d) (nc_nonces (an_caches (auth_store ops stored 0 n2)))) = Some True"
    using soon by (simp add: nonce_cache.get_value [OF cache])
  then have "last (an_answers (auth_begin jwt ops secs' later header' (auth_store ops stored 0 n2)))
      = (d, Ok \<lparr>permits = at_perms d, accessor_app_id = at_app_id d\<rparr>)"
    using presented by (simp add: auth_begin_def lookup_nonce_def set_nonces_def nonce_answer_def Let_def split_beta)
  moreover have "revoked (admin (ds_admin s')) d"
    by (rule do_delete_token_Ok [OF tables deleted]) (simp add: revoked_def)
  ultimately show ?thesis by (simp add: Let_def n1_def n2_def)
qed

subsection \<open>A token for somebody else's bucket\<close>

lemma bearer_removed [simp]: "remove_bearer_prefix (''Bearer '' @ token) = token"
  by (simp add: remove_bearer_prefix_def)

lemma authenticate_fresh:
  assumes cache: "nonce_cache ops holds" and token: "verify_token jwt secs token = Some d"
    and unseen: "holds c (claim_key_from d) = None" and nonce: "nonce_current a db d"
  shows "\<exists>c'. user_authenticate jwt ops a secs at (Some (Some (''Bearer '' @ token))) db c =
    (Ok \<lparr>permits = at_perms d, accessor_app_id = at_app_id d\<rparr>, c')"
proof -
  have "fst (cache_get ops at (claim_key_from d) c) = None"
    by (simp add: nonce_cache.get_value [OF cache] unseen)
  then show ?thesis
    using token nonce
    by (simp add: user_authenticate_def header_claims_def validate_nonce_def lookup_nonce_def nonce_answer_def Let_def split_beta
        del: append.simps)
qed

text \<open>C34. The dashboard issues a token for its own application to the owner of one with a permit for any bucket at all: nothing
  checks that the bucket is one of the application. The node accepts the token, and a download under the path of the owner's
  application with the identifier of a bucket of another one answers exactly what it answers to those who may read that
  bucket. The database answers, the token is not expired, and the fresh nonce is in no cache.\<close>

theorem token_reads_foreign_bucket:
  assumes tables: "dashboard_tables env view admin" and lib: "token_library (de_jwt env)" and cache: "nonce_cache ops holds"
    and mine: "sel_app (de_admin env) (ds_admin s) i = Ok (Some app)" "a_owner_id app = u_id user"
    and up: "\<And>t. \<exists>db. ins_token (de_admin env) (ds_admin s) t = (Ok (), db)" "\<And>db k. \<exists>x. sel_token (de_admin env) db k = Ok x"
    and signed: "\<And>d. \<exists>token. generate_token (de_jwt env) (de_secs env) d = Ok token"
    and unseen: "\<And>k. ck_nonce k = de_new_v4 env \<Longrightarrow> holds c k = None"
    and unexpired: "secs \<le> de_secs env + jt_validity (de_jwt env)"
  shows "\<exists>token s' accessor c'.
    do_issue_app_token env \<lparr>ti_app_id = i, ti_name = name, ti_perms = [\<lparr>sp_bucket_id = b, sp_allowance = DOWNLOAD_ALLOWANCE\<rparr>]\<rparr> user s
      = (Ok token, s')
    \<and> user_authenticate (de_jwt env) ops (de_admin env) secs at (Some (Some (''Bearer '' @ token))) (ds_admin s') c = (Ok accessor, c')
    \<and> (\<forall>j reader path rng db. has_permission reader j b DOWNLOAD_ALLOWANCE = Ok () \<longrightarrow>
        handle_download nenv satisfiable guess \<lparr>e_app_id = i, e_bucket_id = b, e_path = path\<rparr> accessor rng db =
        handle_download nenv satisfiable guess \<lparr>e_app_id = j, e_bucket_id = b, e_path = path\<rparr> reader rng db)"
proof -
  have apps: "admin_service (de_admin env) admin" using tables by (simp add: dashboard_tables_def)
  define row where "row = \<lparr>tk_app_id = i, tk_issuer_id = u_id user, tk_name = name, tk_nonce = de_new_v4 env,
    tk_created = de_now env, tk_last_modified = de_now env\<rparr>"
  define d where "d = \<lparr>at_app_id = i, at_issuer_id = u_id user, at_name = name, at_nonce = de_new_v4 env,
    at_perms = [\<lparr>permit_bucket_id = b, permit_allowance = DOWNLOAD_ALLOWANCE\<rparr>]\<rparr>"
  obtain db where ins: "ins_token (de_admin env) (ds_admin s) row = (Ok (), db)" using up(1) by blast
  obtain token where token: "generate_token (de_jwt env) (de_secs env) d = Ok token" using signed by blast
  have "a_id app = i" using admin_service.keyed_apps [OF apps] admin_service.sel_app_ok [OF apps mine(1)] by metis
  then have issued: "do_issue_app_token env \<lparr>ti_app_id = i, ti_name = name, ti_perms = [\<lparr>sp_bucket_id = b,
      sp_allowance = DOWNLOAD_ALLOWANCE\<rparr>]\<rparr> user s = (Ok token, s\<lparr>ds_admin := db\<rparr>)"
    using mine ins token
    by (simp add: do_issue_app_token_def app_of_def get_app_by_id_def found_def require_def has_app_permission_def
        dash_then_def read_admin_def respond_def write_admin_def insert_app_token_def permit_from_def Let_def row_def d_def)
  obtain x where x: "sel_token (de_admin env) db (i, u_id user, name) = Ok x" using up(2) by blast
  have "v_tokens (admin db) (i, u_id user, name) = Some row"
    using admin_service.ins_token_wr [OF apps ins] by (simp add: after_write_def row_def token_key_def)
  with admin_service.sel_token_ok [OF apps x] x have nonce: "nonce_current (de_admin env) db d"
    by (simp add: nonce_current_def get_app_token_def found_def d_def row_def)
  have "holds c (claim_key_from d) = None" by (rule unseen) (simp add: claim_key_from_def d_def)
  from authenticate_fresh [OF cache token_library.verify_generated [OF lib token unexpired] this nonce]
  obtain c' where auth: "user_authenticate (de_jwt env) ops (de_admin env) secs at (Some (Some (''Bearer '' @ token))) db c =
      (Ok \<lparr>permits = at_perms d, accessor_app_id = at_app_id d\<rparr>, c')" by blast
  have "has_permission \<lparr>permits = at_perms d, accessor_app_id = at_app_id d\<rparr> i b DOWNLOAD_ALLOWANCE = Ok ()"
    by (simp add: has_permission_def d_def)
  then show ?thesis using issued auth by (auto simp: handle_download_def)
qed

subsection \<open>Examples\<close>

definition demo_env :: "uuid \<Rightarrow> (mem_db, mem_admin) dash_env" where
  "demo_env v4 = mem_dash_env plain_jwt claim_bytes v4"

definition demo_claims :: AppTokenData where
  "demo_claims = \<lparr>at_app_id = 1, at_issuer_id = 5, at_name = ''cli'', at_nonce = 7, at_perms = []\<rparr>"

definition demo_token :: string where
  "demo_token = text_of (to_be_bytes (3600 :: u64)) @ token_text demo_claims"

definition issued_state :: "(mem_db, mem_admin) dash_state" where
  "issued_state = (one_app 100 [])\<lparr>ds_admin := (ds_admin (one_app 100 []))\<lparr>l_tokens := [\<lparr>tk_app_id = 1, tk_issuer_id = 5,
     tk_name = ''cli'', tk_nonce = 7, tk_created = 0, tk_last_modified = 0\<rparr>]\<rparr>\<rparr>"

definition warm_node :: "(ClaimKey \<rightharpoonup> bool \<times> instant) node_caches" where
  "warm_node = \<lparr>nc_nonces = [claim_key_from demo_claims \<mapsto> (True, 0)], nc_node_addr = Map.empty, nc_storage_map = Map.empty\<rparr>"

lemma demo_verified: "verify_token plain_jwt 0 demo_token = Some demo_claims"
  by (rule plain.verify_generated [of 0]) (simp_all add: generate_token_def plain_jwt_def demo_token_def)

definition demo_header :: "string option option" where
  "demo_header = Some (Some (''Bearer '' @ demo_token))"

lemma demo_claimed: "header_claims plain_jwt 0 demo_header = Some demo_claims"
  unfolding header_claims_def demo_header_def option.case bearer_removed by (rule demo_verified)

definition demo_deleted :: "(mem_db, mem_admin) dash_state" where
  "demo_deleted = snd (do_delete_token (demo_env 2) 1 5 ''cli'' (some_user 5) issued_state)"

lemma demo_delete:
  "do_delete_token (demo_env 2) (at_app_id demo_claims) (at_issuer_id demo_claims) (at_name demo_claims)
     (some_user 5) issued_state = (Ok (), demo_deleted)"
  by (simp add: demo_deleted_def demo_env_def demo_claims_def do_delete_token_def mem_dash_env_def some_user_def issued_state_def
      get_app_token_def found_def mem_admin_sel rows_map_def token_key_def delete_app_token_def drop_row_def write_packet_def
      dash_then_def read_admin_def respond_def write_admin_def one_app_def)

lemma demo_tables: "dashboard_tables (demo_env 2) mem_view mem_admin_view"
  unfolding demo_env_def by (rule mem_dash.dashboard_tables_axioms)

lemma demo_parts: "de_admin (demo_env 2) = mem_admin_cql" "bytes_claim (de_to_vec (demo_env 2) k) = Some k"
  by (simp_all add: demo_env_def mem_dash_env_def bytes_claim_back)

theorem revoked_token_refused_witness:
  "let nc = handle_invalidate map_cache bytes_claim None (last (ds_sent demo_deleted)) warm_node;
       n = auth_begin plain_jwt map_cache 0 0 demo_header \<lparr>an_caches = nc, an_pending = [], an_answers = []\<rparr>;
       n' = auth_store map_cache 0 0 (auth_read mem_admin_cql (ds_admin demo_deleted) 0 n)
   in an_answers (auth_begin plain_jwt map_cache 0 0 demo_header \<lparr>an_caches = warm_node, an_pending = [], an_answers = []\<rparr>)
        = [(demo_claims, Ok \<lparr>permits = [], accessor_app_id = 1\<rparr>)]
    \<and> (\<forall>claims r. (claims, r) \<in> set (an_answers n') \<and> claim_key_from claims = claim_key_from demo_claims \<longrightarrow> r = Err BadAuth)"
proof -
  define p where "p = last (ds_sent demo_deleted)"
  define n0 where "n0 = \<lparr>an_caches = handle_invalidate map_cache bytes_claim None p warm_node, an_pending = [], an_answers = []\<rparr>"
  define n' where "n' = auth_store map_cache 0 0 (auth_read mem_admin_cql (ds_admin demo_deleted) 0
    (auth_begin plain_jwt map_cache 0 0 demo_header n0))"
  have current: "\<not> revoked (mem_admin_view (ds_admin issued_state)) demo_claims"
    by (simp add: revoked_def issued_state_def mem_admin_view_def rows_map_def token_key_def demo_claims_def one_app_def)
  have sent: "(0 :: nat, p) \<in> set (server_handle_invalidate [0] (last (ds_sent demo_deleted)))"
    by (cases p) (simp add: server_handle_invalidate_def p_def)
  have "revoked (mem_admin_view (ds_admin demo_deleted)) demo_claims"
    by (rule do_delete_token_Ok [OF demo_tables demo_delete]) (simp add: revoked_def)
  then have works: "node_works plain_jwt map_cache (de_admin (demo_env 2)) mem_admin_view bytes_claim demo_claims n0 n'"
    unfolding n'_def demo_parts(1) by (intro work_store work_read work_begin work_none)
  have "an_answers (auth_begin plain_jwt map_cache 0 0 demo_header \<lparr>an_caches = warm_node, an_pending = [], an_answers = []\<rparr>)
      = [(demo_claims, Ok \<lparr>permits = [], accessor_app_id = 1\<rparr>)]"
    by (simp add: auth_begin_def demo_claimed lookup_nonce_def map_cache_def warm_node_def alive_def NONCE_LIFESPAN_def
        set_nonces_def nonce_answer_def) (simp add: demo_claims_def)
  moreover have "\<forall>claims r. (claims, r) \<in> set (an_answers n') \<and> claim_key_from claims = claim_key_from demo_claims \<longrightarrow> r = Err BadAuth"
    by (rule conjunct2, rule revoked_token_refused [OF demo_tables map_nonces.nonce_cache_axioms demo_parts(2) demo_delete current sent
        _ works [unfolded n0_def]]) simp
  ultimately show ?thesis unfolding Let_def n'_def n0_def p_def by blast
qed

theorem revoked_token_accepted_witness:
  "let n0 = \<lparr>an_caches = warm_node\<lparr>nc_nonces := Map.empty\<rparr>, an_pending = [], an_answers = []\<rparr>;
       n1 = auth_read mem_admin_cql (ds_admin issued_state) 0 (auth_begin plain_jwt map_cache 0 0 demo_header n0);
       n2 = n1\<lparr>an_caches := handle_invalidate map_cache bytes_claim None (last (ds_sent demo_deleted)) (an_caches n1)\<rparr>;
       n3 = auth_begin plain_jwt map_cache 0 59000000000 demo_header (auth_store map_cache 0 0 n2)
   in last (an_answers n3) = (demo_claims, Ok \<lparr>permits = [], accessor_app_id = 1\<rparr>)"
proof -
  have current: "nonce_current (de_admin (demo_env 2)) (ds_admin issued_state) demo_claims"
    by (simp add: demo_parts nonce_current_def get_app_token_def found_def mem_admin_sel rows_map_def token_key_def
        issued_state_def one_app_def demo_claims_def)
  have "alive 59000000000 0" by (simp add: alive_def NONCE_LIFESPAN_def)
  from revoked_token_accepted [OF demo_tables map_nonces.nonce_cache_axioms current demo_delete _ _ demo_claimed demo_claimed this,
      of "\<lparr>an_caches = warm_node\<lparr>nc_nonces := Map.empty\<rparr>, an_pending = [], an_answers = []\<rparr>" 0 bytes_claim None
        "last (ds_sent demo_deleted)"]
  show ?thesis by (simp add: Let_def demo_parts) (simp add: demo_claims_def)
qed

theorem token_reads_foreign_bucket_witness:
  "\<exists>token s' accessor c'.
    do_issue_app_token (demo_env 8) \<lparr>ti_app_id = 1, ti_name = ''mine'', ti_perms = [\<lparr>sp_bucket_id = 7, sp_allowance = DOWNLOAD_ALLOWANCE\<rparr>]\<rparr>
      (some_user 5) (one_app 100 []) = (Ok token, s')
    \<and> user_authenticate plain_jwt map_cache mem_admin_cql 0 0 (Some (Some (''Bearer '' @ token))) (ds_admin s') Map.empty = (Ok accessor, c')
    \<and> handle_download two_nodes_env (\<lambda>spec n. Some spec) (\<lambda>n. n) \<lparr>e_app_id = 1, e_bucket_id = 7, e_path = ''f''\<rparr>
        accessor (Some (1, 3)) (as_db split_state) =
      handle_download two_nodes_env (\<lambda>spec n. Some spec) (\<lambda>n. n) \<lparr>e_app_id = 6, e_bucket_id = 7, e_path = ''f''\<rparr>
        full_accessor (Some (1, 3)) (as_db split_state)"
proof -
  have apps: "dashboard_tables (demo_env 8) mem_view mem_admin_view"
    unfolding demo_env_def by (rule mem_dash.dashboard_tables_axioms)
  have env: "de_jwt (demo_env 8) = plain_jwt" "de_admin (demo_env 8) = mem_admin_cql" "de_secs (demo_env 8) = 0"
    by (simp_all add: demo_env_def mem_dash_env_def)
  have lib: "token_library (de_jwt (demo_env 8))" unfolding env by (rule plain.token_library_axioms)
  let ?app = "\<lparr>a_id = 1, a_name = ''app'', a_owner_id = 5, a_quota = 100, a_created = 0, a_last_modified = 0\<rparr>"
  have mine: "sel_app (de_admin (demo_env 8)) (ds_admin (one_app 100 [])) 1 = Ok (Some ?app)" "a_owner_id ?app = u_id (some_user 5)"
    by (simp_all add: env one_app_def mem_admin_sel rows_map_def some_user_def)
  have up: "\<exists>db. ins_token (de_admin (demo_env 8)) (ds_admin (one_app 100 [])) t = (Ok (), db)"
    "\<exists>x. sel_token (de_admin (demo_env 8)) db k = Ok x" for t db k
    by (simp_all add: env mem_admin_sel)
  have signed: "\<exists>token. generate_token (de_jwt (demo_env 8)) (de_secs (demo_env 8)) d = Ok token" for d
    by (simp add: env generate_token_def plain_jwt_def)
  have unexpired: "(0 :: u64) \<le> de_secs (demo_env 8) + jt_validity (de_jwt (demo_env 8))" by simp
  from token_reads_foreign_bucket [OF apps lib map_nonces.nonce_cache_axioms mine up signed _ unexpired,
      of Map.empty "''mine''" 7 0 two_nodes_env "\<lambda>spec n. Some spec" "\<lambda>n. n"]
  show ?thesis using full_accessor_permission unfolding env by blast
qed

end
