(* ===== verification/Spec2Isabelle.thy ===== *)
theory Spec2Isabelle
  imports Permissions Ledger_Boot Mdsftp_Connection File_Listing Upload_Failures Dashboard_Quotas Node_Auth
begin

text \<open>
  \<^bold>\<open>A verification development for Meowith, a distributed blob store.\<close>

  \<^bold>\<open>The program.\<close> A Meowith cluster consists of storage nodes, which keep the chunks of files in
  their data directories and serve clients over HTTP, a controller, which admits nodes and
  distributes configuration, and a dashboard, which manages applications, buckets, roles and tokens.
  File, directory, bucket, session, application and user rows live in a Scylla database all of them
  share. Nodes move chunks between each other over MDSFTP, a framed binary protocol with many
  channels on one TLS connection; cache invalidations travel over the control network. A client
  request reaches a node; the node checks the token, looks up rows, reserves space on itself and its
  peers, streams the content to them, commits the chunks and writes the row.

  \<^bold>\<open>The theories\<close>, in the order of their dependencies. Paths are relative to \<^verbatim>\<open>src/\<close>.

  \<^item> \<open>Meowith_Prelude\<close>: machine integers, results, sums over maps, big-endian codecs (\<open>be_codec\<close>).
  \<^item> \<open>Errors\<close>: \<^verbatim>\<open>commons/src/error\<close>, \<^verbatim>\<open>data/src/error\<close>, \<^verbatim>\<open>node/src/locking/error.rs\<close>.
  \<^item> \<open>Permissions\<close>: \<^verbatim>\<open>data/src/model/permission_model.rs\<close>, \<^verbatim>\<open>commons/src/permission\<close>, the access
    checks of the node and of the dashboard. A token grants exactly what its permit lists.
  \<^item> \<open>Fragment_Metadata_Store\<close>, \<open>Fragment_Ledger\<close>, \<open>Ledger_Correctness\<close>, \<open>Ledger_Boot\<close>:
    \<^verbatim>\<open>node/src/io\<close>. The ledger is a record of its maps, its atomic counters and its data directory;
    every method is a function on it, and \<open>ledger_run\<close> is any sequence of them. The counters equal
    the sums they stand for, but for the space of the reservations that sweeps which stop early lose;
    a reservation succeeds exactly when there is room; an upload stores its bytes; the sweeps remove
    what has expired and nothing else; the boot scan rebuilds the ledger.
  \<^item> \<open>File_Locks\<close>: \<^verbatim>\<open>node/src/locking\<close>, as a transition system over all interleavings of
    acquisitions, drops and deferred removals. One locker excludes; the table does when removals run
    in time, and a run without this is shown to admit two writers.
  \<^item> \<open>Pathlib\<close>: \<^verbatim>\<open>data/src/pathlib.rs\<close>. Normalisation against its specification by segments.
  \<^item> \<open>Database\<close>, \<open>File_Access\<close>: \<^verbatim>\<open>data/src/model/file_model.rs\<close>, \<^verbatim>\<open>data/src/access/file_access.rs\<close>.
    The database is a parameter: a record of the statements the code issues, with the locale
    \<open>cql_service\<close> for what CQL documents of them and \<open>reliable_cql\<close> for a database that answers,
    interpreted on tables kept as lists. Counter updates are never lost, and bucket counters stay
    equal to what the bucket holds.
  \<^item> \<open>Mdsftp_Wire\<close>, \<open>Mdsftp_Channel\<close>, \<open>Mdsftp_Connection\<close>, \<open>Mdsftp_Transfer\<close>:
    \<^verbatim>\<open>protocol/src/mdsftp\<close> and \<^verbatim>\<open>node/src/file_transfer/transfer_manager.rs\<close>. Framing and payloads
    round-trip; a request makes the handler call it stands for and its answer reaches the waiter; a
    windowed transfer delivers the range that was asked for and ends. Empty chunks, dead connections,
    leaked channel counts, crossing and unanswered requests are shown as they are.
  \<^item> \<open>Channel_Handler\<close>: \<^verbatim>\<open>node/src/file_transfer/channel_handler.rs\<close> on the ledger and the lock
    table. A remote upload has the effect of a local one, and a durable one survives an interruption.
  \<^item> \<open>Cluster\<close>, \<open>Reservation_Service\<close>: \<^verbatim>\<open>node/src/public/service\<close>, on the states of all nodes: a
    request to a peer runs the peer's handler. Reservations are complete or, for one-shot uploads,
    leave no trace.
  \<^item> \<open>Upload_Sessions\<close>: \<^verbatim>\<open>node/src/public/service/durable_transfer_session_manager.rs\<close>. One request
    gets the lock of a session.
  \<^item> \<open>Directory_Services\<close>, \<open>File_Listing\<close>: \<^verbatim>\<open>directory_action_service.rs\<close> and
    \<^verbatim>\<open>file_list_service.rs\<close> there, the request extractors and the \<open>DirectoryIterator\<close>. Making a
    directory makes its ancestors; the iterator yields a tree exactly, and never ends on a directory
    without a name; a listing is complete; a recursive delete leaves files behind.
  \<^item> \<open>File_Download\<close>, \<open>File_Upload\<close>, \<open>Upload_Correctness\<close>, \<open>Upload_Failures\<close>:
    \<^verbatim>\<open>file_access_service.rs\<close> and \<^verbatim>\<open>file_action_service.rs\<close> there. A download sends the bytes of its
    range; what an admitted upload stored can be downloaded; two ways in which data is lost.
  \<^item> \<open>App_Access\<close>: \<^verbatim>\<open>data/src/model/app_model.rs\<close>, \<^verbatim>\<open>user_model.rs\<close>, \<^verbatim>\<open>data/src/access/app_access.rs\<close>,
    \<^verbatim>\<open>user_access.rs\<close>. The locale \<open>admin_service\<close> states what CQL documents of their statements.
  \<^item> \<open>Dashboard\<close>, \<open>Dashboard_Rights\<close>, \<open>Dashboard_Quotas\<close>: \<^verbatim>\<open>dashboard/src/public/service\<close>, over both
    table services (\<open>dashboard_tables\<close>); the library for tokens is the locale \<open>token_library\<close>. The rows
    of an application change only for those who may change them, with two exceptions; the quotas of its
    buckets stay within its own while numbers are small.
  \<^item> \<open>Node_Auth\<close>: \<^verbatim>\<open>node/src/public/middleware/user_middleware.rs\<close>, \<^verbatim>\<open>node/src/caching\<close> and the
    invalidation packets of \<^verbatim>\<open>protocol/src/mgpp\<close>, with the cache library as the locale \<open>nonce_cache\<close> and
    the steps of overlapping requests in \<open>node_works\<close>. A deleted token is refused once its invalidation
    has been handled, unless a request in flight brings it back.
  \<^item> This theory: the packet handler and the connection together, on a request that is not answered.

  \<^bold>\<open>Conventions.\<close> Fixed-width integers are words and wrap, as in a release build; \<open>i64\<close> is \<open>int\<close>
  with the wrap written out. A panic is \<open>None\<close> where one is reachable, and so is a request that is
  never answered. Asynchronous code is the sequence of its effects; where interleaving matters there
  is a step relation instead (\<open>lock_step\<close>, \<open>duplex_step\<close>, \<open>transfer_step\<close>, \<open>ledger_step\<close>,
  \<open>node_works\<close>) or an argument for what others do in between (\<open>others\<close> in \<open>update_bucket_space\<close>). Fresh
  ids, clocks, iteration orders, failures of the database, the file system and the network are
  arguments. \<open>QUERY_ATTEMPTS\<close> is the bound of the code's own retry loop; no other fuel is used, and the
  iterator over directories, which may run for ever, is a \<open>partial_function\<close>.

  \<^bold>\<open>Not modelled.\<close> Sockets, TLS and the accept loops (\<^verbatim>\<open>protocol/src/mdsftp/server.rs\<close>,
  \<^verbatim>\<open>protocol/src/framework\<close>) are input and output around the packets modelled here. The controller
  registers nodes and hands out certificates over HTTP; what nodes and the dashboard get from it is an
  argument. The login methods (\<^verbatim>\<open>auth_framework\<close>) hash passwords or ask an external provider; the
  services get the user as an argument. HTTP routes, configuration files and logging are glue around
  libraries, \<^verbatim>\<open>protocol_macro\<close> generates source text, \<^verbatim>\<open>migration_service.rs\<close> has no caller, and the
  client library (\<^verbatim>\<open>src/lib.rs\<close>) runs outside the cluster.
\<close>

section \<open>A request that is not answered\<close>

text \<open>C32. A \<open>Put\<close> for a chunk that is locked blocks the connection it came over. The node keeps the
  reservation and finds the chunk locked: its handler fails, sends nothing and leaves the channel
  open. On the connection, with nothing else in flight, a request that is answered exactly when this
  handler sends something holds the writer of its end from then on, whatever requests both ends make
  and whatever packets they read, and no later request of that end can start (as long as the
  connection stays open and the caller waits).\<close>

theorem locked_put_blocks_connection:
  assumes "resume_reservation (ne_ledger env) i (ns_ledger s) = (Ok r, l)"
    and "sz = file_space r - completed r" "try_write i (ne_guard env) (ns_locks s) = (Err e, k)"
    and "handle_call env (HPut flags i sz) s = (result, s')"
    and "start_request (ns_sent s' \<noteq> ns_sent s) ends = Some ends1" "inbox (fst ends) = []" "inbox (snd ends) = []"
    and "duplex_step\<^sup>*\<^sup>* ends1 ends2"
  shows "result = Err ReservationError \<and> ns_sent s' = ns_sent s \<and> ns_closed s' = ns_closed s
    \<and> writer_held (fst ends2) \<and> start_request answers ends2 = None"
proof -
  have silent: "result = Err ReservationError \<and> ns_sent s' = ns_sent s \<and> ns_closed s' = ns_closed s"
    using assms(1-4) by (auto simp: handle_put_def start_receiving_def Let_def)
  then have "start_request False ends = Some ends1" using assms(5) by simp
  from silent unanswered_request_blocks [OF this assms(6-8)] show ?thesis by simp
qed

theorem locked_put_blocks_connection_witness:
  "case handle_call (plain_node_env 5) (HPut \<lparr>put_append = True\<rparr> 7 4)
        (resumed_node\<lparr>ns_locks := snd (try_write 7 3 (lock_table_new 256))\<rparr>) of
     (result, s') \<Rightarrow> result = Err ReservationError \<and> ns_sent s' = []
       \<and> (case start_request (ns_sent s' \<noteq> []) quiet_ends of
            None \<Rightarrow> False | Some ends \<Rightarrow> start_request True ends = None)"
proof -
  let ?s = "resumed_node\<lparr>ns_locks := snd (try_write 7 3 (lock_table_new 256))\<rparr>"
  let ?r = "\<lparr>file_space = 6, completed = 2, durable = True, last_update = 5\<rparr>"
  obtain l where l: "resume_reservation (ne_ledger (plain_node_env 5)) 7 (ns_ledger ?s) = (Ok ?r, l)"
    by (simp add: resume_reservation_def refresh_reservation_def resumed_node_def plain_node_env_def plain_env_def Let_def)
  obtain e k where locked: "try_write 7 (ne_guard (plain_node_env 5)) (ns_locks ?s) = (Err e, k)"
    by (simp add: try_write_def try_lock_def lock_table_new_def file_lock_new_def guard_new_def Let_def)
  obtain result s' where call: "handle_call (plain_node_env 5) (HPut \<lparr>put_append = True\<rparr> 7 4) ?s = (result, s')"
    by fastforce
  obtain ends where ends: "start_request (ns_sent s' \<noteq> ns_sent ?s) quiet_ends = Some ends"
    by (simp add: start_request_def quiet_ends_def)
  show ?thesis
    using locked_put_blocks_connection [OF l _ locked call ends _ _ rtranclp.rtrancl_refl] call ends
    by (auto simp: quiet_ends_def resumed_node_def plain_node_def)
qed

end
